theory Spec2Isabelle
  imports
    Main
    "HOL-Library.Multiset"
    "HOL-Library.Char_ord"
    "HOL-Library.List_Lexorder"
begin

section \<open>Strings and JSON values\<close>

text \<open>
  JavaScript strings are modelled as \<open>string\<close>.  \<open>split_on c s\<close> is \<open>s.split(c)\<close> for a
  one-character separator: it never returns the empty array, and an empty piece stands
  between two adjacent separators.  \<open>join sep xs\<close> is \<open>xs.join(sep)\<close>.
\<close>

fun split_on :: "char \<Rightarrow> string \<Rightarrow> string list" where
  "split_on c [] = [[]]"
| "split_on c (x # xs) =
     (if x = c then [] # split_on c xs
      else (case split_on c xs of
              [] \<Rightarrow> [[x]]
            | w # ws \<Rightarrow> (x # w) # ws))"

fun join :: "string \<Rightarrow> string list \<Rightarrow> string" where
  "join sep [] = []"
| "join sep [x] = x"
| "join sep (x # y # ys) = x @ sep @ join sep (y # ys)"

text \<open>Decimal rendering of a number inside a template literal.\<close>

fun show_nat :: "nat \<Rightarrow> string" where
  "show_nat n =
     (if n < 10 then [''0123456789'' ! n]
      else show_nat (n div 10) @ [''0123456789'' ! (n mod 10)])"

definition show_int :: "int \<Rightarrow> string" where
  "show_int i = (if i < 0 then CHR ''-'' # show_nat (nat (- i)) else show_nat (nat i))"

text \<open>\<open>s.includes(p)\<close> and \<open>s.startsWith(p)\<close>.\<close>

fun startsWith :: "string \<Rightarrow> string \<Rightarrow> bool" where
  "startsWith s [] = True"
| "startsWith [] (p # ps) = False"
| "startsWith (c # cs) (p # ps) = (c = p \<and> startsWith cs ps)"

fun includes_str :: "string \<Rightarrow> string \<Rightarrow> bool" where
  "includes_str [] p = (p = [])"
| "includes_str (c # cs) p = (startsWith (c # cs) p \<or> includes_str cs p)"

text \<open>
  A value as \<open>JSON.parse\<close> delivers it, with \<open>undefined\<close> for what a property read gives
  when the property is absent.  An object keeps its properties as an association list;
  a later entry for the same key overrides an earlier one, as in \<open>JSON.parse\<close> and in an
  object literal.
\<close>

datatype json =
    JUndefined
  | JNull
  | JBool bool
  | JNum int
  | JStr string
  | JArr "json list"
  | JObj "(string \<times> json) list"

datatype error = Error string | TypeError string

text \<open>\<open>`${err}`\<close>: the name of the error class, a colon and the message.\<close>

fun show_error :: "error \<Rightarrow> string" where
  "show_error (Error m) = ''Error: '' @ m"
| "show_error (TypeError m) = ''TypeError: '' @ m"

fun lookup_last :: "(string \<times> json) list \<Rightarrow> string \<Rightarrow> json" where
  "lookup_last [] k = JUndefined"
| "lookup_last ((k', v) # kvs) k =
     (if k' = k \<and> k \<notin> fst ` set kvs then v else lookup_last kvs k)"

text \<open>
  \<open>getprop v k\<close> is the property read \<open>v.k\<close> for the data properties the handler reads
  (\<open>apisessionid\<close>, \<open>name\<close>, \<open>dnsrecords\<close>, \<open>type\<close>, \<open>hostname\<close>, \<open>destination\<close>): it throws
  a TypeError on \<open>null\<close> and \<open>undefined\<close>, and is \<open>undefined\<close> on every value that is not
  an object holding the key.
\<close>

fun getprop :: "json \<Rightarrow> string \<Rightarrow> error + json" where
  "getprop JUndefined k =
     Inl (TypeError (''Cannot read properties of undefined (reading '' @ [CHR 0x27] @ k @ [CHR 0x27] @ '')''))"
| "getprop JNull k =
     Inl (TypeError (''Cannot read properties of null (reading '' @ [CHR 0x27] @ k @ [CHR 0x27] @ '')''))"
| "getprop (JObj kvs) k = Inr (lookup_last kvs k)"
| "getprop v k = Inr JUndefined"

text \<open>
  The assignment \<open>obj[k] = v\<close>: the value of an existing property is replaced where it
  stands, a new property goes to the end.
\<close>

definition assign :: "(string \<times> json) list \<Rightarrow> string \<Rightarrow> json \<Rightarrow> (string \<times> json) list" where
  "assign kvs k v =
     (if k \<in> fst ` set kvs then map (\<lambda>(k', v'). if k' = k then (k', v) else (k', v')) kvs
      else kvs @ [(k, v)])"

text \<open>JavaScript truthiness, as the conditions \<open>result.name\<close> and \<open>x || '@'\<close> use it.\<close>

fun truthy :: "json \<Rightarrow> bool" where
  "truthy JUndefined = False"
| "truthy JNull = False"
| "truthy (JBool b) = b"
| "truthy (JNum n) = (n \<noteq> 0)"
| "truthy (JStr s) = (s \<noteq> [])"
| "truthy (JArr xs) = True"
| "truthy (JObj kvs) = True"

section \<open>Renewal decision (main.ts)\<close>

text \<open>\<open>const renewWindow = 60 * 60 * 24 * 7 * 1000\<close>: seven days in milliseconds.\<close>

definition renewWindow :: int where
  "renewWindow = 60 * 60 * 24 * 7 * 1000"

text \<open>
  \<open>xs.every((val, idx) => p(val, idx))\<close>: the callback receives each element with its
  index.
\<close>

definition every_idx :: "('a \<Rightarrow> nat \<Rightarrow> bool) \<Rightarrow> 'a list \<Rightarrow> bool" where
  "every_idx p xs = list_all (\<lambda>(val, idx). p val idx) (zip xs [0..<length xs])"

text \<open>
  \<open>_arraysMatch(arr1, arr2)\<close>.  An argument that is not an array is \<open>None\<close>.  The
  reference test \<open>arr1 === arr2\<close> returns true for one and the same array, which the
  comparison below returns as well (lemma \<open>arraysMatch_same\<close>), so that it is not a case
  of its own here.  \<open>sort()\<close> without a comparator orders strings by their code units;
  \<open>sort\<close> orders them by the lexicographic order on characters.
\<close>

definition arraysMatch :: "string list option \<Rightarrow> string list option \<Rightarrow> bool" where
  "arraysMatch arr1 arr2 =
     (case (arr1, arr2) of
        (Some a1, Some a2) \<Rightarrow>
          if length a1 \<noteq> length a2 then False
          else (let sorted1 = sort a1; sorted2 = sort a2
                in every_idx (\<lambda>val idx. val = sorted2 ! idx) sorted1)
      | _ \<Rightarrow> False)"

text \<open>
  The decoded certificate, as far as the decision reads it: \<open>crt.notAfter\<close>,
  \<open>crt.subject.commonName\<close> (\<open>None\<close> when the subject has no common name) and
  \<open>crt.altNames\<close> (\<open>None\<close> when it is not an array).
\<close>

record crt =
  notAfter :: string
  subject_commonName :: "string option"
  altNames :: "string list option"

text \<open>The stored collection (\<open>CertificateCollection\<close>), as far as the decision reads it.\<close>

record CertificateCollection =
  cert :: string
  staging :: bool

text \<open>The configured collection: \<open>{id, commonName, altNames}\<close>.\<close>

record collection =
  collection_id :: string
  commonName :: string
  collection_altNames :: string

text \<open>
  The library calls of the decision: \<open>x509.parseCert\<close>, which throws on a certificate
  it cannot decode, and \<open>Date.parse\<close>, which returns NaN (\<open>None\<close>) on a string it
  cannot read.
\<close>

record x509_env =
  parseCert :: "string \<Rightarrow> error + crt"
  Date_parse :: "string \<Rightarrow> int option"

text \<open>
  \<open>Date.now() > Date.parse(crt.notAfter) - renewWindow\<close>; a comparison with NaN is
  false.
\<close>

definition expiring :: "x509_env \<Rightarrow> int \<Rightarrow> crt \<Rightarrow> bool" where
  "expiring x now c =
     (case Date_parse x (notAfter c) of
        None \<Rightarrow> False
      | Some t \<Rightarrow> now > t - renewWindow)"

text \<open>
  The list \<open>domains\<close> that \<open>generateCollection\<close> builds first: the common name split at
  commas, each piece trimmed, empty pieces dropped; then, when \<open>altNames\<close> is not empty,
  the alternative names without any white space, split at commas, empty pieces dropped.
  White space is the ASCII white space here.
\<close>

definition is_space :: "char \<Rightarrow> bool" where
  "is_space c \<longleftrightarrow> c \<in> set [CHR '' '', CHR 0x09, CHR 0x0A, CHR 0x0B, CHR 0x0C, CHR 0x0D]"

definition trim :: "string \<Rightarrow> string" where
  "trim s = rev (dropWhile is_space (rev (dropWhile is_space s)))"

definition domains_of :: "collection \<Rightarrow> string list" where
  "domains_of coll =
     filter (\<lambda>n. n \<noteq> []) (map trim (split_on CHR '','' (commonName coll))) @
     (if collection_altNames coll \<noteq> [] then
        filter (\<lambda>n. n \<noteq> [])
          (split_on CHR '','' (filter (\<lambda>c. \<not> is_space c) (collection_altNames coll)))
      else [])"

text \<open>
  The value of \<open>create\<close> when \<open>generateCollection\<close> reaches \<open>if (create)\<close>: \<open>now\<close> is
  \<open>Date.now()\<close>, \<open>useStaging\<close> is \<open>this.config.useStaging\<close>, \<open>domains\<close> is the list built
  from the configured names, \<open>existing\<close> is what \<open>getCollection\<close> returned.
\<close>

definition generateCollection_create ::
  "x509_env \<Rightarrow> int \<Rightarrow> bool \<Rightarrow> collection \<Rightarrow> string list \<Rightarrow> CertificateCollection option \<Rightarrow> bool" where
  "generateCollection_create x now useStaging coll domains existing =
     (case existing of
        None \<Rightarrow> True
      | Some existingCollection \<Rightarrow>
          (case parseCert x (cert existingCollection) of
             Inl err \<Rightarrow> True
           | Inr c \<Rightarrow>
               if expiring x now c then True
               else if Some (commonName coll) \<noteq> subject_commonName c then True
               else if \<not> arraysMatch (Some domains) (altNames c) then True
               else if useStaging \<noteq> staging existingCollection then True
               else False))"

section \<open>The Netcup DNS-01 handler (lib/acme-dns-01-netcup.ts)\<close>

text \<open>
  The handler talks to the world in four ways: it posts a request \<open>{action, param}\<close> to
  the API endpoint (\<open>fetch\<close>), it asks a resolver for the TXT records of a name
  (\<open>resolveTxt\<close>), it waits (\<open>setTimeout\<close>) and it writes to the log.  The state that is
  passed through every function is the list of these events so far, oldest first.  The
  adapter writes to the same log, also at the level \<open>info\<close>, and calls the libraries and
  the host it runs in: \<open>Ask name args\<close> is such a call.
\<close>

datatype level = Warn | Err | Debug | Info

datatype event =
    Fetch string json
  | ResolveTxt "string list" string
  | Sleep nat
  | Log level string
  | Ask string "json list"

text \<open>
  The response envelope \<open>{statuscode, longmessage?, shortmessage?, responsedata}\<close>, typed
  as the source declares it, and the three ways a request can end: an HTTP status that is
  not ok (\<open>status\<close>, \<open>statusText\<close>), a body that \<open>JSON.parse\<close> rejects, a parsed body.
\<close>

record envelope =
  statuscode :: int
  longmessage :: "string option"
  shortmessage :: "string option"
  responsedata :: json

datatype api_response =
    HttpNotOk nat string
  | NonJson string
  | Json envelope

text \<open>The error a failed lookup throws: \<open>err.code\<close> (when set) and \<open>err.message\<close>.\<close>

datatype dns_error = DnsError "string option" string

text \<open>
  The world answers a request and a lookup as a function of the events so far, the
  request or lookup itself being the last of them: a server and a DNS that keep state are
  covered.  \<open>stringify\<close> is \<open>JSON.stringify\<close>.
\<close>

record world =
  fetch :: "event list \<Rightarrow> api_response"
  resolveTxt :: "event list \<Rightarrow> dns_error + string list list"
  stringify :: "json \<Rightarrow> string"

record NetcupOptions =
  customerNumber :: string
  apiKey :: string
  apiPassword :: string

record challenge =
  dnsHost :: string
  dnsAuthorization :: string

definition quoted :: "string \<Rightarrow> string" where
  "quoted s = [CHR 0x22] @ s @ [CHR 0x22]"

text \<open>\<open>a ?? b ?? 'unknown error'\<close> on the two optional messages.\<close>

definition api_message :: "envelope \<Rightarrow> string" where
  "api_message j =
     (case longmessage j of
        Some m \<Rightarrow> m
      | None \<Rightarrow> (case shortmessage j of Some m \<Rightarrow> m | None \<Rightarrow> ''unknown error''))"

text \<open>
  \<open>apiCall(action, param, throwOnError)\<close>.  The result is \<open>Inl\<close> for a thrown error and
  \<open>Inr\<close> for the returned value, \<open>JNull\<close> being \<open>null\<close>.
\<close>

definition apiCall ::
  "world \<Rightarrow> event list \<Rightarrow> string \<Rightarrow> json \<Rightarrow> bool \<Rightarrow> (error + json) \<times> event list" where
  "apiCall w st action param throwOnError =
     (let st' = st @ [Fetch action param] in
      case fetch w st' of
        HttpNotOk status statusText \<Rightarrow>
          (Inl (Error (''Netcup HTTP error: '' @ show_nat status @ '' '' @ statusText)), st')
      | NonJson rawText \<Rightarrow>
          (Inl (Error (''Netcup API returned non-JSON response: '' @ take 200 rawText)), st')
      | Json j \<Rightarrow>
          (let isSuccess = (statuscode j \<ge> 2000 \<and> statuscode j < 3000) in
           if \<not> isSuccess \<and> throwOnError then
             (Inl (Error (''Netcup API error ['' @ show_int (statuscode j) @ '']: '' @ api_message j)), st')
           else (Inr (if isSuccess then responsedata j else JNull), st')))"

definition login_param :: "string \<Rightarrow> string \<Rightarrow> string \<Rightarrow> json" where
  "login_param cn key pw =
     JObj [(''customernumber'', JStr cn), (''apikey'', JStr key), (''apipassword'', JStr pw)]"

definition session_param :: "string \<Rightarrow> string \<Rightarrow> json \<Rightarrow> json" where
  "session_param cn key sid =
     JObj [(''customernumber'', JStr cn), (''apikey'', JStr key), (''apisessionid'', sid)]"

definition zone_param :: "string \<Rightarrow> string \<Rightarrow> json \<Rightarrow> string \<Rightarrow> json" where
  "zone_param cn key sid domainname =
     JObj [(''customernumber'', JStr cn), (''apikey'', JStr key), (''apisessionid'', sid),
           (''domainname'', JStr domainname)]"

definition update_param :: "string \<Rightarrow> string \<Rightarrow> json \<Rightarrow> string \<Rightarrow> json list \<Rightarrow> json" where
  "update_param cn key sid domainname dnsrecords =
     JObj [(''customernumber'', JStr cn), (''apikey'', JStr key), (''apisessionid'', sid),
           (''domainname'', JStr domainname),
           (''dnsrecordset'', JObj [(''dnsrecords'', JArr dnsrecords)])]"

text \<open>\<open>login\<close>: the session id is whatever \<open>data.apisessionid\<close> reads.\<close>

definition login ::
  "world \<Rightarrow> event list \<Rightarrow> string \<Rightarrow> string \<Rightarrow> string \<Rightarrow> (error + json) \<times> event list" where
  "login w st cn key pw =
     (case apiCall w st ''login'' (login_param cn key pw) True of
        (Inl e, st') \<Rightarrow> (Inl e, st')
      | (Inr data, st') \<Rightarrow> (getprop data ''apisessionid'', st'))"

text \<open>\<open>logout\<close>: the try/catch drops every error of the call; only the state is left.\<close>

definition logout :: "world \<Rightarrow> event list \<Rightarrow> string \<Rightarrow> string \<Rightarrow> json \<Rightarrow> event list" where
  "logout w st cn key sid = snd (apiCall w st ''logout'' (session_param cn key sid) True)"

fun typeof :: "json \<Rightarrow> string" where
  "typeof JUndefined = ''undefined''"
| "typeof JNull = ''object''"
| "typeof (JBool b) = ''boolean''"
| "typeof (JNum n) = ''number''"
| "typeof (JStr s) = ''string''"
| "typeof (JArr xs) = ''object''"
| "typeof (JObj kvs) = ''object''"

text \<open>\<open>result !== null && typeof result === 'object' && result.name\<close>.\<close>

definition zone_accepted :: "json \<Rightarrow> bool" where
  "zone_accepted result \<longleftrightarrow>
     result \<noteq> JNull \<and> typeof result = ''object'' \<and>
     (case getprop result ''name'' of Inl e \<Rightarrow> False | Inr v \<Rightarrow> truthy v)"

text \<open>\<open>xs.join('.') || '@'\<close>.\<close>

definition hostname_of :: "string list \<Rightarrow> string" where
  "hostname_of xs = (if join ''.'' xs = [] then ''@'' else join ''.'' xs)"

definition arrow :: string where
  "arrow = [CHR 0xE2, CHR 0x86, CHR 0x92]"

definition found_message :: "string \<Rightarrow> string \<Rightarrow> string \<Rightarrow> string" where
  "found_message fullDomain candidate hostname =
     ''[acme-dns-01-netcup] findZone: '' @ quoted fullDomain @ '' '' @ arrow @ '' zone='' @
     quoted candidate @ '', hostname='' @ quoted hostname"

definition fallback_message :: "string \<Rightarrow> string \<Rightarrow> string \<Rightarrow> string" where
  "fallback_message fullDomain rootDomain hostname =
     ''[acme-dns-01-netcup] findZone: no zone found via API for '' @ quoted fullDomain @
     '', using fallback zone='' @ quoted rootDomain @ '', hostname='' @ quoted hostname"

text \<open>
  The loop of \<open>findZone\<close>, over the values \<open>i\<close> still to come.  It ends with \<open>Inl\<close> on a
  probe that throws, with \<open>Inr (Some (rootDomain, hostname))\<close> on the return inside the
  loop, and with \<open>Inr None\<close> when the loop runs out.
\<close>

fun findZone_loop ::
  "world \<Rightarrow> event list \<Rightarrow> string \<Rightarrow> string list \<Rightarrow> string \<Rightarrow> string \<Rightarrow> json \<Rightarrow> nat list
   \<Rightarrow> (error + (string \<times> string) option) \<times> event list" where
  "findZone_loop w st fullDomain parts cn key sid [] = (Inr None, st)"
| "findZone_loop w st fullDomain parts cn key sid (i # rest) =
     (let candidate = join ''.'' (drop i parts) in
      case apiCall w st ''infoDnsZone'' (zone_param cn key sid candidate) False of
        (Inl e, st') \<Rightarrow> (Inl e, st')
      | (Inr result, st') \<Rightarrow>
          if zone_accepted result then
            (let hostname = hostname_of (take i parts) in
             (Inr (Some (candidate, hostname)),
              st' @ [Log Warn (found_message fullDomain candidate hostname)]))
          else findZone_loop w st' fullDomain parts cn key sid rest)"

text \<open>
  \<open>findZone\<close>: \<open>for (let i = 1; i < parts.length - 1; i++)\<close>, then the fallback on
  \<open>parts.slice(-2)\<close> and \<open>parts.slice(0, -2)\<close>.  The result is the pair
  \<open>(rootDomain, hostname)\<close>.
\<close>

definition findZone ::
  "world \<Rightarrow> event list \<Rightarrow> string \<Rightarrow> string \<Rightarrow> string \<Rightarrow> json
   \<Rightarrow> (error + string \<times> string) \<times> event list" where
  "findZone w st fullDomain cn key sid =
     (let parts = split_on CHR ''.'' fullDomain in
      case findZone_loop w st fullDomain parts cn key sid [1..<length parts - 1] of
        (Inl e, st') \<Rightarrow> (Inl e, st')
      | (Inr (Some found), st') \<Rightarrow> (Inr found, st')
      | (Inr None, st') \<Rightarrow>
          (let rootDomain = join ''.'' (drop (length parts - 2) parts);
               hostname = hostname_of (take (length parts - 2) parts)
           in (Inr (rootDomain, hostname),
               st' @ [Log Warn (fallback_message fullDomain rootDomain hostname)])))"

text \<open>
  \<open>create(options)\<close>: it throws when a credential is missing (the empty string is falsy)
  and logs the call otherwise.  The customer number is a string here; the handler only
  ever uses it as \<open>String(customerNumber)\<close>.
\<close>

definition create_message :: "NetcupOptions \<Rightarrow> string" where
  "create_message opts =
     ''[acme-dns-01-netcup] create() called, customerNumber='' @ quoted (customerNumber opts)"

definition create :: "event list \<Rightarrow> NetcupOptions \<Rightarrow> (error + unit) \<times> event list" where
  "create st opts =
     (if customerNumber opts = [] \<or> apiKey opts = [] \<or> apiPassword opts = [] then
        (Inl (Error ''acme-dns-01-netcup: customerNumber, apiKey and apiPassword are all required''), st)
      else (Inr (), st @ [Log Warn (create_message opts)]))"

text \<open>\<open>publicResolver.setServers(['1.1.1.1', '8.8.8.8'])\<close>.\<close>

definition publicResolver :: "string list" where
  "publicResolver = [''1.1.1.1'', ''8.8.8.8'']"

text \<open>\<open>err.code ?? err.message\<close>.\<close>

fun dns_error_text :: "dns_error \<Rightarrow> string" where
  "dns_error_text (DnsError (Some c) m) = c"
| "dns_error_text (DnsError None m) = m"

definition attempt_of :: "nat \<Rightarrow> nat \<Rightarrow> string" where
  "attempt_of attempt maxAttempts = show_nat attempt @ ''/'' @ show_nat maxAttempts"

text \<open>
  The polling loop of \<open>set\<close>, \<open>for (let attempt = 1; attempt <= maxAttempts; attempt++)\<close>,
  over the attempts still to come.  The block after the lookup is entered whenever the
  lookup returns, so that the loop returns \<open>null\<close> there; the log line after the block is
  never reached.  A lookup that throws is logged and followed by the wait.  \<open>Some v\<close> is
  a return of \<open>v\<close> from inside the loop, \<open>None\<close> the end of the loop.
\<close>

definition confirmed_message :: "nat \<Rightarrow> nat \<Rightarrow> string" where
  "confirmed_message attempt maxAttempts =
     ''[acme-dns-01-netcup] set: DNS record confirmed after attempt '' @ attempt_of attempt maxAttempts"

definition lookup_failed_message :: "nat \<Rightarrow> nat \<Rightarrow> dns_error \<Rightarrow> string" where
  "lookup_failed_message attempt maxAttempts err =
     ''[acme-dns-01-netcup] set: DNS lookup failed (attempt '' @ attempt_of attempt maxAttempts @
     ''): '' @ dns_error_text err @ '', waiting...''"

fun set_poll ::
  "world \<Rightarrow> event list \<Rightarrow> string \<Rightarrow> nat \<Rightarrow> nat \<Rightarrow> nat list \<Rightarrow> json option \<times> event list" where
  "set_poll w st host maxAttempts retryDelayMs [] = (None, st)"
| "set_poll w st host maxAttempts retryDelayMs (attempt # rest) =
     (let st1 = st @ [ResolveTxt publicResolver host] in
      case resolveTxt w st1 of
        Inr results \<Rightarrow>
          (Some JNull, st1 @ [Log Warn (confirmed_message attempt maxAttempts)])
      | Inl err \<Rightarrow>
          set_poll w
            (st1 @ [Log Warn (lookup_failed_message attempt maxAttempts err), Sleep retryDelayMs])
            host maxAttempts retryDelayMs rest)"

definition timeout_message :: "string \<Rightarrow> nat \<Rightarrow> string" where
  "timeout_message host maxAttempts =
     ''[acme-dns-01-netcup] DNS record '' @ quoted host @ '' not visible after '' @
     show_nat maxAttempts @ '' attempts''"

text \<open>
  The second part of \<open>set\<close>, after the session is closed: \<open>maxAttempts = 30\<close>,
  \<open>retryDelayMs = 30_000\<close>, the loop, and the error thrown when the loop runs out.
\<close>

definition wait_message :: "nat \<Rightarrow> nat \<Rightarrow> string" where
  "wait_message retryDelayMs maxAttempts =
     ''[acme-dns-01-netcup] set: waiting for DNS propagation (polling every '' @
     show_nat (retryDelayMs div 1000) @ ''s, max '' @ show_nat maxAttempts @ '' attempts)...''"

definition set_wait :: "world \<Rightarrow> event list \<Rightarrow> string \<Rightarrow> (error + json) \<times> event list" where
  "set_wait w st host =
     (let maxAttempts = 30; retryDelayMs = 30000;
          st1 = st @ [Log Warn (wait_message retryDelayMs maxAttempts)]
      in case set_poll w st1 host maxAttempts retryDelayMs [1..<maxAttempts + 1] of
           (Some v, st2) \<Rightarrow> (Inr v, st2)
         | (None, st2) \<Rightarrow> (Inl (Error (timeout_message host maxAttempts)), st2))"

definition txt_record :: "string \<Rightarrow> string \<Rightarrow> json" where
  "txt_record hostname destination =
     JObj [(''hostname'', JStr hostname), (''type'', JStr ''TXT''),
           (''destination'', JStr destination), (''deleterecord'', JBool False)]"

definition creating_message :: "string \<Rightarrow> string \<Rightarrow> string" where
  "creating_message hostname rootDomain =
     ''[acme-dns-01-netcup] set: creating TXT hostname='' @ quoted hostname @
     '' in zone='' @ quoted rootDomain"

definition response_message :: "string \<Rightarrow> string" where
  "response_message setResult = ''[acme-dns-01-netcup] set: updateDnsRecords response='' @ setResult"

text \<open>The block that \<open>set\<close> protects with \<open>try ... finally\<close>.\<close>

definition set_body ::
  "world \<Rightarrow> event list \<Rightarrow> string \<Rightarrow> string \<Rightarrow> json \<Rightarrow> challenge \<Rightarrow> (error + unit) \<times> event list" where
  "set_body w st cn key sid ch =
     (case findZone w st (dnsHost ch) cn key sid of
        (Inl e, st1) \<Rightarrow> (Inl e, st1)
      | (Inr (rootDomain, hostname), st1) \<Rightarrow>
          (let st2 = st1 @ [Log Warn (creating_message hostname rootDomain)]
           in case apiCall w st2 ''updateDnsRecords''
                     (update_param cn key sid rootDomain [txt_record hostname (dnsAuthorization ch)]) True of
                (Inl e, st3) \<Rightarrow> (Inl e, st3)
              | (Inr setResult, st3) \<Rightarrow>
                  (Inr (), st3 @ [Log Warn (response_message (stringify w setResult))])))"

text \<open>
  The handler's \<open>set(data)\<close>: login (a failure is logged and thrown again), the protected
  block, logout in the \<open>finally\<close>, then the wait for propagation.
\<close>

definition login_failed_message :: "error \<Rightarrow> string" where
  "login_failed_message err = ''[acme-dns-01-netcup] set: login failed: '' @ show_error err"

definition set_called :: "challenge \<Rightarrow> string" where
  "set_called ch =
     ''[acme-dns-01-netcup] set called, dnsHost='' @ quoted (dnsHost ch) @
     '' value='' @ quoted (dnsAuthorization ch)"

definition set_challenge ::
  "world \<Rightarrow> event list \<Rightarrow> NetcupOptions \<Rightarrow> challenge \<Rightarrow> (error + json) \<times> event list" where
  "set_challenge w st opts ch =
     (let st0 = st @ [Log Warn (set_called ch)]
      in case login w st0 (customerNumber opts) (apiKey opts) (apiPassword opts) of
           (Inl err, st1) \<Rightarrow>
             (Inl err, st1 @ [Log Err (login_failed_message err)])
         | (Inr apisessionid, st1) \<Rightarrow>
             (case set_body w st1 (customerNumber opts) (apiKey opts) apisessionid ch of
                (Inl e, st2) \<Rightarrow> (Inl e, logout w st2 (customerNumber opts) (apiKey opts) apisessionid)
              | (Inr u, st2) \<Rightarrow>
                  set_wait w (logout w st2 (customerNumber opts) (apiKey opts) apisessionid) (dnsHost ch)))"

text \<open>
  The handler's \<open>get(data)\<close>: one lookup on the public resolvers;
  \<open>results.flat().includes(dnsAuthorization)\<close> decides between
  \<open>{dnsAuthorization}\<close> and \<open>null\<close>, and a lookup that throws gives \<open>null\<close>.
\<close>

definition show_bool :: "bool \<Rightarrow> string" where
  "show_bool b = (if b then ''true'' else ''false'')"

definition get_called :: "challenge \<Rightarrow> string" where
  "get_called ch = ''[acme-dns-01-netcup] get: checking dnsHost='' @ quoted (dnsHost ch)"

definition get_found_message :: "bool \<Rightarrow> string" where
  "get_found_message found = ''[acme-dns-01-netcup] get: found='' @ show_bool found"

definition get_failed_message :: "dns_error \<Rightarrow> string" where
  "get_failed_message err = ''[acme-dns-01-netcup] get: DNS lookup failed: '' @ dns_error_text err"

definition get_challenge ::
  "world \<Rightarrow> event list \<Rightarrow> challenge \<Rightarrow> (error + json) \<times> event list" where
  "get_challenge w st ch =
     (let st1 = st @ [Log Warn (get_called ch), ResolveTxt publicResolver (dnsHost ch)]
      in case resolveTxt w st1 of
           Inr results \<Rightarrow>
             (let found = (dnsAuthorization ch \<in> set (concat results))
              in (Inr (if found then JObj [(''dnsAuthorization'', JStr (dnsAuthorization ch))] else JNull),
                  st1 @ [Log Warn (get_found_message found)]))
         | Inl err \<Rightarrow> (Inr JNull, st1 @ [Log Warn (get_failed_message err)]))"

text \<open>
  \<open>recordsData?.dnsrecords ?? []\<close>, and the callback of \<open>records.filter\<close>, which throws
  on an element that is \<open>null\<close>.
\<close>

definition records_of :: "json \<Rightarrow> json" where
  "records_of recordsData =
     (if recordsData = JNull \<or> recordsData = JUndefined then JArr []
      else (case getprop recordsData ''dnsrecords'' of
              Inl e \<Rightarrow> JArr []
            | Inr v \<Rightarrow> if v = JNull \<or> v = JUndefined then JArr [] else v))"

definition record_matches :: "json \<Rightarrow> string \<Rightarrow> string \<Rightarrow> error + bool" where
  "record_matches r hostname destination =
     (case getprop r ''type'' of
        Inl e \<Rightarrow> Inl e
      | Inr t \<Rightarrow>
          if t \<noteq> JStr ''TXT'' then Inr False
          else (case getprop r ''hostname'' of
                  Inl e \<Rightarrow> Inl e
                | Inr h \<Rightarrow>
                    if h \<noteq> JStr hostname then Inr False
                    else (case getprop r ''destination'' of
                            Inl e \<Rightarrow> Inl e
                          | Inr d \<Rightarrow> Inr (d = JStr destination))))"

fun filter_records :: "json list \<Rightarrow> string \<Rightarrow> string \<Rightarrow> error + json list" where
  "filter_records [] hostname destination = Inr []"
| "filter_records (r # rs) hostname destination =
     (case record_matches r hostname destination of
        Inl e \<Rightarrow> Inl e
      | Inr b \<Rightarrow>
          (case filter_records rs hostname destination of
             Inl e \<Rightarrow> Inl e
           | Inr rs' \<Rightarrow> Inr (if b then r # rs' else rs')))"

text \<open>
  \<open>{ ...r, deleterecord: true }\<close>.  Only objects pass the filter (nothing else has a
  \<open>type\<close> equal to \<open>'TXT'\<close>), so that the second equation is never used by \<open>remove\<close>.
\<close>

fun mark_deleted :: "json \<Rightarrow> json" where
  "mark_deleted (JObj kvs) = JObj (assign kvs ''deleterecord'' (JBool True))"
| "mark_deleted v = JObj [(''deleterecord'', JBool True)]"

text \<open>The block that \<open>remove\<close> protects with \<open>try ... finally\<close>.\<close>

definition remove_body ::
  "world \<Rightarrow> event list \<Rightarrow> string \<Rightarrow> string \<Rightarrow> json \<Rightarrow> challenge \<Rightarrow> (error + json) \<times> event list" where
  "remove_body w st cn key sid ch =
     (case findZone w st (dnsHost ch) cn key sid of
        (Inl e, st1) \<Rightarrow> (Inl e, st1)
      | (Inr (rootDomain, hostname), st1) \<Rightarrow>
          (case apiCall w st1 ''infoDnsRecords'' (zone_param cn key sid rootDomain) False of
             (Inl e, st2) \<Rightarrow> (Inl e, st2)
           | (Inr recordsData, st2) \<Rightarrow>
               (case records_of recordsData of
                  JArr records \<Rightarrow>
                    (case filter_records records hostname (dnsAuthorization ch) of
                       Inl e \<Rightarrow> (Inl e, st2)
                     | Inr matched \<Rightarrow>
                         (let toDelete = map mark_deleted matched in
                          if length toDelete = 0 then (Inr JNull, st2)
                          else (case apiCall w st2 ''updateDnsRecords''
                                       (update_param cn key sid rootDomain toDelete) True of
                                  (Inl e, st3) \<Rightarrow> (Inl e, st3)
                                | (Inr r, st3) \<Rightarrow> (Inr JNull, st3))))
                | other \<Rightarrow> (Inl (TypeError ''records.filter is not a function''), st2))))"

text \<open>
  The handler's \<open>remove(data)\<close>: login outside the \<open>try\<close>, the protected block, logout
  in the \<open>finally\<close>.
\<close>

definition remove_called :: "challenge \<Rightarrow> string" where
  "remove_called ch = ''[acme-dns-01-netcup] remove: dnsHost='' @ quoted (dnsHost ch)"

definition remove_challenge ::
  "world \<Rightarrow> event list \<Rightarrow> NetcupOptions \<Rightarrow> challenge \<Rightarrow> (error + json) \<times> event list" where
  "remove_challenge w st opts ch =
     (let st0 = st @ [Log Warn (remove_called ch)]
      in case login w st0 (customerNumber opts) (apiKey opts) (apiPassword opts) of
           (Inl err, st1) \<Rightarrow> (Inl err, st1)
         | (Inr apisessionid, st1) \<Rightarrow>
             (case remove_body w st1 (customerNumber opts) (apiKey opts) apisessionid ch of
                (r, st2) \<Rightarrow> (r, logout w st2 (customerNumber opts) (apiKey opts) apisessionid)))"

section \<open>The polling loop of the compiled handler (build/lib/acme-dns-01-netcup.js)\<close>

text \<open>
  The compiled handler polls the authoritative name servers of the zone in its \<open>set\<close>:
  it waits first, looks the name up on \<open>authResolver\<close>, and returns \<open>null\<close> only when
  \<open>results.flat().includes(dnsAuthorization)\<close>; a lookup that throws and a lookup without
  the value both lead to the next attempt.
\<close>

fun set_poll_authoritative ::
  "world \<Rightarrow> event list \<Rightarrow> string list \<Rightarrow> string \<Rightarrow> string \<Rightarrow> nat \<Rightarrow> nat \<Rightarrow> nat list
   \<Rightarrow> json option \<times> event list" where
  "set_poll_authoritative w st authResolver host authorization maxAttempts retryDelayMs [] = (None, st)"
| "set_poll_authoritative w st authResolver host authorization maxAttempts retryDelayMs (attempt # rest) =
     (let st1 = st @ [Sleep retryDelayMs, ResolveTxt authResolver host] in
      case resolveTxt w st1 of
        Inr results \<Rightarrow>
          (let found = (authorization \<in> set (concat results));
               st2 = st1 @ [Log Debug (''[acme-dns-01-netcup] set: TXT lookup attempt '' @
                                       attempt_of attempt maxAttempts @ '': found='' @ show_bool found)]
           in if found then
                (Some JNull,
                 st2 @ [Log Warn (''[acme-dns-01-netcup] set: TXT record confirmed on authoritative NS after attempt '' @
                                  attempt_of attempt maxAttempts)])
              else set_poll_authoritative w st2 authResolver host authorization maxAttempts retryDelayMs rest)
      | Inl err \<Rightarrow>
          set_poll_authoritative w
            (st1 @ [Log Debug (''[acme-dns-01-netcup] set: TXT lookup attempt '' @
                               attempt_of attempt maxAttempts @ '': '' @ dns_error_text err)])
            authResolver host authorization maxAttempts retryDelayMs rest)"

section \<open>The first version of the API client (src/lib/acme-dns-01-netcup.ts)\<close>

text \<open>
  The repository also keeps the first version of the handler.  Its \<open>apiCall(action, param)\<close>
  has no \<open>throwOnError\<close> and accepts the status code 2000 only.
\<close>

definition apiCall_legacy ::
  "world \<Rightarrow> event list \<Rightarrow> string \<Rightarrow> json \<Rightarrow> (error + json) \<times> event list" where
  "apiCall_legacy w st action param =
     (let st' = st @ [Fetch action param] in
      case fetch w st' of
        HttpNotOk status statusText \<Rightarrow>
          (Inl (Error (''Netcup HTTP error: '' @ show_nat status @ '' '' @ statusText)), st')
      | NonJson rawText \<Rightarrow>
          (Inl (Error (''Netcup API returned non-JSON response: '' @ take 200 rawText)), st')
      | Json j \<Rightarrow>
          if statuscode j \<noteq> 2000 then
            (Inl (Error (''Netcup API error ['' @ show_int (statuscode j) @ '']: '' @ api_message j)), st')
          else (Inr (responsedata j), st'))"

section \<open>Reading the trace\<close>

text \<open>The API requests of a trace, in order, each as \<open>(action, param)\<close>.\<close>

fun fetches :: "event list \<Rightarrow> (string \<times> json) list" where
  "fetches [] = []"
| "fetches (Fetch action param # es) = (action, param) # fetches es"
| "fetches (e # es) = fetches es"

text \<open>The lookups of a trace, in order, each as \<open>(servers, host)\<close>.\<close>

fun lookups :: "event list \<Rightarrow> (string list \<times> string) list" where
  "lookups [] = []"
| "lookups (ResolveTxt servers host # es) = (servers, host) # lookups es"
| "lookups (e # es) = lookups es"

text \<open>A history whose last event is a logout request.\<close>

definition logout_call :: "event list \<Rightarrow> bool" where
  "logout_call h \<longleftrightarrow>
     h \<noteq> [] \<and> (case last h of Fetch action param \<Rightarrow> action = ''logout'' | e \<Rightarrow> False)"

text \<open>
  The probe of \<open>findZone\<close> for the candidate at \<open>i\<close>, and what \<open>apiCall\<close> makes of the
  answer to it when the probes for \<open>a, ..., i - 1\<close> went out before it from state \<open>st\<close>.
  A probe is rejected when it returned and the zone test failed on what it returned.
\<close>

definition probe :: "string \<Rightarrow> string \<Rightarrow> json \<Rightarrow> string list \<Rightarrow> nat \<Rightarrow> event" where
  "probe cn key sid parts i =
     Fetch ''infoDnsZone'' (zone_param cn key sid (join ''.'' (drop i parts)))"

definition probe_result ::
  "world \<Rightarrow> event list \<Rightarrow> string \<Rightarrow> string \<Rightarrow> json \<Rightarrow> string list \<Rightarrow> nat \<Rightarrow> nat \<Rightarrow> error + json" where
  "probe_result w st cn key sid parts a i =
     fst (apiCall w (st @ map (probe cn key sid parts) [a..<i]) ''infoDnsZone''
            (zone_param cn key sid (join ''.'' (drop i parts))) False)"

definition rejected :: "error + json \<Rightarrow> bool" where
  "rejected r = (case r of Inl e \<Rightarrow> False | Inr v \<Rightarrow> \<not> zone_accepted v)"

section \<open>Logging the configuration (main.ts)\<close>

text \<open>
  \<open>/api|key|secret|password|token/i.test(key)\<close>: the key holds one of the five words,
  letters compared without regard to case.  Without the \<open>u\<close> flag only the letters A to Z
  fold onto a to z.
\<close>

definition lower_char :: "char \<Rightarrow> char" where
  "lower_char c =
     (if CHR ''A'' \<le> c \<and> c \<le> CHR ''Z'' then char_of (of_char c + (32 :: nat)) else c)"

definition sensitive_key :: "string \<Rightarrow> bool" where
  "sensitive_key key =
     (let k = map lower_char key
      in includes_str k ''api'' \<or> includes_str k ''key'' \<or> includes_str k ''secret'' \<or>
         includes_str k ''password'' \<or> includes_str k ''token'')"

text \<open>
  The loop over \<open>Object.keys(safeConfig)\<close>: a value is replaced by \<open>'***'\<close> when its key
  is sensitive and it is a string that is not empty.  An object is the list of its
  entries, in key order.
\<close>

definition mask_value :: "string \<Rightarrow> json \<Rightarrow> json" where
  "mask_value key v =
     (if sensitive_key key \<and> typeof v = ''string'' \<and> (case v of JStr s \<Rightarrow> length s > 0 | other \<Rightarrow> False)
      then JStr ''***'' else v)"

definition safe_copy :: "(string \<times> json) list \<Rightarrow> (string \<times> json) list" where
  "safe_copy config = map (\<lambda>(key, v). (key, mask_value key v)) config"

text \<open>
  \<open>initChallenges\<close> collects the options of the DNS-01 module from the configuration
  (\<open>dns01Options[key.slice(6)] = value\<close> for every key that starts with \<open>dns01O\<close>), the
  properties to set on the handler (every other key that starts with \<open>dns01P\<close>), and sets
  the base URL for one module.
\<close>

definition dns01Options :: "(string \<times> json) list \<Rightarrow> (string \<times> json) list" where
  "dns01Options config =
     (let dns01Options = [(drop 6 key, v). (key, v) \<leftarrow> config, startsWith key ''dns01O'']
      in if lookup_last config ''dns01Module'' = JStr ''acme-dns-01-namecheap''
         then assign dns01Options ''baseUrl'' (JStr ''https://api.namecheap.com/xml.response'')
         else dns01Options)"

definition dns01Props :: "(string \<times> json) list \<Rightarrow> (string \<times> json) list" where
  "dns01Props config =
     [(drop 6 key, v). (key, v) \<leftarrow> config, \<not> startsWith key ''dns01O'' \<and> startsWith key ''dns01P'']"

section \<open>Reading the log\<close>

text \<open>The log lines of a trace, in order.\<close>

fun logs :: "event list \<Rightarrow> (level \<times> string) list" where
  "logs [] = []"
| "logs (Log l m # es) = (l, m) # logs es"
| "logs (e # es) = logs es"

text \<open>A rendering of JSON values without escapes, to show log lines in the examples.\<close>

fun show_json :: "json \<Rightarrow> string" where
  "show_json JUndefined = ''undefined''"
| "show_json JNull = ''null''"
| "show_json (JBool b) = show_bool b"
| "show_json (JNum n) = show_int n"
| "show_json (JStr s) = quoted s"
| "show_json (JArr xs) = ''['' @ join '','' (map show_json xs) @ '']''"
| "show_json (JObj kvs) =
     ''{'' @ join '','' (map (\<lambda>kv. quoted (fst kv) @ '':'' @ show_json (snd kv)) kvs) @ ''}''"

section \<open>The adapter (main.ts)\<close>

subsection \<open>JavaScript values\<close>

text \<open>\<open>String(v)\<close>, which is also what a template literal makes of \<open>v\<close>.\<close>

fun to_text :: "json \<Rightarrow> string" where
  "to_text JUndefined = ''undefined''"
| "to_text JNull = ''null''"
| "to_text (JBool b) = show_bool b"
| "to_text (JNum n) = show_int n"
| "to_text (JStr s) = s"
| "to_text (JArr xs) =
     join '','' (map (\<lambda>x. if x = JNull \<or> x = JUndefined then [] else to_text x) xs)"
| "to_text (JObj kvs) = ''[object Object]''"

text \<open>\<open>v?.k\<close>: \<open>undefined\<close> where \<open>v.k\<close> would throw.\<close>

definition opt :: "json \<Rightarrow> string \<Rightarrow> json" where
  "opt v k = (case getprop v k of Inl e \<Rightarrow> JUndefined | Inr x \<Rightarrow> x)"

text \<open>
  \<open>a === b\<close>: two primitive values are compared by value; an object or an array is only
  equal to itself, and the two sides of the comparisons below never are one and the same
  object.
\<close>

fun primitive :: "json \<Rightarrow> bool" where
  "primitive (JArr xs) = False"
| "primitive (JObj kvs) = False"
| "primitive v = True"

definition strict_eq :: "json \<Rightarrow> json \<Rightarrow> bool" where
  "strict_eq a b \<longleftrightarrow> a = b \<and> primitive a"

text \<open>
  \<open>Number(v)\<close>, \<open>None\<close> being NaN.  Numbers are integers in this model: a numeral with a
  fraction, an exponent or a radix prefix is not read.
\<close>

definition digit_of :: "char \<Rightarrow> nat option" where
  "digit_of c =
     (if CHR ''0'' \<le> c \<and> c \<le> CHR ''9'' then Some (of_char c - of_char CHR ''0'') else None)"

fun digits_value :: "nat \<Rightarrow> string \<Rightarrow> nat option" where
  "digits_value acc [] = Some acc"
| "digits_value acc (c # cs) =
     (case digit_of c of None \<Rightarrow> None | Some d \<Rightarrow> digits_value (10 * acc + d) cs)"

definition number_of_text :: "string \<Rightarrow> int option" where
  "number_of_text s =
     (let t = trim s in
      if t = [] then Some 0
      else if hd t = CHR ''-'' \<and> tl t \<noteq> [] then map_option (\<lambda>n. - int n) (digits_value 0 (tl t))
      else if hd t = CHR ''+'' \<and> tl t \<noteq> [] then map_option int (digits_value 0 (tl t))
      else map_option int (digits_value 0 t))"

fun to_number :: "json \<Rightarrow> int option" where
  "to_number JUndefined = None"
| "to_number JNull = Some 0"
| "to_number (JBool b) = Some (if b then 1 else 0)"
| "to_number (JNum n) = Some n"
| "to_number (JStr s) = number_of_text s"
| "to_number (JArr xs) = number_of_text (to_text (JArr xs))"
| "to_number (JObj kvs) = None"

text \<open>
  \<open>a == b\<close>: \<open>null\<close> and \<open>undefined\<close> are equal to each other and to nothing else, values
  of one primitive type are compared by value, two objects are different, an object
  against a primitive is compared as its text, and every other pair as numbers.
\<close>

definition nullish :: "json \<Rightarrow> bool" where
  "nullish v \<longleftrightarrow> v = JNull \<or> v = JUndefined"

fun loose_eq :: "json \<Rightarrow> json \<Rightarrow> bool" where
  "loose_eq (JNum a) (JNum b) = (a = b)"
| "loose_eq (JStr a) (JStr b) = (a = b)"
| "loose_eq (JBool a) (JBool b) = (a = b)"
| "loose_eq a b =
     (if nullish a \<or> nullish b then nullish a \<and> nullish b
      else if \<not> primitive a \<and> \<not> primitive b then False
      else if \<not> primitive a then (case b of JStr t \<Rightarrow> to_text a = t
                                     | other \<Rightarrow> to_number (JStr (to_text a)) \<noteq> None \<and>
                                               to_number (JStr (to_text a)) = to_number b)
      else if \<not> primitive b then (case a of JStr t \<Rightarrow> to_text b = t
                                     | other \<Rightarrow> to_number (JStr (to_text b)) \<noteq> None \<and>
                                               to_number (JStr (to_text b)) = to_number a)
      else to_number a \<noteq> None \<and> to_number a = to_number b)"

text \<open>
  \<open>a < b\<close>: two strings are compared as strings, every other pair as numbers, and a
  comparison with NaN is false.  \<open>a > b\<close> is \<open>b < a\<close>.
\<close>

definition js_lt :: "json \<Rightarrow> json \<Rightarrow> bool" where
  "js_lt a b =
     (case (a, b) of
        (JStr x, JStr y) \<Rightarrow> x < y
      | other \<Rightarrow> (case (to_number a, to_number b) of
                    (Some x, Some y) \<Rightarrow> x < y
                  | none \<Rightarrow> False))"

text \<open>\<open>a - n\<close> for a number \<open>n\<close>; \<open>undefined\<close> stands for NaN.\<close>

definition js_minus :: "json \<Rightarrow> int \<Rightarrow> json" where
  "js_minus a n = (case to_number a of Some x \<Rightarrow> JNum (x - n) | None \<Rightarrow> JUndefined)"

text \<open>\<open>v?.length\<close>.\<close>

fun js_length :: "json \<Rightarrow> json" where
  "js_length (JStr s) = JNum (int (length s))"
| "js_length (JArr xs) = JNum (int (length xs))"
| "js_length (JObj kvs) = lookup_last kvs ''length''"
| "js_length v = JUndefined"

text \<open>
  The values that \<open>for (const x of v)\<close> runs through, and the error it throws on a value
  that cannot be iterated; \<open>what\<close> is the text of the expression.
\<close>

fun iterate :: "string \<Rightarrow> json \<Rightarrow> error + json list" where
  "iterate what (JArr xs) = Inr xs"
| "iterate what (JStr s) = Inr (map (\<lambda>c. JStr [c]) s)"
| "iterate what v = Inl (TypeError (what @ '' is not iterable''))"

text \<open>The elements of the receiver of an array method such as \<open>v.map(f)\<close>.\<close>

fun elements :: "string \<Rightarrow> json \<Rightarrow> error + json list" where
  "elements what (JArr xs) = Inr xs"
| "elements what JUndefined =
     Inl (TypeError (''Cannot read properties of undefined (reading '' @ [CHR 0x27] @ what @ [CHR 0x27] @ '')''))"
| "elements what JNull =
     Inl (TypeError (''Cannot read properties of null (reading '' @ [CHR 0x27] @ what @ [CHR 0x27] @ '')''))"
| "elements what v = Inl (TypeError (what @ '' is not a function''))"

text \<open>
  \<open>Object.entries(v)\<close> and \<open>Object.keys(v)\<close> for a value that is not \<open>null\<close> or
  \<open>undefined\<close>: an object is the list of its entries, an array and a string have their
  indices as keys.
\<close>

fun entries_of :: "json \<Rightarrow> (string \<times> json) list" where
  "entries_of (JObj kvs) = kvs"
| "entries_of (JArr xs) = zip (map show_nat [0..<length xs]) xs"
| "entries_of (JStr s) = zip (map show_nat [0..<length s]) (map (\<lambda>c. JStr [c]) s)"
| "entries_of v = []"

text \<open>
  \<open>obj[k] = v\<close> in strict mode: a property is set on an object, not kept by a primitive
  value (a TypeError), and an array keeps it beside its elements.
\<close>

definition apostrophes :: "string \<Rightarrow> string" where
  "apostrophes s = [CHR 0x27] @ s @ [CHR 0x27]"

fun assign_prop :: "json \<Rightarrow> string \<Rightarrow> json \<Rightarrow> error + json" where
  "assign_prop (JObj kvs) k v = Inr (JObj (assign kvs k v))"
| "assign_prop (JArr xs) k v = Inr (JArr xs)"
| "assign_prop JUndefined k v =
     Inl (TypeError (''Cannot set properties of undefined (setting '' @ apostrophes k @ '')''))"
| "assign_prop JNull k v =
     Inl (TypeError (''Cannot set properties of null (setting '' @ apostrophes k @ '')''))"
| "assign_prop x k v =
     Inl (TypeError (''Cannot create property '' @ apostrophes k @ '' on '' @ typeof x @ '' '' @
                     apostrophes (to_text x)))"

fun assign_props :: "json \<Rightarrow> (string \<times> json) list \<Rightarrow> error + json" where
  "assign_props obj [] = Inr obj"
| "assign_props obj ((k, v) # kvs) =
     (case assign_prop obj k v of Inl e \<Rightarrow> Inl e | Inr obj' \<Rightarrow> assign_props obj' kvs)"

text \<open>
  The receiver of a string method such as \<open>v.split(',')\<close>: a string, or else the
  TypeError of the call; \<open>what\<close> is the text of the expression and \<open>method\<close> the name of
  the method.
\<close>

fun string_receiver :: "string \<Rightarrow> string \<Rightarrow> json \<Rightarrow> error + string" where
  "string_receiver what method (JStr s) = Inr s"
| "string_receiver what method JUndefined =
     Inl (TypeError (''Cannot read properties of undefined (reading '' @ apostrophes method @ '')''))"
| "string_receiver what method JNull =
     Inl (TypeError (''Cannot read properties of null (reading '' @ apostrophes method @ '')''))"
| "string_receiver what method v = Inl (TypeError (what @ ''.'' @ method @ '' is not a function''))"

text \<open>\<open>v.toString()\<close>.\<close>

fun to_string :: "json \<Rightarrow> error + string" where
  "to_string JUndefined =
     Inl (TypeError (''Cannot read properties of undefined (reading '' @ apostrophes ''toString'' @ '')''))"
| "to_string JNull =
     Inl (TypeError (''Cannot read properties of null (reading '' @ apostrophes ''toString'' @ '')''))"
| "to_string v = Inr (to_text v)"

text \<open>The argument of \<open>_arraysMatch\<close> that comes from the decoded certificate.  An array
  that holds a value that is not a string never matches a list of strings of its length,
  no more than a value that is not an array.\<close>

fun string_array :: "json \<Rightarrow> string list option" where
  "string_array (JArr xs) =
     (if list_all (\<lambda>x. typeof x = ''string'') xs then Some (map to_text xs) else None)"
| "string_array v = None"

subsection \<open>The adapter and what is outside of it\<close>

text \<open>
  The adapter calls the ACME client, the key and certificate libraries, the certificate
  store, the object database of the host and the clock.  Such a call is the event
  \<open>Ask name args\<close>, \<open>name\<close> being the text of the call in the source, and it ends with a
  value or with a thrown error.  As for the handler, the answer is a function of the
  events so far, the call being the last of them.  The lookups of TXT records and
  \<open>JSON.stringify\<close> are those of the handler's world.
\<close>

datatype answer = Threw error | Gave json

record outside = world +
  ask :: "event list \<Rightarrow> answer"

text \<open>
  The fields of the adapter object (\<open>this.config\<close>, \<open>this.namespace\<close>, \<open>this.host\<close>,
  \<open>this.account\<close>, \<open>this.challenges\<close>, \<open>this.toShutdown\<close>, \<open>this.donePortCheck\<close>,
  \<open>this.certManager\<close>, \<open>this.acme\<close>, \<open>this.stoppedAdapters\<close>), the name and version of
  the package (\<open>pkg.name\<close>, \<open>pkg.version\<close>), and the events so far.  A challenge handler,
  the ACME client and the certificate manager are objects with methods; they stand here
  as the data properties they carry.  \<open>this.certManager\<close> is whether it has been created;
  \<open>this.stoppedAdapters\<close> is \<open>None\<close> when it is \<open>null\<close> or \<open>undefined\<close>.
\<close>

record adapter =
  this_config :: "(string \<times> json) list"
  this_namespace :: string
  this_host :: string
  this_account :: json
  this_challenges :: "(string \<times> json) list"
  this_toShutdown :: "json list"
  this_donePortCheck :: bool
  this_certManager :: bool
  this_acme :: json
  this_stoppedAdapters :: "json list option"
  pkg_name :: string
  pkg_version :: string
  events :: "event list"

text \<open>The adapter as its constructor leaves it.\<close>

definition constructed ::
  "(string \<times> json) list \<Rightarrow> string \<Rightarrow> string \<Rightarrow> string \<Rightarrow> string \<Rightarrow> adapter" where
  "constructed config namespace host name version =
     \<lparr>this_config = config, this_namespace = namespace, this_host = host,
      this_account = JObj [(''full'', JNull), (''key'', JNull)],
      this_challenges = [], this_toShutdown = [], this_donePortCheck = False,
      this_certManager = False, this_acme = JNull, this_stoppedAdapters = None,
      pkg_name = name, pkg_version = version, events = []\<rparr>"

text \<open>
  A method of the adapter takes what is outside and the adapter, and gives a thrown error
  or a returned value, and the adapter as it is then.
\<close>

type_synonym 'a prog = "outside \<Rightarrow> adapter \<Rightarrow> (error + 'a) \<times> adapter"

definition ret :: "'a \<Rightarrow> 'a prog" where
  "ret x = (\<lambda>out a. (Inr x, a))"

definition throw :: "error \<Rightarrow> 'a prog" where
  "throw e = (\<lambda>out a. (Inl e, a))"

text \<open>One statement after another: an error thrown by the first skips the second.\<close>

definition bnd :: "'a prog \<Rightarrow> ('a \<Rightarrow> 'b prog) \<Rightarrow> 'b prog" where
  "bnd m f = (\<lambda>out a. case m out a of (Inl e, a') \<Rightarrow> (Inl e, a') | (Inr x, a') \<Rightarrow> f x out a')"

definition seq :: "'a prog \<Rightarrow> 'b prog \<Rightarrow> 'b prog" where
  "seq m n = bnd m (\<lambda>x. n)"

text \<open>\<open>try { m } catch (err) { h(err) }\<close>.\<close>

definition catch :: "'a prog \<Rightarrow> (error \<Rightarrow> 'a prog) \<Rightarrow> 'a prog" where
  "catch m h = (\<lambda>out a. case m out a of (Inl e, a') \<Rightarrow> h e out a' | (Inr x, a') \<Rightarrow> (Inr x, a'))"

text \<open>\<open>try { m } finally { n }\<close>.\<close>

definition finally_do :: "'a prog \<Rightarrow> unit prog \<Rightarrow> 'a prog" where
  "finally_do m n =
     (\<lambda>out a. case m out a of
                 (r, a') \<Rightarrow> (case n out a' of (Inl e, a'') \<Rightarrow> (Inl e, a'') | (Inr u, a'') \<Rightarrow> (r, a'')))"

text \<open>A pure step that may throw.\<close>

definition lift :: "error + 'a \<Rightarrow> 'a prog" where
  "lift r = (\<lambda>out a. (r, a))"

definition gets :: "(adapter \<Rightarrow> 'a) \<Rightarrow> 'a prog" where
  "gets f = (\<lambda>out a. (Inr (f a), a))"

definition modify :: "(adapter \<Rightarrow> adapter) \<Rightarrow> unit prog" where
  "modify g = (\<lambda>out a. (Inr (), g a))"

text \<open>\<open>this.log.debug(m)\<close>, \<open>this.log.info(m)\<close>, \<open>this.log.warn(m)\<close>, \<open>this.log.error(m)\<close>.\<close>

definition log_at :: "level \<Rightarrow> string \<Rightarrow> unit prog" where
  "log_at l m = modify (\<lambda>a. a\<lparr>events := events a @ [Log l m]\<rparr>)"

text \<open>A call to the outside.\<close>

definition call :: "string \<Rightarrow> json list \<Rightarrow> json prog" where
  "call name args =
     (\<lambda>out a. let a' = a\<lparr>events := events a @ [Ask name args]\<rparr>
               in case ask out (events a') of
                    Threw e \<Rightarrow> (Inl e, a')
                  | Gave v \<Rightarrow> (Inr v, a'))"

text \<open>\<open>resolver.resolveTxt(host)\<close> inside a \<open>try\<close>: the records or the error.\<close>

definition lookupTxt :: "string list \<Rightarrow> string \<Rightarrow> (dns_error + string list list) prog" where
  "lookupTxt servers name =
     (\<lambda>out a. let a' = a\<lparr>events := events a @ [ResolveTxt servers name]\<rparr>
               in (Inr (resolveTxt out (events a')), a'))"

text \<open>\<open>await new Promise(r => setTimeout(r, ms))\<close>.\<close>

definition sleep :: "nat \<Rightarrow> unit prog" where
  "sleep ms = modify (\<lambda>a. a\<lparr>events := events a @ [Sleep ms]\<rparr>)"

text \<open>\<open>JSON.stringify(v)\<close> inside a template literal.\<close>

definition stringified :: "json \<Rightarrow> string prog" where
  "stringified v = (\<lambda>out a. (Inr (stringify out v), a))"

text \<open>\<open>this.config.k\<close>.\<close>

definition cfg :: "string \<Rightarrow> json prog" where
  "cfg k = gets (\<lambda>a. lookup_last (this_config a) k)"

text \<open>\<open>this.terminate(reason)\<close>, a method of the host.\<close>

definition terminate :: "string \<Rightarrow> unit prog" where
  "terminate reason = seq (call ''this.terminate'' [JStr reason]) (ret ())"

text \<open>\<open>for (const x of xs) { body(x) }\<close>.\<close>

fun for_each :: "'a list \<Rightarrow> ('a \<Rightarrow> unit prog) \<Rightarrow> unit prog" where
  "for_each [] body = ret ()"
| "for_each (x # xs) body = seq (body x) (for_each xs body)"

text \<open>\<open>xs.filter(p)\<close> with a callback that may throw.\<close>

fun filter_with :: "('a \<Rightarrow> bool prog) \<Rightarrow> 'a list \<Rightarrow> 'a list prog" where
  "filter_with p [] = ret []"
| "filter_with p (x # xs) =
     bnd (p x) (\<lambda>keep. bnd (filter_with p xs) (\<lambda>rest. ret (if keep then x # rest else rest)))"

text \<open>\<open>xs.map(f)\<close> with a callback that may throw.\<close>

fun map_with :: "('a \<Rightarrow> 'b prog) \<Rightarrow> 'a list \<Rightarrow> 'b list prog" where
  "map_with f [] = ret []"
| "map_with f (x # xs) = bnd (f x) (\<lambda>y. bnd (map_with f xs) (\<lambda>ys. ret (y # ys)))"

definition dash :: string where
  "dash = [CHR 0xE2, CHR 0x80, CHR 0x94]"

subsection \<open>\<open>restoreAdaptersOnSamePort\<close> and \<open>stopAdaptersOnSamePort\<close>\<close>

text \<open>
  The body of the two loops over \<open>this.stoppedAdapters\<close>: the instance object is read,
  and when there is one, the line is logged, \<open>config.common.enabled\<close> is set and the
  object is written back.
\<close>

definition switch_adapter :: "string \<Rightarrow> bool \<Rightarrow> json \<Rightarrow> unit prog" where
  "switch_adapter verb enabled adapterId =
     bnd (call ''this.getForeignObjectAsync'' [adapterId]) (\<lambda>config.
       if truthy config then
         bnd (lift (getprop config ''_id'')) (\<lambda>config_id.
         seq (log_at Info (verb @ '' '' @ to_text config_id))
         (bnd (lift (getprop config ''common'')) (\<lambda>common.
          bnd (lift (assign_prop common ''enabled'' (JBool enabled))) (\<lambda>common'.
          bnd (lift (assign_prop config ''common'' common')) (\<lambda>config'.
          seq (call ''this.setForeignObjectAsync'' [config_id, config']) (ret ()))))))
       else ret ())"

definition restoreAdaptersOnSamePort :: "unit prog" where
  "restoreAdaptersOnSamePort =
     bnd (gets this_stoppedAdapters) (\<lambda>stoppedAdapters.
       case stoppedAdapters of
         None \<Rightarrow> log_at Debug ''No previously shutdown adapters to restart''
       | Some ids \<Rightarrow>
           seq (log_at Info ''Starting adapter(s) previously shutdown...'')
          (seq (for_each ids (switch_adapter ''Starting'' True))
               (modify (\<lambda>a. a\<lparr>this_stoppedAdapters := None, this_donePortCheck := False\<rparr>))))"

text \<open>
  The callback of \<open>instances.filter\<close>: the operands of \<open>&&\<close> and \<open>||\<close> from left to right,
  each read only when the ones before it did not decide.  \<open>bind.includes\<close> needs a
  string (\<open>bind\<close> is declared as one).
\<close>

definition same_bind :: "string \<Rightarrow> json \<Rightarrow> bool prog" where
  "same_bind instance_bind bind =
     (if JStr instance_bind = bind then ret True
      else bnd (lift (string_receiver ''bind'' ''includes'' bind)) (\<lambda>b. ret
        ((includes_str b ''.'' \<and> instance_bind = ''0.0.0.0'') \<or>
         (includes_str instance_bind ''.'' \<and> b = ''0.0.0.0'') \<or>
         (includes_str b '':'' \<and> instance_bind = ''::'') \<or>
         (includes_str instance_bind '':'' \<and> b = ''::'') \<or>
         (instance_bind = ''::'' \<and> b = ''0.0.0.0'') \<or>
         (instance_bind = ''0.0.0.0'' \<and> b = ''::''))))"

definition same_port :: "json \<Rightarrow> json \<Rightarrow> bool" where
  "same_port native port \<longleftrightarrow>
     loose_eq (opt native ''port'') port \<or>
     (truthy (opt native ''secure'') \<and> truthy (opt native ''leEnabled'') \<and>
      truthy (opt native ''leUpdate'') \<and> loose_eq (opt native ''leCheckPort'') port)"

definition conflicting :: "string \<Rightarrow> string \<Rightarrow> json \<Rightarrow> json \<Rightarrow> json \<Rightarrow> bool prog" where
  "conflicting us host bind port instance =
     (if \<not> truthy instance then ret False
      else if opt instance ''_id'' = JStr us then ret False
      else bnd (lift (getprop (opt instance ''common'') ''enabled'')) (\<lambda>enabled.
        if \<not> truthy enabled then ret False
        else if opt (opt instance ''common'') ''host'' \<noteq> JStr host then ret False
        else if \<not> truthy (opt instance ''native'') then ret False
        else (case opt (opt instance ''native'') ''bind'' of
                JStr instance_bind \<Rightarrow>
                  bnd (same_bind instance_bind bind) (\<lambda>b.
                    ret (b \<and> same_port (opt instance ''native'') port))
              | other \<Rightarrow> ret False)))"

text \<open>\<open>result.rows.map(row => row.value)\<close>.\<close>

definition rows_of :: "json \<Rightarrow> json list prog" where
  "rows_of result =
     bnd (lift (getprop result ''rows'')) (\<lambda>rows.
       case rows of
         JArr rs \<Rightarrow> map_with (\<lambda>row. lift (getprop row ''value'')) rs
       | JUndefined \<Rightarrow>
           throw (TypeError (''Cannot read properties of undefined (reading '' @ apostrophes ''map'' @ '')''))
       | JNull \<Rightarrow>
           throw (TypeError (''Cannot read properties of null (reading '' @ apostrophes ''map'' @ '')''))
       | other \<Rightarrow> throw (TypeError ''result.rows.map is not a function''))"

definition stopAdaptersOnSamePort :: "unit prog" where
  "stopAdaptersOnSamePort =
     bnd (cfg ''http01Active'') (\<lambda>http01Active.
     bnd (gets this_donePortCheck) (\<lambda>donePortCheck.
       if truthy http01Active \<and> \<not> donePortCheck then
         bnd (gets this_namespace) (\<lambda>namespace.
         bnd (gets this_host) (\<lambda>host.
         bnd (cfg ''bind'') (\<lambda>bind.
         bnd (cfg ''port'') (\<lambda>port.
         let us = ''system.adapter.'' @ namespace in
         seq (log_at Debug (''Checking for adapter other than us ('' @ us @
                '') on our host/bind/port '' @ host @ ''/'' @ to_text bind @ ''/'' @ to_text port @ ''...''))
         (bnd (call ''this.getObjectViewAsync''
                 [JStr ''system'', JStr ''instance'',
                  JObj [(''startkey'', JStr ''system.adapter.''),
                        (''endkey'', JStr (''system.adapter.'' @ [CHR 0xE9, CHR 0xA6, CHR 0x99]))]]) (\<lambda>result.
          bnd (rows_of result) (\<lambda>instances.
          bnd (filter_with (conflicting us host bind port) instances) (\<lambda>adapters.
          seq (if adapters = [] then log_at Debug ''No adapters found on same port, nothing to stop''
               else seq (log_at Info (''Stopping adapter(s) on our host/bind/port '' @ host @ ''/'' @
                                      to_text bind @ ''/'' @ to_text port @ ''...''))
                   (seq (modify (\<lambda>a. a\<lparr>this_stoppedAdapters :=
                                         Some (map (\<lambda>adapter. opt adapter ''_id'') adapters)\<rparr>))
                        (for_each (map (\<lambda>adapter. opt adapter ''_id'') adapters)
                           (switch_adapter ''Stopping'' False))))
              (modify (\<lambda>a. a\<lparr>this_donePortCheck := True\<rparr>))))))))))
       else ret ()))"

subsection \<open>\<open>generateCollection\<close>\<close>

text \<open>
  The configured collection as \<open>generateCollection\<close> reads it: \<open>commonName\<close> is the receiver
  of \<open>split\<close>, and \<open>altNames\<close>, when it is not falsy, the receiver of \<open>replace\<close>.
\<close>

definition read_collection :: "json \<Rightarrow> collection prog" where
  "read_collection c =
     bnd (lift (getprop c ''commonName'')) (\<lambda>cn.
     bnd (lift (string_receiver ''collection.commonName'' ''split'' cn)) (\<lambda>commonName.
     bnd (if truthy (opt c ''altNames'')
          then lift (string_receiver ''collection.altNames'' ''replace'' (opt c ''altNames''))
          else ret []) (\<lambda>altNames.
     ret \<lparr>collection_id = to_text (opt c ''id''), commonName = commonName,
          collection_altNames = altNames\<rparr>)))"

text \<open>\<open>new Date(ms).toISOString()\<close>, which throws a RangeError on a time out of range.\<close>

definition toISOString :: "json \<Rightarrow> string prog" where
  "toISOString ms = bnd (call ''new Date(ms).toISOString'' [ms]) (\<lambda>s. ret (to_text s))"

text \<open>
  The \<open>try\<close> block on an existing collection and its \<open>catch\<close>: the value is that of
  \<open>create\<close> after it.
\<close>

definition check_existing :: "string \<Rightarrow> collection \<Rightarrow> string list \<Rightarrow> json \<Rightarrow> bool prog" where
  "check_existing ident coll domains existingCollection =
     catch
       (bnd (lift (to_string (opt existingCollection ''cert''))) (\<lambda>pem.
        bnd (call ''x509.parseCert'' [JStr pem]) (\<lambda>crt.
        bnd (stringified crt) (\<lambda>crt_text.
        seq (log_at Debug (''Existing cert: '' @ crt_text))
       (bnd (call ''Date.now'' []) (\<lambda>now.
        bnd (lift (getprop crt ''notAfter'')) (\<lambda>notAfter.
        bnd (call ''Date.parse'' [notAfter]) (\<lambda>parsed.
        if js_lt (js_minus parsed renewWindow) now then
          seq (log_at Info (''Collection '' @ ident @ '' expiring soon (notAfter: '' @ to_text notAfter @
                            '') - will renew''))
              (ret True)
        else
          bnd (lift (getprop (opt crt ''subject'') ''commonName'')) (\<lambda>subject_cn.
          if JStr (commonName coll) \<noteq> subject_cn then
            seq (log_at Info (''Collection '' @ ident @ '' common name changed ('' @
                              quoted (to_text subject_cn) @ '' '' @ arrow @ '' '' @
                              quoted (commonName coll) @ '') - will renew''))
                (ret True)
          else if \<not> arraysMatch (Some domains) (string_array (opt crt ''altNames'')) then
            bnd (stringified (opt crt ''altNames'')) (\<lambda>alt_text.
            bnd (stringified (JArr (map JStr domains))) (\<lambda>domains_text.
            seq (log_at Info (''Collection '' @ ident @ '' alt names changed ('' @ alt_text @ '' '' @
                              arrow @ '' '' @ domains_text @ '') - will renew''))
                (ret True)))
          else
            bnd (cfg ''useStaging'') (\<lambda>useStaging.
            if \<not> strict_eq useStaging (opt existingCollection ''staging'') then
              seq (log_at Info (''Collection '' @ ident @ '' staging flags do not match - will renew''))
                  (ret True)
            else
              seq (log_at Debug (''Collection '' @ ident @ '' certificate already looks good''))
                  (ret False)))))))))))
       (\<lambda>err.
          seq (log_at Err (''Collection '' @ ident @ '' exists but looks invalid ('' @ show_error err @
                           '') - will renew''))
              (ret True))"

text \<open>The first part of \<open>generateCollection\<close>, up to \<open>if (create)\<close>.\<close>

definition decide_create :: "json \<Rightarrow> string \<Rightarrow> collection \<Rightarrow> string list \<Rightarrow> bool prog" where
  "decide_create c ident coll domains =
     bnd (gets this_certManager) (\<lambda>certManager.
     bnd (if certManager then call ''this.certManager.getCollection'' [opt c ''id''] else ret JUndefined)
       (\<lambda>existingCollection.
       if \<not> truthy existingCollection then
         seq (log_at Info (''Collection '' @ ident @ '' does not exist - will create'')) (ret True)
       else
         bnd (stringified (opt existingCollection ''domains'')) (\<lambda>domains_text.
         bnd (if truthy (opt existingCollection ''tsExpires'')
              then toISOString (opt existingCollection ''tsExpires'') else ret ''unknown'') (\<lambda>expires.
         seq (log_at Debug (''Existing collection '' @ quoted ident @ '': domains='' @ domains_text @
                            '', staging='' @ to_text (opt existingCollection ''staging'') @
                            '', expires='' @ expires))
             (check_existing ident coll domains existingCollection)))))"

text \<open>
  The new certificate is decoded to read its expiry; the value is \<open>collectionToSet\<close>,
  \<open>null\<close> when the certificate cannot be decoded.
\<close>

definition collection_to_set :: "string \<Rightarrow> string list \<Rightarrow> json \<Rightarrow> json \<Rightarrow> json prog" where
  "collection_to_set ident domains serverPem pems =
     bnd (gets this_namespace) (\<lambda>namespace.
     bnd (cfg ''useStaging'') (\<lambda>useStaging.
     let collectionToSet =
           [(''from'', JStr namespace), (''key'', serverPem), (''cert'', opt pems ''cert''),
            (''chain'', JArr [opt pems ''cert'', opt pems ''chain'']),
            (''domains'', JArr (map JStr domains)), (''staging'', useStaging),
            (''tsExpires'', JNum 0)]
     in catch
          (bnd (lift (to_string (opt pems ''cert''))) (\<lambda>pem.
           bnd (call ''x509.parseCert'' [JStr pem]) (\<lambda>crt.
           bnd (lift (getprop crt ''notBefore'')) (\<lambda>notBefore.
           bnd (lift (getprop crt ''notAfter'')) (\<lambda>notAfter.
           seq (log_at Debug (''New certs notBefore '' @ to_text notBefore @ '' notAfter '' @
                              to_text notAfter))
          (bnd (call ''Date.parse'' [notAfter]) (\<lambda>tsExpires.
           ret (JObj (assign collectionToSet ''tsExpires'' tsExpires)))))))))
          (\<lambda>err.
             seq (log_at Err (''Certificate returned for '' @ ident @ '' looks invalid - not saving''))
                 (ret JNull))))"

text \<open>
  The block under \<open>if (create)\<close>.  While \<open>this.acme.certificates.create\<close> runs, the
  ACME client calls \<open>acmeNotify\<close> and \<open>pollDns01Challenge\<close> of the adapter and \<open>set\<close>,
  \<open>get\<close> and \<open>remove\<close> of the handler; each of them is an operation of its own, which
  starts from the events so far and adds to them.
\<close>

definition order_certificate :: "json \<Rightarrow> string \<Rightarrow> string list \<Rightarrow> unit prog" where
  "order_certificate c ident domains =
     seq stopAdaptersOnSamePort
    (bnd (call ''Keypairs.generate'' [JObj [(''kty'', JStr ''RSA''), (''format'', JStr ''jwk'')]]) (\<lambda>serverKeypair.
     bnd (lift (getprop serverKeypair ''private'')) (\<lambda>private.
     bnd (call ''Keypairs.export'' [JObj [(''jwk'', private)]]) (\<lambda>serverPem.
     bnd (call ''Keypairs.import'' [JObj [(''pem'', serverPem)]]) (\<lambda>serverKey.
     bnd (call ''CSR.csr'' [JObj [(''jwk'', serverKey), (''domains'', JArr (map JStr domains)),
                                  (''encoding'', JStr ''der'')]]) (\<lambda>csrDer.
     bnd (call ''PEM.packBlock'' [JObj [(''type'', JStr ''CERTIFICATE REQUEST''), (''bytes'', csrDer)]]) (\<lambda>csr.
     bnd (gets this_acme) (\<lambda>acme.
     bnd (gets this_account) (\<lambda>account.
     if \<not> truthy acme \<or> \<not> truthy (opt account ''full'') \<or> \<not> truthy (opt account ''key'') then
       log_at Err ''ACME client not initialized''
     else
       bnd (gets this_challenges) (\<lambda>challenges.
       bnd (catch
              (call ''this.acme.certificates.create''
                 [JObj [(''account'', opt account ''full''), (''accountKey'', opt account ''key''),
                        (''csr'', csr), (''domains'', JArr (map JStr domains)),
                        (''challenges'', JObj challenges)]])
              (\<lambda>err.
                 seq (log_at Err (''Certificate request for '' @ ident @ '' ('' @ join '', '' domains @
                                  '') failed: '' @ show_error err))
                     (ret JUndefined))) (\<lambda>pems.
       seq (log_at Debug ''Done'')
           (if truthy pems then
              bnd (collection_to_set ident domains serverPem pems) (\<lambda>collectionToSet.
                if truthy collectionToSet then
                  bnd (stringified (opt collectionToSet ''domains'')) (\<lambda>domains_text.
                  bnd (toISOString (opt collectionToSet ''tsExpires'')) (\<lambda>expires.
                  seq (log_at Debug (ident @ '': domains='' @ domains_text @ '', expires='' @ expires))
                 (bnd (gets this_certManager) (\<lambda>certManager.
                  seq (if certManager
                       then seq (call ''this.certManager.setCollection'' [opt c ''id'', collectionToSet])
                                (ret ())
                       else ret ())
                 (bnd (toISOString (opt collectionToSet ''tsExpires'')) (\<lambda>expires'.
                  log_at Info (''Collection '' @ ident @ '' order success for '' @ join '', '' domains @
                               '' (expires '' @ expires' @ '')'')))))))
                else ret ())
            else ret ()))))))))))))"

definition generateCollection :: "json \<Rightarrow> unit prog" where
  "generateCollection c =
     bnd (stringified c) (\<lambda>collection_text.
     seq (log_at Debug (''Collection: '' @ collection_text))
    (bnd (read_collection c) (\<lambda>coll.
     let domains = domains_of coll; ident = collection_id coll in
     bnd (stringified (JArr (map JStr domains))) (\<lambda>domains_text.
     seq (log_at Debug (''domains: '' @ domains_text))
    (bnd (decide_create c ident coll domains) (\<lambda>create.
     if create then order_certificate c ident domains else ret ()))))))"

subsection \<open>\<open>initChallenges\<close>\<close>

text \<open>
  The options as the Netcup handler reads them: \<open>customerNumber\<close>, \<open>apiKey\<close> and
  \<open>apiPassword\<close> are declared as strings (the customer number also as a number); a
  falsy value is the empty string of \<open>create\<close>.
\<close>

definition option_text :: "json \<Rightarrow> string" where
  "option_text v = (if truthy v then to_text v else [])"

definition NetcupOptions_of :: "(string \<times> json) list \<Rightarrow> NetcupOptions" where
  "NetcupOptions_of options =
     \<lparr>customerNumber = option_text (lookup_last options ''customerNumber''),
      apiKey = option_text (lookup_last options ''apiKey''),
      apiPassword = option_text (lookup_last options ''apiPassword'')\<rparr>"

text \<open>
  \<open>netcupModule.create({ ...dns01Options, log: this.log })\<close>: the handler's \<open>create\<close> on
  the adapter's log.  The handler that it returns has methods only.
\<close>

definition netcup_create :: "json prog" where
  "netcup_create =
     (\<lambda>out a. case create (events a) (NetcupOptions_of (dns01Options (this_config a))) of
                 (Inl e, st) \<Rightarrow> (Inl e, a\<lparr>events := st\<rparr>)
               | (Inr u, st) \<Rightarrow> (Inr (JObj []), a\<lparr>events := st\<rparr>))"

text \<open>
  \<open>dns01Module.default.create(dns01Options)\<close> and \<open>dns01Module.create(dns01Options)\<close> of
  a module that is not part of the adapter.
\<close>

definition module_create :: "string \<Rightarrow> json prog" where
  "module_create name = bnd (gets (\<lambda>a. dns01Options (this_config a))) (\<lambda>options. call name [JObj options])"

text \<open>The \<open>try\<close> block that loads the handler, and its \<open>catch\<close>; the value is \<open>thisChallenge\<close>.\<close>

definition load_dns01 :: "json prog" where
  "load_dns01 =
     catch
       (bnd (cfg ''dns01Module'') (\<lambda>name.
          if name = JStr ''acme-dns-01-netcup'' then netcup_create
          else
            bnd (call ''import'' [name]) (\<lambda>dns01Module.
            bnd (lift (getprop dns01Module ''default'')) (\<lambda>default.
              if truthy default then module_create ''dns01Module.default.create''
              else module_create ''dns01Module.create''))))
       (\<lambda>err.
          seq (log_at Err (''Failed to load dns-01 challenge module: '' @ show_error err))
              (ret JUndefined))"

text \<open>
  The HTTP-01 branch.  The challenge server (\<open>lib/http-01-challenge-server\<close>) is
  created with the port, the address and the logger of the adapter; creating it is a
  call to the outside.
\<close>

definition init_http01 :: "unit prog" where
  "init_http01 =
     seq (log_at Debug ''Init http-01 challenge server'')
    (bnd (cfg ''port'') (\<lambda>port.
     bnd (cfg ''bind'') (\<lambda>bind.
     bnd (call ''createHttp01ChallengeServer'' [JObj [(''port'', port), (''address'', bind)]]) (\<lambda>thisChallenge.
     modify (\<lambda>a. a\<lparr>this_challenges := assign (this_challenges a) ''http-01'' thisChallenge,
                     this_toShutdown := this_toShutdown a @ [thisChallenge]\<rparr>)))))"

text \<open>
  The DNS-01 branch: the masked copy of the options is logged, the handler is loaded,
  the properties are set on it, and it becomes \<open>this.challenges['dns-01']\<close>.
\<close>

definition init_dns01 :: "unit prog" where
  "init_dns01 =
     seq (log_at Debug ''Init dns-01 challenge'')
    (bnd (gets (\<lambda>a. safe_copy (dns01Options (this_config a)))) (\<lambda>safeOpts.
     bnd (stringified (JObj safeOpts)) (\<lambda>safeOpts_text.
     seq (log_at Debug (''dns-01 options: '' @ safeOpts_text))
    (bnd load_dns01 (\<lambda>thisChallenge.
       if truthy thisChallenge then
         bnd (gets (\<lambda>a. dns01Props (this_config a))) (\<lambda>dns01Props.
         bnd (lift (assign_props thisChallenge dns01Props)) (\<lambda>with_props.
         bnd (cfg ''dns01Module'') (\<lambda>name.
         bnd (if name = JStr ''acme-dns-01-netcup'' then
                bnd (lift (assign_prop with_props ''propagationDelay'' (JNum 0))) (\<lambda>with_delay.
                seq (log_at Debug ''dns-01: propagationDelay set to 0 for Netcup (set() handles propagation internally)'')
                    (ret with_delay))
              else ret with_props) (\<lambda>handler.
         modify (\<lambda>a. a\<lparr>this_challenges := assign (this_challenges a) ''dns-01'' handler\<rparr>)))))
       else ret ())))))"

definition initChallenges :: "unit prog" where
  "initChallenges =
     seq (bnd (cfg ''http01Active'') (\<lambda>http01Active.
            if truthy http01Active then init_http01 else ret ()))
         (bnd (cfg ''dns01Active'') (\<lambda>dns01Active.
            if truthy dns01Active then init_dns01 else ret ()))"

subsection \<open>\<open>acmeNotify\<close>\<close>

text \<open>
  \<open>acmeNotify(ev, msg)\<close>.  \<open>JSON.stringify\<close> does not throw on a value of this model, so
  that the \<open>catch\<close> with \<open>String(msg)\<close> is not entered.
\<close>

definition acmeNotify :: "string \<Rightarrow> json \<Rightarrow> unit prog" where
  "acmeNotify ev msg =
     bnd (stringified msg) (\<lambda>text.
       if ev = ''error'' then log_at Err (''ACMENotify - '' @ ev @ '': '' @ text)
       else if ev = ''warning'' then log_at Warn (''ACMENotify - '' @ ev @ '': '' @ text)
       else log_at Debug (''ACMENotify - '' @ ev @ '': '' @ text))"

subsection \<open>\<open>pollDns01Challenge\<close>\<close>

text \<open>
  The addresses of the first three name servers: a name server whose address lookup
  throws is skipped.  The library returns arrays of strings.
\<close>

fun ns_addresses :: "json list \<Rightarrow> string list prog" where
  "ns_addresses [] = ret []"
| "ns_addresses (ns # rest) =
     bnd (catch (bnd (call ''publicResolver.resolve4'' [ns]) (\<lambda>addrs.
                 bnd (lift (elements ''addrs.map'' addrs)) (\<lambda>ips.
                 ret (map (\<lambda>ip. to_text ip @ '':53'') ips))))
                (\<lambda>err. ret [])) (\<lambda>first.
     bnd (ns_addresses rest) (\<lambda>others. ret (first @ others)))"

text \<open>
  The resolver to poll, as the list of its servers: the name servers of the zone, or the
  public resolvers when there is none or when the lookup of the name servers throws.
\<close>

definition choose_resolver :: "string \<Rightarrow> string list prog" where
  "choose_resolver zone =
     catch
       (bnd (call ''publicResolver.resolveNs'' [JStr zone]) (\<lambda>nsNames.
        bnd (lift (iterate ''nsNames.slice(0, 3)'' nsNames)) (\<lambda>names.
        bnd (ns_addresses (take 3 names)) (\<lambda>nsIps.
          if length nsIps > 0 then
            seq (call ''resolver.setServers'' [JArr (map JStr nsIps)])
           (seq (log_at Debug (''acme.dns01: using authoritative NS for '' @ zone @ '': '' @
                               join '', '' nsIps))
                (ret nsIps))
          else
            seq (log_at Debug ''acme.dns01: NS lookup empty, falling back to public resolvers'')
                (ret publicResolver)))))
       (\<lambda>err.
          seq (log_at Debug ''acme.dns01: NS lookup failed, falling back to public resolvers'')
              (ret publicResolver))"

text \<open>
  The first loop, over the attempts still to come: \<open>Some records\<close> is \<open>foundRecords\<close>
  after the \<open>break\<close>, \<open>None\<close> the end of the loop.
\<close>

fun poll_authoritative ::
  "string list \<Rightarrow> challenge \<Rightarrow> nat \<Rightarrow> nat \<Rightarrow> nat list \<Rightarrow> string list list option prog" where
  "poll_authoritative resolver ch maxAttempts retryDelayMs [] = ret None"
| "poll_authoritative resolver ch maxAttempts retryDelayMs (attempt # rest) =
     bnd (lookupTxt resolver (dnsHost ch)) (\<lambda>answer.
       case answer of
         Inr records \<Rightarrow>
           if dnsAuthorization ch \<in> set (concat records) then
             seq (log_at Debug (''acme.dns01: correct TXT value found on authoritative NS after attempt '' @
                                attempt_of attempt maxAttempts))
                 (ret (Some records))
           else
             seq (log_at Debug (''acme.dns01: attempt '' @ attempt_of attempt maxAttempts @ '': '' @
                    (if length records > 0
                     then ''found '' @ show_nat (length records) @
                          '' stale TXT record(s) but not the expected value''
                     else ''no TXT records yet'') @
                    '', retrying in '' @ show_nat (retryDelayMs div 1000) @ ''s...''))
            (seq (sleep retryDelayMs)
                 (poll_authoritative resolver ch maxAttempts retryDelayMs rest))
       | Inl err \<Rightarrow>
           seq (log_at Debug (''acme.dns01: attempt '' @ attempt_of attempt maxAttempts @
                  '': NXDOMAIN '' @ dash @ '' not yet visible, retrying in '' @
                  show_nat (retryDelayMs div 1000) @ ''s...''))
          (seq (sleep retryDelayMs)
               (poll_authoritative resolver ch maxAttempts retryDelayMs rest)))"

text \<open>\<open>{ answer: records.map(rr => ({ data: rr })) }\<close>.\<close>

definition dns01_answer :: "string list list \<Rightarrow> json" where
  "dns01_answer records =
     JObj [(''answer'', JArr (map (\<lambda>rr. JObj [(''data'', JArr (map JStr rr))]) records))]"

text \<open>
  The second loop, on the public resolvers: \<open>Some v\<close> is the \<open>return v\<close> inside the
  loop, \<open>None\<close> the end of the loop.
\<close>

fun poll_public :: "challenge \<Rightarrow> nat \<Rightarrow> nat \<Rightarrow> nat list \<Rightarrow> json option prog" where
  "poll_public ch maxPublicAttempts retryDelayMs [] = ret None"
| "poll_public ch maxPublicAttempts retryDelayMs (attempt # rest) =
     bnd (lookupTxt publicResolver (dnsHost ch)) (\<lambda>answer.
       case answer of
         Inr records \<Rightarrow>
           if dnsAuthorization ch \<in> set (concat records) then
             seq (log_at Info (''acme.dns01: correct TXT value confirmed on public resolver after '' @
                               attempt_of attempt maxPublicAttempts @ '' '' @ dash @
                               '' submitting challenge to LE''))
                 (ret (Some (dns01_answer records)))
           else
             seq (log_at Debug (''acme.dns01: public resolver attempt '' @
                    attempt_of attempt maxPublicAttempts @ '': '' @
                    (if length records > 0 then ''found stale records but not the expected value''
                     else ''no records yet'') @
                    '', retrying in '' @ show_nat (retryDelayMs div 1000) @ ''s...''))
            (seq (sleep retryDelayMs)
                 (poll_public ch maxPublicAttempts retryDelayMs rest))
       | Inl err \<Rightarrow>
           seq (log_at Debug (''acme.dns01: public resolver attempt '' @
                  attempt_of attempt maxPublicAttempts @ '': NXDOMAIN, retrying in '' @
                  show_nat (retryDelayMs div 1000) @ ''s...''))
          (seq (sleep retryDelayMs)
               (poll_public ch maxPublicAttempts retryDelayMs rest)))"

definition pollDns01Challenge :: "challenge \<Rightarrow> json prog" where
  "pollDns01Challenge ch =
     (let labels = split_on CHR ''.'' (dnsHost ch);
          zone = join ''.'' (drop (length labels - 2) labels);
          maxAttempts = 120; retryDelayMs = 10000; maxPublicAttempts = 60
      in bnd (choose_resolver zone) (\<lambda>resolver.
         seq (log_at Info (''acme.dns01: polling authoritative NS for '' @ dnsHost ch @
                '' (every '' @ show_nat (retryDelayMs div 1000) @ ''s, max '' @ show_nat maxAttempts @
                '' attempts = '' @ show_nat (maxAttempts * retryDelayMs div 60000) @ '' min)...''))
        (seq (log_at Debug (''acme.dns01: waiting for TXT value: '' @ dnsAuthorization ch))
        (bnd (poll_authoritative resolver ch maxAttempts retryDelayMs [1..<maxAttempts + 1]) (\<lambda>found.
           case found of
             None \<Rightarrow>
               throw (Error (''acme.dns01: TXT record not visible on authoritative NS after '' @
                             show_nat maxAttempts @ '' attempts''))
           | Some foundRecords \<Rightarrow>
               seq (log_at Info (''acme.dns01: '' @ dnsHost ch @ '' visible on authoritative NS '' @
                                 dash @ '' waiting for public resolvers...''))
              (bnd (poll_public ch maxPublicAttempts retryDelayMs [1..<maxPublicAttempts + 1]) (\<lambda>confirmed.
                 case confirmed of
                   Some v \<Rightarrow> ret v
                 | None \<Rightarrow>
                     seq (log_at Warn (''acme.dns01: public resolver timeout '' @ dash @
                            '' submitting with authoritative NS result (may still succeed)''))
                         (ret (dns01_answer foundRecords)))))))))"

subsection \<open>\<open>initAcme\<close>\<close>

text \<open>
  The saved account is taken over when its maintainer email and its staging flag are
  those of the configuration; each other case is logged and leaves \<open>this.account\<close> as it
  is.
\<close>

definition load_account :: "json \<Rightarrow> json \<Rightarrow> unit prog" where
  "load_account maintainerEmail useStaging =
     bnd (call ''this.getObjectAsync'' [JStr ''account'']) (\<lambda>accountObject.
       if truthy accountObject then
         bnd (stringified accountObject) (\<lambda>account_text.
         seq (log_at Debug (''Loaded existing ACME account: '' @ account_text))
             (let native = opt accountObject ''native'' in
              if \<not> strict_eq (opt native ''maintainerEmail'') maintainerEmail then
                log_at Info ''Saved account does not match maintainer email, will recreate.''
              else if opt native ''useStaging'' = JUndefined then
                log_at Info ''Saved account is missing staging/production flag (old format), will recreate.''
              else if \<not> strict_eq (opt native ''useStaging'') useStaging then
                log_at Info (''Saved account was created for '' @
                             (if truthy (opt native ''useStaging'') then ''staging'' else ''production'') @
                             '' LE, but current config uses '' @
                             (if truthy useStaging then ''staging'' else ''production'') @
                             '' '' @ dash @ '' will recreate.'')
              else modify (\<lambda>a. a\<lparr>this_account := native\<rparr>)))
       else ret ())"

text \<open>\<open>this.account.full?.key?.kid ?? 'unknown'\<close>.\<close>

definition kid_of :: "json \<Rightarrow> string" where
  "kid_of full =
     (let kid = opt (opt full ''key'') ''kid''
      in if nullish kid then ''unknown'' else to_text kid)"

definition register_account :: "json \<Rightarrow> json \<Rightarrow> unit prog" where
  "register_account maintainerEmail useStaging =
     seq (log_at Info ''Registering new ACME account...'')
    (bnd (call ''Keypairs.generate'' [JObj [(''kty'', JStr ''EC''), (''format'', JStr ''jwk'')]]) (\<lambda>accountKeypair.
     seq (log_at Debug ''New account keypair generated'')
    (bnd (lift (getprop accountKeypair ''private'')) (\<lambda>private.
     bnd (gets this_account) (\<lambda>account.
     bnd (lift (assign_prop account ''key'' private)) (\<lambda>account1.
     seq (modify (\<lambda>a. a\<lparr>this_account := account1\<rparr>))
    (bnd (call ''this.acme.accounts.create''
            [JObj [(''subscriberEmail'', maintainerEmail), (''agreeToTerms'', JBool True),
                   (''accountKey'', private)]]) (\<lambda>full.
     bnd (lift (assign_prop account1 ''full'' full)) (\<lambda>account2.
     seq (modify (\<lambda>a. a\<lparr>this_account := account2\<rparr>))
    (seq (log_at Debug (''Created ACME account (kid: '' @ kid_of full @ '')''))
    (seq (call ''this.extendObjectAsync''
            [JStr ''account'',
             JObj [(''native'',
                    JObj (assign (assign (entries_of account2) ''maintainerEmail'' maintainerEmail)
                            ''useStaging'' useStaging))]])
         (ret ()))))))))))))"

definition initAcme :: "unit prog" where
  "initAcme =
     bnd (gets this_acme) (\<lambda>acme.
       if truthy acme then ret ()
       else
         bnd (cfg ''useStaging'') (\<lambda>useStaging.
         bnd (cfg ''maintainerEmail'') (\<lambda>maintainerEmail.
         bnd (gets pkg_name) (\<lambda>name.
         bnd (gets pkg_version) (\<lambda>version.
         let directoryUrl =
               (if truthy useStaging then ''https://acme-staging-v02.api.letsencrypt.org/directory''
                else ''https://acme-v02.api.letsencrypt.org/directory'')
         in seq (log_at Debug (''Using URL: '' @ directoryUrl))
           (bnd (call ''ACME.create''
                   [JObj [(''maintainerEmail'', maintainerEmail),
                          (''packageAgent'', JStr (name @ ''/'' @ version)),
                          (''debug'', JBool True)]]) (\<lambda>created.
            seq (modify (\<lambda>a. a\<lparr>this_acme := created\<rparr>))
           (seq (lift (getprop created ''init''))
           (seq (call ''this.acme.init'' [JStr directoryUrl])
           (bnd (lift (assign_prop created ''dns01'' JUndefined)) (\<lambda>overridden.
            seq (log_at Debug ''acme.dns01 overridden: polls authoritative NS until record is visible, then immediately submits to LE'')
           (seq (load_account maintainerEmail useStaging)
           (bnd (gets this_account) (\<lambda>account.
              if \<not> truthy (opt account ''full'')
              then register_account maintainerEmail useStaging
              else ret ()))))))))))))))"

subsection \<open>\<open>onReady\<close> and \<open>onUnload\<close>\<close>

text \<open>The loop over the stored collections; \<open>collection.from\<close> throws on \<open>null\<close>.\<close>

definition purge_collection :: "string \<times> json \<Rightarrow> unit prog" where
  "purge_collection entry =
     (case entry of
        (collectionId, collection) \<Rightarrow>
          bnd (lift (getprop collection ''from'')) (\<lambda>from.
          bnd (gets this_namespace) (\<lambda>namespace.
          bnd (if from = JStr namespace
               then bnd (call ''Date.now'' []) (\<lambda>now. ret (js_lt (opt collection ''tsExpires'') now))
               else ret False) (\<lambda>expired.
            if expired then
              seq (log_at Info (''Removing expired and de-configured collection '' @ collectionId))
             (seq (call ''this.certManager.delCollection'' [JStr collectionId]) (ret ()))
            else ret ()))))"

definition purge_collections :: "unit prog" where
  "purge_collections =
     catch
       (bnd (call ''this.certManager.getAllCollections'' []) (\<lambda>collections.
          if truthy collections then
            bnd (stringified (JArr (map (\<lambda>kv. JStr (fst kv)) (entries_of collections)))) (\<lambda>ids_text.
            seq (log_at Debug (''existingCollectionIds: '' @ ids_text))
                (for_each (entries_of collections) purge_collection))
          else log_at Debug ''No collections found''))
       (\<lambda>err. log_at Err (''Failed in existing collection check/purge: '' @ show_error err))"

text \<open>The first part of \<open>onReady\<close>: the challenges, the ACME client and the collections.\<close>

definition order_collections :: "unit prog" where
  "order_collections =
     bnd (cfg ''collections'') (\<lambda>collections.
       if \<not> truthy (if nullish collections then JUndefined else js_length collections) then
         terminate ''No collections configured - nothing to order''
       else
         seq initChallenges
        (bnd (gets this_challenges) (\<lambda>challenges.
           if length challenges = 0 then log_at Err ''Failed to initiate any challenges''
           else
             catch
               (seq initAcme
                 (bnd (lift (iterate ''this.config.collections'' collections)) (\<lambda>cs.
                    for_each cs generateCollection)))
               (\<lambda>err. log_at Err (''Failed in ACME init/generation: '' @ show_error err)))))"

definition onReady :: "unit prog" where
  "onReady =
     bnd (gets (\<lambda>a. safe_copy (this_config a))) (\<lambda>safeConfig.
     bnd (stringified (JObj safeConfig)) (\<lambda>safeConfig_text.
     seq (log_at Debug (''config: '' @ safeConfig_text))
    (seq (call ''new CertificateManager'' [])
    (seq (modify (\<lambda>a. a\<lparr>this_certManager := True\<rparr>))
    (seq order_collections
    (seq purge_collections
    (seq (log_at Debug ''Shutdown...'')
    (seq (bnd (gets this_toShutdown)
            (\<lambda>toShutdown. for_each toShutdown (\<lambda>challenge. seq (call ''challenge.shutdown'' [challenge]) (ret ()))))
    (seq (catch restoreAdaptersOnSamePort
            (\<lambda>err. log_at Err (''Failed to restore adapters on same port: '' @ show_error err)))
         (terminate ''Processing complete''))))))))))"

text \<open>
  \<open>onUnload(callback)\<close>.  The promise of \<open>restoreAdaptersOnSamePort\<close> is not awaited and a
  rejection of it is dropped; its steps are taken here before the callback is called.
\<close>

definition onUnload :: "unit prog" where
  "onUnload =
     finally_do
       (catch
          (bnd (gets this_toShutdown) (\<lambda>toShutdown.
           seq (for_each toShutdown
                  (\<lambda>challenge. catch (seq (call ''challenge.shutdown'' [challenge]) (ret ())) (\<lambda>err. ret ())))
          (bnd (gets this_stoppedAdapters) (\<lambda>stoppedAdapters.
             if stoppedAdapters \<noteq> None then catch restoreAdaptersOnSamePort (\<lambda>err. ret ())
             else ret ()))))
          (\<lambda>err. ret ()))
       (seq (call ''callback'' []) (ret ()))"

section \<open>Two runs with different secrets\<close>

text \<open>
  The secrets of an account are its API key and its API password.  Two objects are twins
  for the secrets \<open>s\<close> and \<open>s'\<close> when they have the same keys in the same order and the
  same values, except that under the key \<open>kn\<close> the first holds the API key of \<open>s\<close> and the
  second that of \<open>s'\<close>, and under the key \<open>pn\<close> the first holds the API password of \<open>s\<close>
  and the second that of \<open>s'\<close>.
\<close>

type_synonym secrets = "string \<times> string"

definition twin_entries ::
  "string \<Rightarrow> string \<Rightarrow> secrets \<Rightarrow> secrets \<Rightarrow> (string \<times> json) list \<Rightarrow> (string \<times> json) list \<Rightarrow> bool" where
  "twin_entries kn pn s s' kvs kvs' \<longleftrightarrow>
     list_all2 (\<lambda>(n, v) (n', v'). n = n' \<and>
        (if n = kn then v = JStr (fst s) \<and> v' = JStr (fst s')
         else if n = pn then v = JStr (snd s) \<and> v' = JStr (snd s')
         else v = v')) kvs kvs'"

fun twin_object :: "string \<Rightarrow> string \<Rightarrow> secrets \<Rightarrow> secrets \<Rightarrow> json \<Rightarrow> json \<Rightarrow> bool" where
  "twin_object kn pn s s' (JObj kvs) (JObj kvs') = twin_entries kn pn s s' kvs kvs'"
| "twin_object kn pn s s' v v' = (v = v')"

text \<open>
  Two events are twins when they are the same, except that the parameters of a request
  to the API are twins under \<open>apikey\<close> and \<open>apipassword\<close>, and the options given to the
  \<open>create\<close> of a DNS-01 module are twins under \<open>apiKey\<close> and \<open>apiPassword\<close>.  Two
  histories are twins when they are so event by event: the second is the first with
  the secrets \<open>s'\<close> sent in place of \<open>s\<close>.
\<close>

definition creates_handler :: "string \<Rightarrow> bool" where
  "creates_handler name \<longleftrightarrow> name = ''dns01Module.default.create'' \<or> name = ''dns01Module.create''"

fun twin_event :: "secrets \<Rightarrow> secrets \<Rightarrow> event \<Rightarrow> event \<Rightarrow> bool" where
  "twin_event s s' (Fetch action param) (Fetch action' param') =
     (action = action' \<and> twin_object ''apikey'' ''apipassword'' s s' param param')"
| "twin_event s s' (Ask name args) (Ask name' args') =
     (name = name' \<and>
      (if creates_handler name then list_all2 (twin_object ''apiKey'' ''apiPassword'' s s') args args'
       else args = args'))"
| "twin_event s s' e e' = (e = e')"

definition twin :: "secrets \<Rightarrow> secrets \<Rightarrow> event list \<Rightarrow> event list \<Rightarrow> bool" where
  "twin s s' st st' \<longleftrightarrow> list_all2 (twin_event s s') st st'"

text \<open>
  What is outside answers two runs alike when it gives the same answer to twin
  histories: the API of the first run to a request with the secrets \<open>s\<close> as the API of the
  second run to the same request with the secrets \<open>s'\<close>.  An API that checks the key and
  the password it is sent does so for the account of each run; an answer that repeats
  the key or the password it was sent is not the same in the two runs.
\<close>

definition same_answers :: "secrets \<Rightarrow> secrets \<Rightarrow> world \<Rightarrow> world \<Rightarrow> bool" where
  "same_answers s s' w w' \<longleftrightarrow>
     stringify w = stringify w' \<and>
     (\<forall>h h'. twin s s' h h' \<longrightarrow> fetch w h = fetch w' h' \<and> resolveTxt w h = resolveTxt w' h')"

definition same_asks :: "secrets \<Rightarrow> secrets \<Rightarrow> outside \<Rightarrow> outside \<Rightarrow> bool" where
  "same_asks s s' out out' \<longleftrightarrow>
     stringify out = stringify out' \<and>
     (\<forall>h h'. twin s s' h h' \<longrightarrow> ask out h = ask out' h' \<and> resolveTxt out h = resolveTxt out' h')"

text \<open>
  Two adapters are twins when their configurations are twins under \<open>dns01OapiKey\<close> and
  \<open>dns01OapiPassword\<close>, their histories are twins and they are the same in every other
  field.  Two option records of the Netcup handler are twins when they hold the same
  customer number and the secrets \<open>s\<close> and \<open>s'\<close>.
\<close>

definition twin_adapter :: "secrets \<Rightarrow> secrets \<Rightarrow> adapter \<Rightarrow> adapter \<Rightarrow> bool" where
  "twin_adapter s s' a a' \<longleftrightarrow>
     twin_entries ''dns01OapiKey'' ''dns01OapiPassword'' s s' (this_config a) (this_config a') \<and>
     twin s s' (events a) (events a') \<and>
     this_namespace a = this_namespace a' \<and> this_host a = this_host a' \<and>
     this_account a = this_account a' \<and> this_challenges a = this_challenges a' \<and>
     this_toShutdown a = this_toShutdown a' \<and> this_donePortCheck a = this_donePortCheck a' \<and>
     this_certManager a = this_certManager a' \<and> this_acme a = this_acme a' \<and>
     this_stoppedAdapters a = this_stoppedAdapters a' \<and>
     pkg_name a = pkg_name a' \<and> pkg_version a = pkg_version a'"

definition twin_options :: "secrets \<Rightarrow> secrets \<Rightarrow> NetcupOptions \<Rightarrow> NetcupOptions \<Rightarrow> bool" where
  "twin_options s s' opts opts' \<longleftrightarrow>
     customerNumber opts = customerNumber opts' \<and>
     (apiKey opts, apiPassword opts) = s \<and> (apiKey opts', apiPassword opts') = s'"

text \<open>
  A step of the adapter keeps two runs together when, from twin adapters and with the
  outside answering alike, it ends both runs in the same way, with the same value or the
  same error, and leaves twin adapters.
\<close>

definition kept :: "secrets \<Rightarrow> secrets \<Rightarrow> 'a prog \<Rightarrow> bool" where
  "kept s s' m \<longleftrightarrow>
     (\<forall>out out' a a'. same_asks s s' out out' \<and> twin_adapter s s' a a' \<longrightarrow>
        fst (m out a) = fst (m out' a') \<and> twin_adapter s s' (snd (m out a)) (snd (m out' a')))"

section \<open>Example inputs\<close>

text \<open>
  A stub of the API: login opens session \<open>s1\<close>; the zone probe knows \<open>example.com\<close> and
  answers every other name with an empty object; every other action succeeds with an
  empty object.
\<close>

definition ok :: "json \<Rightarrow> api_response" where
  "ok v = Json \<lparr>statuscode = 2000, longmessage = None, shortmessage = None, responsedata = v\<rparr>"

definition stub_fetch :: "event list \<Rightarrow> api_response" where
  "stub_fetch h =
     (case last h of
        Fetch action param \<Rightarrow>
          if action = ''login'' then ok (JObj [(''apisessionid'', JStr ''s1'')])
          else if action = ''infoDnsZone'' \<and> getprop param ''domainname'' = Inr (JStr ''example.com'')
          then ok (JObj [(''name'', JStr ''example.com'')])
          else ok (JObj [])
      | e \<Rightarrow> HttpNotOk 500 ''Internal Server Error'')"

text \<open>A DNS that answers every lookup with a record left over from an earlier order.\<close>

definition stale_world :: world where
  "stale_world =
     \<lparr>fetch = stub_fetch, resolveTxt = (\<lambda>h. Inr [[''stale'']]), stringify = (\<lambda>v. ''{}'')\<rparr>"

text \<open>A DNS that does not know the name yet.\<close>

definition nxdomain_world :: world where
  "nxdomain_world =
     \<lparr>fetch = stub_fetch,
      resolveTxt = (\<lambda>h. Inl (DnsError (Some ''ENOTFOUND'') ''queryTxt ENOTFOUND'')),
      stringify = (\<lambda>v. ''{}'')\<rparr>"

text \<open>An API endpoint that is down.\<close>

definition down_world :: world where
  "down_world =
     \<lparr>fetch = (\<lambda>h. HttpNotOk 503 ''Service Unavailable''),
      resolveTxt = (\<lambda>h. Inr [[''stale'']]), stringify = (\<lambda>v. ''{}'')\<rparr>"

definition example_options :: NetcupOptions where
  "example_options = \<lparr>customerNumber = ''12345'', apiKey = ''k3y'', apiPassword = ''pw''\<rparr>"

definition example_challenge :: challenge where
  "example_challenge =
     \<lparr>dnsHost = ''_acme-challenge.sub.example.com'', dnsAuthorization = ''tok1''\<rparr>"

text \<open>
  A stored collection whose certificate is for \<open>a.com\<close> and \<open>b.com\<close>, expires at the
  start of 2030 and was issued by the production directory; a configuration with the
  common name \<open>a.com\<close> that lists \<open>b.com\<close> and once more \<open>a.com\<close> as alternative names;
  the clock stands at the start of 2027.
\<close>

definition example_crt :: crt where
  "example_crt =
     \<lparr>notAfter = ''Jan  1 00:00:00 2030 GMT'', subject_commonName = Some ''a.com'',
      altNames = Some [''a.com'', ''b.com'']\<rparr>"

definition example_x509 :: x509_env where
  "example_x509 =
     \<lparr>parseCert = (\<lambda>pem. Inr example_crt), Date_parse = (\<lambda>s. Some 1893456000000)\<rparr>"

definition example_collection :: collection where
  "example_collection =
     \<lparr>collection_id = ''c1'', commonName = ''a.com'', collection_altNames = ''b.com, a.com''\<rparr>"

definition example_existing :: CertificateCollection where
  "example_existing = \<lparr>cert = ''-----BEGIN CERTIFICATE-----'', staging = False\<rparr>"

definition example_now :: int where
  "example_now = 1798761600000"

text \<open>A world whose API gives the same answer to every request.\<close>

definition answering :: "api_response \<Rightarrow> world" where
  "answering r = \<lparr>fetch = (\<lambda>h. r), resolveTxt = (\<lambda>h. Inr []), stringify = (\<lambda>v. ''{}'')\<rparr>"

text \<open>The stub API, except that every logout is refused (the session has expired).\<close>

definition expired_world :: world where
  "expired_world =
     \<lparr>fetch = (\<lambda>h. if logout_call h then HttpNotOk 401 ''Unauthorized'' else stub_fetch h),
      resolveTxt = (\<lambda>h. Inr [[''stale'']]), stringify = (\<lambda>v. ''{}'')\<rparr>"

text \<open>The example account with another API key and another API password.\<close>

definition other_options :: NetcupOptions where
  "other_options = \<lparr>customerNumber = ''12345'', apiKey = ''0ther'', apiPassword = ''s3cret''\<rparr>"

text \<open>The adapter configuration of the example account, and the same with other secrets.\<close>

definition example_config :: "(string \<times> json) list" where
  "example_config =
     [(''maintainerEmail'', JStr ''admin@example.com''), (''useStaging'', JBool False),
      (''collections'',
       JArr [JObj [(''id'', JStr ''c1''), (''commonName'', JStr ''a.com''),
                   (''altNames'', JStr ''b.com, a.com'')]]),
      (''dns01Active'', JBool True), (''dns01Module'', JStr ''acme-dns-01-netcup''),
      (''dns01OcustomerNumber'', JStr ''12345''), (''dns01OapiKey'', JStr ''k3y''),
      (''dns01OapiPassword'', JStr ''pw''), (''port'', JNum 80)]"

definition other_config :: "(string \<times> json) list" where
  "other_config =
     [(''maintainerEmail'', JStr ''admin@example.com''), (''useStaging'', JBool False),
      (''collections'',
       JArr [JObj [(''id'', JStr ''c1''), (''commonName'', JStr ''a.com''),
                   (''altNames'', JStr ''b.com, a.com'')]]),
      (''dns01Active'', JBool True), (''dns01Module'', JStr ''acme-dns-01-netcup''),
      (''dns01OcustomerNumber'', JStr ''12345''), (''dns01OapiKey'', JStr ''0ther''),
      (''dns01OapiPassword'', JStr ''s3cret''), (''port'', JNum 80)]"

text \<open>The secrets of the example account and of the other account.\<close>

definition example_secrets :: secrets where
  "example_secrets = (''k3y'', ''pw'')"

definition other_secrets :: secrets where
  "other_secrets = (''0ther'', ''s3cret'')"

text \<open>
  An API that checks what it is sent: a request is answered as by the stub when it
  carries the API key of the account (and a login when it also carries the API password
  of the account), and refused otherwise.  The refusal does not repeat the request.
\<close>

definition refused :: api_response where
  "refused =
     Json \<lparr>statuscode = 4013, longmessage = Some ''Validation Error.'',
           shortmessage = Some ''Validation Error.'', responsedata = JStr []\<rparr>"

definition auth_fetch :: "secrets \<Rightarrow> event list \<Rightarrow> api_response" where
  "auth_fetch K h =
     (if h = [] then HttpNotOk 500 ''Internal Server Error''
      else (case last h of
              Fetch action param \<Rightarrow>
                if opt param ''apikey'' = JStr (fst K) \<and>
                   (if action = ''login'' then opt param ''apipassword'' = JStr (snd K) else True)
                then stub_fetch h else refused
            | e \<Rightarrow> HttpNotOk 500 ''Internal Server Error''))"

definition auth_world :: "secrets \<Rightarrow> world" where
  "auth_world K =
     \<lparr>fetch = auth_fetch K, resolveTxt = (\<lambda>h. Inr [[''tok1'']]), stringify = show_json\<rparr>"

text \<open>An API that repeats the key it was sent in its error message.\<close>

definition echo_fetch :: "event list \<Rightarrow> api_response" where
  "echo_fetch h =
     (if h = [] then HttpNotOk 500 ''Internal Server Error''
      else (case last h of
              Fetch action param \<Rightarrow>
                Json \<lparr>statuscode = 4013,
                      longmessage = Some (''The API key '' @ to_text (opt param ''apikey'') @ '' is not valid.''),
                      shortmessage = Some ''Validation Error.'', responsedata = JStr []\<rparr>
            | e \<Rightarrow> HttpNotOk 500 ''Internal Server Error''))"

definition echo_world :: world where
  "echo_world = \<lparr>fetch = echo_fetch, resolveTxt = (\<lambda>h. Inr []), stringify = show_json\<rparr>"

text \<open>
  An outside that answers every call with an empty object, and the adapter as it is
  constructed with the configuration of the example account and with that of the other
  account.
\<close>

definition example_outside :: outside where
  "example_outside =
     \<lparr>fetch = stub_fetch, resolveTxt = (\<lambda>h. Inr [[''tok1'']]), stringify = show_json,
      ask = (\<lambda>h. Gave (JObj []))\<rparr>"

definition example_adapter :: adapter where
  "example_adapter = constructed example_config ''acme.0'' ''host1'' ''iobroker.acme'' ''1.0.0''"

definition other_adapter :: adapter where
  "other_adapter = constructed other_config ''acme.0'' ''host1'' ''iobroker.acme'' ''1.0.0''"

text \<open>A configured collection and a message of the ACME client.\<close>

definition example_collection_json :: json where
  "example_collection_json =
     JObj [(''id'', JStr ''c1''), (''commonName'', JStr ''a.com''), (''altNames'', JStr ''b.com, a.com'')]"

text \<open>
  An outside for the renewal decision of the example: the stored collection, the decoded
  certificate, the clock and the parsed expiry are those of \<open>example_existing\<close>,
  \<open>example_crt\<close>, \<open>example_now\<close> and \<open>example_x509\<close>.
\<close>

definition renewal_ask :: "event list \<Rightarrow> answer" where
  "renewal_ask h =
     (if h = [] then Gave JNull
      else (case last h of
              Ask name args \<Rightarrow>
                if name = ''this.certManager.getCollection'' then
                  Gave (JObj [(''cert'', JStr ''-----BEGIN CERTIFICATE-----''), (''staging'', JBool False)])
                else if name = ''x509.parseCert'' then
                  Gave (JObj [(''notAfter'', JStr ''Jan  1 00:00:00 2030 GMT''),
                              (''subject'', JObj [(''commonName'', JStr ''a.com'')]),
                              (''altNames'', JArr [JStr ''a.com'', JStr ''b.com''])])
                else if name = ''Date.now'' then Gave (JNum 1798761600000)
                else if name = ''Date.parse'' then Gave (JNum 1893456000000)
                else Gave (JObj [])
            | e \<Rightarrow> Gave JNull))"

definition renewal_outside :: outside where
  "renewal_outside =
     \<lparr>fetch = stub_fetch, resolveTxt = (\<lambda>h. Inr []), stringify = show_json, ask = renewal_ask\<rparr>"

section \<open>Properties of the renewal decision\<close>

lemma every_idx_nth:
  "every_idx (\<lambda>val idx. val = ys ! idx) xs \<longleftrightarrow> (\<forall>i < length xs. xs ! i = ys ! i)"
  by (simp add: every_idx_def list_all_length)

lemma arraysMatch_sorted:
  "arraysMatch (Some a1) (Some a2) \<longleftrightarrow> sort a1 = sort a2"
proof (cases "length a1 = length a2")
  case True
  then have "length (sort a1) = length (sort a2)" by simp
  then have "(\<forall>i < length (sort a1). sort a1 ! i = sort a2 ! i) \<longleftrightarrow> sort a1 = sort a2"
    by (auto simp: list_eq_iff_nth_eq)
  with True show ?thesis
    by (simp add: arraysMatch_def every_idx_nth)
next
  case False
  then have "sort a1 \<noteq> sort a2"
    by (metis length_sort)
  with False show ?thesis
    by (simp add: arraysMatch_def)
qed

lemma sort_eq_iff_mset:
  fixes xs ys :: "'a::linorder list"
  shows "sort xs = sort ys \<longleftrightarrow> mset xs = mset ys"
proof
  assume "sort xs = sort ys"
  then have "mset (sort xs) = mset (sort ys)" by simp
  then show "mset xs = mset ys" by simp
next
  assume "mset xs = mset ys"
  then show "sort xs = sort ys"
    by (simp add: properties_for_sort)
qed

lemma arraysMatch_mset:
  "arraysMatch (Some a1) (Some a2) \<longleftrightarrow> mset a1 = mset a2"
  by (simp add: arraysMatch_sorted sort_eq_iff_mset)

lemma arraysMatch_same: "arraysMatch (Some a) (Some a)"
  by (simp add: arraysMatch_mset)

lemma arraysMatch_None: "\<not> arraysMatch (Some a) None"
  by (simp add: arraysMatch_def)

text \<open>
  Claim C3, amended.  The comparison is insensitive to order and sensitive to
  repetition: it reports two string lists equal exactly when each string occurs the same
  number of times in both (they are permutations of each other).
\<close>

theorem C3_arraysMatch_permutation:
  "arraysMatch (Some a1) (Some a2) \<longleftrightarrow> mset a1 = mset a2"
  by (rule arraysMatch_mset)

text \<open>
  Claim C3 as stated fails on its own example: the two lists hold the same set of
  strings and the comparison reports them different, because their lengths differ.
\<close>

theorem C3_counterexample:
  "set [''a.com'', ''b.com''] = set [''b.com'', ''a.com'', ''b.com''] \<and>
   \<not> arraysMatch (Some [''a.com'', ''b.com'']) (Some [''b.com'', ''a.com'', ''b.com''])"
  by (simp add: arraysMatch_def insert_commute)

section \<open>Properties of \<open>split\<close> and \<open>join\<close>\<close>

lemma split_on_nonempty: "split_on c s \<noteq> []"
  by (induction s) (auto split: list.splits)

lemma join_Cons: "ys \<noteq> [] \<Longrightarrow> join sep (x # ys) = x @ sep @ join sep ys"
  by (cases ys) simp_all

lemma join_split_on: "join [c] (split_on c s) = s"
proof (induction s)
  case Nil
  show ?case by simp
next
  case (Cons x xs)
  show ?case
  proof (cases "x = c")
    case True
    with Cons show ?thesis
      by (simp add: join_Cons split_on_nonempty)
  next
    case False
    obtain w ws where w: "split_on c xs = w # ws"
      using split_on_nonempty [of c xs] by (cases "split_on c xs") auto
    with Cons False show ?thesis
      by (cases ws) auto
  qed
qed

lemma join_append:
  "xs \<noteq> [] \<Longrightarrow> ys \<noteq> [] \<Longrightarrow> join sep (xs @ ys) = join sep xs @ sep @ join sep ys"
proof (induction xs)
  case Nil
  then show ?case by simp
next
  case (Cons x xs)
  show ?case
  proof (cases "xs = []")
    case True
    with Cons.prems show ?thesis by (simp add: join_Cons)
  next
    case False
    with Cons show ?thesis by (simp add: join_Cons)
  qed
qed

lemma join_take_drop:
  assumes "0 < i" "i < length xs"
  shows "join sep (take i xs) @ sep @ join sep (drop i xs) = join sep xs"
proof -
  have "take i xs \<noteq> []" "drop i xs \<noteq> []" using assms by auto
  then have "join sep (take i xs @ drop i xs) = join sep (take i xs) @ sep @ join sep (drop i xs)"
    by (rule join_append)
  then show ?thesis by simp
qed

lemma join_take_plain:
  assumes "0 < i" "i \<le> length xs" "hd xs \<noteq> []" "hd xs \<noteq> ''@''"
  shows "join ''.'' (take i xs) \<noteq> [] \<and> join ''.'' (take i xs) \<noteq> ''@''"
proof (cases xs)
  case Nil
  with assms show ?thesis by simp
next
  case (Cons x rest)
  show ?thesis
  proof (cases "take (i - 1) rest")
    case Nil
    with Cons assms show ?thesis by (cases i) auto
  next
    case (Cons y ys)
    then have "join ''.'' (take i xs) = x @ ''.'' @ join ''.'' (y # ys)"
      using \<open>xs = x # rest\<close> assms(1) by (cases i) auto
    then show ?thesis
      using assms(3) \<open>xs = x # rest\<close> by (cases x) auto
  qed
qed

section \<open>Properties of the zone resolver\<close>

lemma apiCall_snd: "snd (apiCall w st action param t) = st @ [Fetch action param]"
  by (simp add: apiCall_def Let_def split: api_response.splits)

lemma apiCall_pair:
  "apiCall w st action param t = (fst (apiCall w st action param t), st @ [Fetch action param])"
  by (metis apiCall_snd prod.collapse)

lemma probe_result_shift:
  assumes "a < j"
  shows "probe_result w (st @ [probe cn key sid parts a]) cn key sid parts (Suc a) j =
         probe_result w st cn key sid parts a j"
proof -
  have "[a..<j] = a # [Suc a..<j]" using assms by (simp add: upt_conv_Cons)
  then show ?thesis by (simp add: probe_result_def)
qed

lemma findZone_loop_upt:
  "findZone_loop w st fd parts cn key sid [a..<b] =
     (case find (\<lambda>j. \<not> rejected (probe_result w st cn key sid parts a j)) [a..<b] of
        None \<Rightarrow> (Inr None, st @ map (probe cn key sid parts) [a..<b])
      | Some j \<Rightarrow>
          (case probe_result w st cn key sid parts a j of
             Inl e \<Rightarrow> (Inl e, st @ map (probe cn key sid parts) [a..<Suc j])
           | Inr v \<Rightarrow>
               (Inr (Some (join ''.'' (drop j parts), hostname_of (take j parts))),
                st @ map (probe cn key sid parts) [a..<Suc j] @
                [Log Warn (found_message fd (join ''.'' (drop j parts)) (hostname_of (take j parts)))])))"
proof (induction "b - a" arbitrary: a st)
  case 0
  then show ?case by simp
next
  case (Suc n)
  then have ab: "a < b" and upt: "[a..<b] = a # [Suc a..<b]"
    by (auto simp: upt_conv_Cons)
  let ?P = "probe cn key sid parts"
  let ?cand = "join ''.'' (drop a parts)"
  let ?call = "apiCall w st ''infoDnsZone'' (zone_param cn key sid ?cand) False"
  have res_a: "probe_result w st cn key sid parts a a = fst ?call"
    by (simp add: probe_result_def)
  have call: "?call = (fst ?call, st @ [?P a])"
    using apiCall_pair [of w st] by (simp add: probe_def)
  show ?case
  proof (cases "rejected (fst ?call)")
    case False
    then have f: "find (\<lambda>j. \<not> rejected (probe_result w st cn key sid parts a j)) [a..<b] = Some a"
      by (simp add: upt res_a)
    show ?thesis
    proof (cases "fst ?call")
      case (Inl e)
      with call have c: "?call = (Inl e, st @ [?P a])" by simp
      have lhs: "findZone_loop w st fd parts cn key sid [a..<b] = (Inl e, st @ [?P a])"
        by (subst upt) (simp add: c Let_def)
      show ?thesis
        unfolding lhs f by (simp add: res_a Inl)
    next
      case (Inr v)
      with False have acc: "zone_accepted v" by (simp add: rejected_def)
      from Inr call have c: "?call = (Inr v, st @ [?P a])" by simp
      have lhs: "findZone_loop w st fd parts cn key sid [a..<b] =
                 (Inr (Some (?cand, hostname_of (take a parts))),
                  st @ [?P a] @ [Log Warn (found_message fd ?cand (hostname_of (take a parts)))])"
        by (subst upt) (simp add: c acc Let_def)
      show ?thesis
        unfolding lhs f by (simp add: res_a Inr)
    qed
  next
    case True
    then obtain v where v: "fst ?call = Inr v" and nacc: "\<not> zone_accepted v"
      by (auto simp: rejected_def split: sum.splits)
    from v call have c: "?call = (Inr v, st @ [?P a])" by simp
    have step: "findZone_loop w st fd parts cn key sid [a..<b] =
                findZone_loop w (st @ [?P a]) fd parts cn key sid [Suc a..<b]"
      by (subst upt) (simp add: c nacc Let_def)
    have n: "n = b - Suc a" using Suc.hyps(2) by simp
    have findeq: "find (\<lambda>j. \<not> rejected (probe_result w st cn key sid parts a j)) [a..<b] =
                  find (\<lambda>j. \<not> rejected (probe_result w (st @ [?P a]) cn key sid parts (Suc a) j)) [Suc a..<b]"
    proof -
      have "find (\<lambda>j. \<not> rejected (probe_result w st cn key sid parts a j)) [a..<b] =
            find (\<lambda>j. \<not> rejected (probe_result w st cn key sid parts a j)) [Suc a..<b]"
        using True by (simp add: upt res_a)
      also have "\<dots> = find (\<lambda>j. \<not> rejected (probe_result w (st @ [?P a]) cn key sid parts (Suc a) j)) [Suc a..<b]"
        by (rule find_cong) (auto simp: probe_result_shift)
      finally show ?thesis .
    qed
    have maps: "\<And>k. a < k \<Longrightarrow> st @ map ?P [a..<k] = (st @ [?P a]) @ map ?P [Suc a..<k]"
      by (simp add: upt_conv_Cons del: upt_Suc)
    show ?thesis
    proof (cases "find (\<lambda>j. \<not> rejected (probe_result w (st @ [?P a]) cn key sid parts (Suc a) j)) [Suc a..<b]")
      case None
      then show ?thesis
        unfolding step Suc.hyps(1) [OF n] findeq
        using maps [OF ab] by (simp del: upt_Suc)
    next
      case (Some j)
      then have "j \<in> set [Suc a..<b]"
        by (auto simp: find_Some_iff)
      then have aj: "a < j" by simp
      then have aj': "a < Suc j" by simp
      show ?thesis
        unfolding step Suc.hyps(1) [OF n] findeq Some
        using maps [OF aj'] probe_result_shift [OF aj, of w st cn key sid parts]
        by (simp del: upt_Suc split: sum.splits)
    qed
  qed
qed

lemma fetches_append: "fetches (xs @ ys) = fetches xs @ fetches ys"
  by (induction xs rule: fetches.induct) simp_all

lemma fetches_probes:
  "fetches (map (probe cn key sid parts) is) =
   map (\<lambda>i. (''infoDnsZone'', zone_param cn key sid (join ''.'' (drop i parts)))) is"
  by (induction "is") (simp_all add: probe_def)

lemma zone_accepted_iff:
  "zone_accepted v \<longleftrightarrow> (\<exists>kvs. v = JObj kvs \<and> truthy (lookup_last kvs ''name''))"
  by (cases v) (simp_all add: zone_accepted_def)

lemma findZone_char:
  fixes w st fullHost cn key sid
  defines "parts \<equiv> split_on CHR ''.'' fullHost"
  defines "res \<equiv> probe_result w st cn key sid parts 1"
  defines "first \<equiv> find (\<lambda>i. \<not> rejected (res i)) [1..<length parts - 1]"
  shows "fst (findZone w st fullHost cn key sid) =
           (case first of
              None \<Rightarrow> Inr (join ''.'' (drop (length parts - 2) parts),
                            hostname_of (take (length parts - 2) parts))
            | Some i \<Rightarrow>
                (case res i of
                   Inl e \<Rightarrow> Inl e
                 | Inr v \<Rightarrow> Inr (join ''.'' (drop i parts), hostname_of (take i parts))))"
    and "fetches (snd (findZone w st fullHost cn key sid)) =
           fetches st @
           map (\<lambda>i. (''infoDnsZone'', zone_param cn key sid (join ''.'' (drop i parts))))
             [1..<(case first of None \<Rightarrow> length parts - 1 | Some i \<Rightarrow> Suc i)]"
proof -
  note loop = findZone_loop_upt [of w st fullHost parts cn key sid 1 "length parts - 1",
      folded res_def first_def]
  show "fst (findZone w st fullHost cn key sid) =
           (case first of
              None \<Rightarrow> Inr (join ''.'' (drop (length parts - 2) parts),
                            hostname_of (take (length parts - 2) parts))
            | Some i \<Rightarrow>
                (case res i of
                   Inl e \<Rightarrow> Inl e
                 | Inr v \<Rightarrow> Inr (join ''.'' (drop i parts), hostname_of (take i parts))))"
    unfolding findZone_def parts_def [symmetric] Let_def loop
    by (simp split: option.splits sum.splits)
  show "fetches (snd (findZone w st fullHost cn key sid)) =
           fetches st @
           map (\<lambda>i. (''infoDnsZone'', zone_param cn key sid (join ''.'' (drop i parts))))
             [1..<(case first of None \<Rightarrow> length parts - 1 | Some i \<Rightarrow> Suc i)]"
    unfolding findZone_def parts_def [symmetric] Let_def loop
    by (simp add: fetches_append fetches_probes del: upt_Suc split: option.splits sum.splits)
qed

lemma findZone_example:
  "fst (findZone stale_world [] ''_acme-challenge.sub.example.com'' ''12345'' ''k3y'' (JStr ''s1'')) =
     Inr (''example.com'', ''_acme-challenge.sub'')"
  by (simp add: findZone_def stale_world_def stub_fetch_def apiCall_def zone_param_def
      zone_accepted_def hostname_of_def ok_def Let_def)

lemma findZone_result_index:
  assumes "fst (findZone w st fullHost cn key sid) = Inr (zone, relativeName)"
    and "3 \<le> length (split_on CHR ''.'' fullHost)"
  shows "\<exists>i. 0 < i \<and> i < length (split_on CHR ''.'' fullHost) \<and>
             zone = join ''.'' (drop i (split_on CHR ''.'' fullHost)) \<and>
             relativeName = hostname_of (take i (split_on CHR ''.'' fullHost))"
proof -
  let ?parts = "split_on CHR ''.'' fullHost"
  let ?res = "probe_result w st cn key sid ?parts 1"
  let ?first = "find (\<lambda>i. \<not> rejected (?res i)) [1..<length ?parts - 1]"
  note c = findZone_char(1) [of w st fullHost cn key sid]
  show ?thesis
  proof (cases ?first)
    case None
    with c assms(1) have "zone = join ''.'' (drop (length ?parts - 2) ?parts)"
      "relativeName = hostname_of (take (length ?parts - 2) ?parts)"
      by simp_all
    moreover have "0 < length ?parts - 2" "length ?parts - 2 < length ?parts"
      using assms(2) by simp_all
    ultimately show ?thesis by blast
  next
    case (Some i)
    then have "i \<in> set [1..<length ?parts - 1]"
      by (auto simp: find_Some_iff)
    then have i: "0 < i" "i < length ?parts" by auto
    from c assms(1) Some have "zone = join ''.'' (drop i ?parts)"
      "relativeName = hostname_of (take i ?parts)"
      by (simp_all split: sum.splits)
    with i show ?thesis by blast
  qed
qed

text \<open>
  The hosts that reach \<open>findZone\<close> are the \<open>dnsHost\<close> of ACME challenges,
  \<open>_acme-challenge.<name>\<close>: their first label is \<open>_acme-challenge\<close>, which is neither
  empty nor \<open>@\<close>.
\<close>

lemma acme_challenge_first_label:
  "hd (split_on CHR ''.'' (''_acme-challenge.'' @ name)) = ''_acme-challenge''"
  by (simp split: list.splits)

text \<open>
  Claim C4.  A valid \<open>fullHost\<close> is a host name whose first label is neither empty nor
  the apex mark \<open>@\<close>, as in every challenge host.  For every such \<open>fullHost\<close> with at
  least three labels, a pair \<open>(zone, relativeName)\<close> returned by \<open>findZone\<close>, from an
  accepted probe or from the fallback, gives \<open>fullHost\<close> back: \<open>fullHost\<close> is \<open>zone\<close>
  when \<open>relativeName\<close> is \<open>@\<close> and \<open>relativeName.zone\<close> otherwise.
\<close>

theorem C4_findZone_reconstructs:
  assumes "3 \<le> length (split_on CHR ''.'' fullHost)"
    and "hd (split_on CHR ''.'' fullHost) \<noteq> []"
    and "hd (split_on CHR ''.'' fullHost) \<noteq> ''@''"
    and "fst (findZone w st fullHost cn key sid) = Inr (zone, relativeName)"
  shows "fullHost = (if relativeName = ''@'' then zone else relativeName @ ''.'' @ zone)"
proof -
  let ?parts = "split_on CHR ''.'' fullHost"
  from findZone_result_index [OF assms(4) assms(1)]
  obtain i where i: "0 < i" "i < length ?parts"
    and z: "zone = join ''.'' (drop i ?parts)"
    and r: "relativeName = hostname_of (take i ?parts)"
    by blast
  have plain: "join ''.'' (take i ?parts) \<noteq> [] \<and> join ''.'' (take i ?parts) \<noteq> ''@''"
    using join_take_plain [of i ?parts] i assms(2,3) by simp
  then have r': "relativeName = join ''.'' (take i ?parts)" "relativeName \<noteq> ''@''"
    using r by (simp_all add: hostname_of_def)
  have "join ''.'' (take i ?parts) @ ''.'' @ join ''.'' (drop i ?parts) = join ''.'' ?parts"
    using i by (rule join_take_drop)
  also have "\<dots> = fullHost"
    using join_split_on [of "CHR ''.''" fullHost] by simp
  finally show ?thesis
    using r' z by simp
qed

text \<open>
  Claim C4 at the challenge name \<open>_acme-challenge.sub.example.com\<close>, with the stub API
  that knows the zone \<open>example.com\<close>.
\<close>

theorem C4_witness:
  "3 \<le> length (split_on CHR ''.'' ''_acme-challenge.sub.example.com'') \<and>
   hd (split_on CHR ''.'' ''_acme-challenge.sub.example.com'') \<noteq> [] \<and>
   hd (split_on CHR ''.'' ''_acme-challenge.sub.example.com'') \<noteq> ''@'' \<and>
   fst (findZone stale_world [] ''_acme-challenge.sub.example.com'' ''12345'' ''k3y'' (JStr ''s1'')) =
     Inr (''example.com'', ''_acme-challenge.sub'') \<and>
   ''_acme-challenge.sub.example.com'' =
     (if ''_acme-challenge.sub'' = ''@'' then ''example.com''
      else ''_acme-challenge.sub'' @ ''.'' @ ''example.com'')"
  using C4_findZone_reconstructs [of "''_acme-challenge.sub.example.com''" stale_world "[]"
      "''12345''" "''k3y''" "JStr ''s1''" "''example.com''" "''_acme-challenge.sub''"]
    findZone_example
  by simp

text \<open>
  The same for every challenge host: with \<open>name\<close> of at least two labels,
  \<open>_acme-challenge.<name>\<close> is given back by whatever pair \<open>findZone\<close> returns for it.
\<close>

lemma findZone_reconstructs_challenge_host:
  assumes "2 \<le> length (split_on CHR ''.'' name)"
    and "fst (findZone w st (''_acme-challenge.'' @ name) cn key sid) = Inr (zone, relativeName)"
  shows "relativeName \<noteq> ''@'' \<and> ''_acme-challenge.'' @ name = relativeName @ ''.'' @ zone"
proof -
  let ?host = "''_acme-challenge.'' @ name"
  let ?parts = "split_on CHR ''.'' ?host"
  have parts: "?parts = ''_acme-challenge'' # split_on CHR ''.'' name"
    by (simp split: list.splits)
  then have len: "3 \<le> length ?parts"
    using assms(1) by simp
  from findZone_result_index [OF assms(2) len]
  obtain i where i: "0 < i" "i < length ?parts"
    and z: "zone = join ''.'' (drop i ?parts)"
    and r: "relativeName = hostname_of (take i ?parts)"
    by blast
  have "hd ?parts \<noteq> [] \<and> hd ?parts \<noteq> ''@''"
    unfolding parts by simp
  then have plain: "join ''.'' (take i ?parts) \<noteq> [] \<and> join ''.'' (take i ?parts) \<noteq> ''@''"
    using join_take_plain [of i ?parts] i by simp
  then have r': "relativeName = join ''.'' (take i ?parts)" "relativeName \<noteq> ''@''"
    using r by (simp_all add: hostname_of_def)
  have "join ''.'' (take i ?parts) @ ''.'' @ join ''.'' (drop i ?parts) = join ''.'' ?parts"
    using i by (rule join_take_drop)
  also have "\<dots> = ?host"
    using join_split_on [of "CHR ''.''" ?host] by simp
  finally show ?thesis
    using r' z by simp
qed

text \<open>
  The relative name \<open>@\<close> is the mark of the zone apex (\<open>join('.') || '@'\<close>): it is what
  \<open>findZone\<close> returns when no label stands before the zone, and a label \<open>@\<close> in front of a
  zone is read in the same way.
\<close>

lemma findZone_apex_mark:
  "fst (findZone stale_world [] ''@.example.com'' ''12345'' ''k3y'' (JStr ''s1'')) =
     Inr (''example.com'', ''@'')"
  by (simp add: findZone_def stale_world_def stub_fetch_def apiCall_def zone_param_def
      zone_accepted_def hostname_of_def ok_def Let_def)

text \<open>
  Claim C5.  \<open>findZone\<close> probes the candidates \<open>labels[i:]\<close> for \<open>i = 1, 2, ...\<close> up to
  \<open>labelCount - 2\<close>, in this order, and stops at the first probe that is not rejected:
  when that probe returned an object with a truthy \<open>name\<close>, the result is this candidate
  with the labels before it as relative name (a probe that throws ends \<open>findZone\<close> with
  its error); when every probe is rejected, the result is the last two labels with the
  labels before them.  The requests sent are exactly the probes up to the one that
  stopped the loop.  A probe is accepted only on an object with a truthy \<open>name\<close>: the
  empty object and \<open>null\<close> are rejected.
\<close>

theorem C5_findZone_first_accepted:
  "(let parts = split_on CHR ''.'' fullHost;
        res = probe_result w st cn key sid parts 1;
        first = find (\<lambda>i. \<not> rejected (res i)) [1..<length parts - 1]
    in fst (findZone w st fullHost cn key sid) =
         (case first of
            None \<Rightarrow> Inr (join ''.'' (drop (length parts - 2) parts),
                          hostname_of (take (length parts - 2) parts))
          | Some i \<Rightarrow>
              (case res i of
                 Inl e \<Rightarrow> Inl e
               | Inr v \<Rightarrow> Inr (join ''.'' (drop i parts), hostname_of (take i parts)))) \<and>
       fetches (snd (findZone w st fullHost cn key sid)) =
         fetches st @
         map (\<lambda>i. (''infoDnsZone'', zone_param cn key sid (join ''.'' (drop i parts))))
           [1..<(case first of None \<Rightarrow> length parts - 1 | Some i \<Rightarrow> Suc i)]) \<and>
   (zone_accepted v \<longleftrightarrow> (\<exists>kvs. v = JObj kvs \<and> truthy (lookup_last kvs ''name''))) \<and>
   \<not> zone_accepted (JObj []) \<and> \<not> zone_accepted JNull"
  unfolding Let_def
  using findZone_char [of w st fullHost cn key sid] zone_accepted_iff [of v]
  by (simp add: zone_accepted_def)

text \<open>
  Claim C5 on the example of the specification: the stub answers the probe of
  \<open>sub.example.com\<close> with an empty object and knows \<open>example.com\<close>; both are probed, in
  this order, and the zone is \<open>example.com\<close>.
\<close>

theorem C5_witness:
  "fst (findZone stale_world [] ''_acme-challenge.sub.example.com'' ''12345'' ''k3y'' (JStr ''s1'')) =
     Inr (''example.com'', ''_acme-challenge.sub'') \<and>
   fetches (snd (findZone stale_world [] ''_acme-challenge.sub.example.com'' ''12345'' ''k3y'' (JStr ''s1''))) =
     [(''infoDnsZone'', zone_param ''12345'' ''k3y'' (JStr ''s1'') ''sub.example.com''),
      (''infoDnsZone'', zone_param ''12345'' ''k3y'' (JStr ''s1'') ''example.com'')]"
  using C5_findZone_first_accepted [of "''_acme-challenge.sub.example.com''" stale_world "[]"
      "''12345''" "''k3y''" "JStr ''s1''" JNull]
  by (simp add: Let_def probe_result_def probe_def stale_world_def stub_fetch_def apiCall_def
      zone_param_def ok_def rejected_def zone_accepted_def hostname_of_def upt_conv_Cons)

text \<open>
  Claim C10.  For a \<open>fullHost\<close> of exactly two labels \<open>findZone\<close> sends no request: it
  logs the fallback and returns \<open>fullHost\<close> as the zone with the relative name \<open>@\<close>.
\<close>

theorem C10_findZone_two_labels:
  assumes "length (split_on CHR ''.'' fullHost) = 2"
  shows "findZone w st fullHost cn key sid =
           (Inr (fullHost, ''@''), st @ [Log Warn (fallback_message fullHost fullHost ''@'')]) \<and>
         fetches (snd (findZone w st fullHost cn key sid)) = fetches st"
proof -
  have j: "join ''.'' (split_on CHR ''.'' fullHost) = fullHost"
    using join_split_on [of "CHR ''.''" fullHost] by simp
  have "findZone w st fullHost cn key sid =
           (Inr (fullHost, ''@''), st @ [Log Warn (fallback_message fullHost fullHost ''@'')])"
    using assms j by (simp add: findZone_def hostname_of_def Let_def)
  then show ?thesis
    by (simp add: fetches_append)
qed

text \<open>Claim C10 at \<open>example.com\<close>, from the empty trace.\<close>

theorem C10_witness:
  "length (split_on CHR ''.'' ''example.com'') = 2 \<and>
   findZone stale_world [] ''example.com'' ''12345'' ''k3y'' (JStr ''s1'') =
     (Inr (''example.com'', ''@''), [Log Warn (fallback_message ''example.com'' ''example.com'' ''@'')]) \<and>
   fetches (snd (findZone stale_world [] ''example.com'' ''12345'' ''k3y'' (JStr ''s1''))) = []"
  using C10_findZone_two_labels [of "''example.com''" stale_world "[]" "''12345''" "''k3y''" "JStr ''s1''"]
  by simp

section \<open>Properties of the API client\<close>

text \<open>
  Claim C7.  When the API answers with a parsed envelope, \<open>apiCall\<close> returns its
  \<open>responsedata\<close> if \<open>2000 \<le> statuscode < 3000\<close>; outside the band it throws when
  \<open>throwOnError\<close> is true and returns \<open>null\<close> when it is false.
\<close>

theorem C7_apiCall_status_band:
  assumes "fetch w (st @ [Fetch action param]) = Json j"
  shows "(2000 \<le> statuscode j \<and> statuscode j < 3000 \<longrightarrow>
            fst (apiCall w st action param throwOnError) = Inr (responsedata j)) \<and>
         (\<not> (2000 \<le> statuscode j \<and> statuscode j < 3000) \<longrightarrow>
            fst (apiCall w st action param throwOnError) =
              (if throwOnError
               then Inl (Error (''Netcup API error ['' @ show_int (statuscode j) @ '']: '' @ api_message j))
               else Inr JNull))"
  using assms by (simp add: apiCall_def Let_def)

text \<open>
  Claim C7 at three answers: 2011 is a success, 5029 is \<open>null\<close> without \<open>throwOnError\<close>
  and an error with it.
\<close>

theorem C7_witness:
  "fst (apiCall (answering (Json \<lparr>statuscode = 2011, longmessage = None, shortmessage = None,
                                    responsedata = JStr ''updated''\<rparr>))
          [] ''updateDnsRecords'' (JObj []) True) = Inr (JStr ''updated'') \<and>
   fst (apiCall (answering (Json \<lparr>statuscode = 5029, longmessage = None, shortmessage = Some ''no records'',
                                    responsedata = JStr ''''\<rparr>))
          [] ''infoDnsRecords'' (JObj []) False) = Inr JNull \<and>
   fst (apiCall (answering (Json \<lparr>statuscode = 5029, longmessage = None, shortmessage = Some ''no records'',
                                    responsedata = JStr ''''\<rparr>))
          [] ''infoDnsRecords'' (JObj []) True) = Inl (Error ''Netcup API error [5029]: no records'')"
  using
    C7_apiCall_status_band [of "answering (Json \<lparr>statuscode = 2011, longmessage = None,
        shortmessage = None, responsedata = JStr ''updated''\<rparr>)" "[]" "''updateDnsRecords''" "JObj []" _ True]
    C7_apiCall_status_band [of "answering (Json \<lparr>statuscode = 5029, longmessage = None,
        shortmessage = Some ''no records'', responsedata = JStr ''''\<rparr>)" "[]" "''infoDnsRecords''" "JObj []" _ False]
    C7_apiCall_status_band [of "answering (Json \<lparr>statuscode = 5029, longmessage = None,
        shortmessage = Some ''no records'', responsedata = JStr ''''\<rparr>)" "[]" "''infoDnsRecords''" "JObj []" _ True]
  by (simp add: answering_def api_message_def show_int_def)

text \<open>The first version of the client treats 2011 as an error.\<close>

lemma apiCall_legacy_2011:
  "fst (apiCall_legacy (answering (Json \<lparr>statuscode = 2011, longmessage = None, shortmessage = None,
                                    responsedata = JStr ''updated''\<rparr>))
          [] ''updateDnsRecords'' (JObj [])) = Inl (Error ''Netcup API error [2011]: unknown error'')"
  by (simp add: apiCall_legacy_def answering_def api_message_def show_int_def)

section \<open>The renewal decision as a whole\<close>

lemma domains_of_example: "domains_of example_collection = [''a.com'', ''b.com'', ''a.com'']"
  by (simp add: domains_of_def example_collection_def trim_def is_space_def)

text \<open>
  Claim C2, amended.  The decision is "must renew" exactly when one of these holds:
  there is no stored collection; the stored certificate does not parse; its \<open>notAfter\<close>
  is a date less than seven days after now; the configured common name is not the
  subject common name of the certificate; the alternative names of the certificate are
  not an array, or are not a permutation of the desired domain list (the same names,
  each as often); the staging flags differ.  It is "keep" in every other case.
\<close>

theorem C2_generateCollection_create_iff:
  "generateCollection_create x now useStaging coll domains existing \<longleftrightarrow>
     existing = None \<or>
     (\<exists>ec. existing = Some ec \<and>
        ((\<exists>err. parseCert x (cert ec) = Inl err) \<or>
         (\<exists>c. parseCert x (cert ec) = Inr c \<and>
            ((\<exists>t. Date_parse x (notAfter c) = Some t \<and> t - now < 7 * 24 * 60 * 60 * 1000) \<or>
             subject_commonName c \<noteq> Some (commonName coll) \<or>
             (\<forall>names. altNames c = Some names \<longrightarrow> mset names \<noteq> mset domains) \<or>
             staging ec \<noteq> useStaging))))"
proof (cases existing)
  case None
  then show ?thesis by (simp add: generateCollection_create_def)
next
  case (Some ec)
  show ?thesis
  proof (cases "parseCert x (cert ec)")
    case (Inl err)
    with Some show ?thesis by (simp add: generateCollection_create_def)
  next
    case (Inr c)
    have e: "expiring x now c \<longleftrightarrow>
             (\<exists>t. Date_parse x (notAfter c) = Some t \<and> t - now < 7 * 24 * 60 * 60 * 1000)"
      by (auto simp: expiring_def renewWindow_def split: option.splits)
    have m: "arraysMatch (Some domains) (altNames c) \<longleftrightarrow>
             \<not> (\<forall>names. altNames c = Some names \<longrightarrow> mset names \<noteq> mset domains)"
      by (cases "altNames c") (auto simp: arraysMatch_mset arraysMatch_None)
    from Some Inr show ?thesis
      by (simp add: generateCollection_create_def e m)
  qed
qed

text \<open>
  The amended claim C2 on the example certificate, three years before it expires, with
  the desired domains in the other order: the decision is "keep".
\<close>

theorem C2_witness:
  "\<not> generateCollection_create example_x509 example_now False example_collection
       [''b.com'', ''a.com''] (Some example_existing)"
  using C2_generateCollection_create_iff [of example_x509 example_now False example_collection
      "[''b.com'', ''a.com'']" "Some example_existing"]
  by (simp add: example_x509_def example_crt_def example_now_def example_collection_def
      example_existing_def add_mset_commute)

text \<open>
  Claim C2 as stated fails when the configuration repeats a name: the decision is "must
  renew" although the collection exists, the certificate parses, it expires three years
  from now, the common names agree, the desired domains and the alternative names are
  the same set, and the staging flags agree.
\<close>

theorem C2_counterexample:
  "generateCollection_create example_x509 example_now False example_collection
     (domains_of example_collection) (Some example_existing) \<and>
   Some example_existing \<noteq> None \<and>
   parseCert example_x509 (cert example_existing) = Inr example_crt \<and>
   Date_parse example_x509 (notAfter example_crt) = Some 1893456000000 \<and>
   \<not> 1893456000000 - example_now < 7 * 24 * 60 * 60 * (1000 :: int) \<and>
   subject_commonName example_crt = Some (commonName example_collection) \<and>
   altNames example_crt = Some [''a.com'', ''b.com''] \<and>
   set (domains_of example_collection) = set [''a.com'', ''b.com''] \<and>
   staging example_existing = False"
  unfolding domains_of_example
  by (simp add: generateCollection_create_def example_x509_def example_crt_def
      example_now_def example_collection_def example_existing_def expiring_def renewWindow_def
      arraysMatch_def insert_commute)

section \<open>Properties of the wait for propagation\<close>

lemma lookups_append: "lookups (xs @ ys) = lookups xs @ lookups ys"
  by (induction xs rule: lookups.induct) simp_all

lemma set_poll_any_answer:
  assumes "resolveTxt w (st @ [ResolveTxt publicResolver host]) = Inr results"
  shows "set_poll w st host maxAttempts retryDelayMs (attempt # rest) =
           (Some JNull,
            st @ [ResolveTxt publicResolver host, Log Warn (confirmed_message attempt maxAttempts)])"
  using assms by (simp add: Let_def)

lemma set_poll_all_throw:
  assumes "\<forall>h. \<exists>e. resolveTxt w h = Inl e"
  shows "fst (set_poll w st host maxAttempts retryDelayMs attempts) = None \<and>
         lookups (snd (set_poll w st host maxAttempts retryDelayMs attempts)) =
           lookups st @ replicate (length attempts) (publicResolver, host)"
proof (induction attempts arbitrary: st)
  case Nil
  show ?case by simp
next
  case (Cons attempt rest)
  obtain e where e: "resolveTxt w (st @ [ResolveTxt publicResolver host]) = Inl e"
    using assms by blast
  show ?case
    using Cons.IH by (simp add: Let_def e lookups_append replicate_append_same)
qed

lemma set_wait_all_throw:
  assumes "\<forall>h. \<exists>e. resolveTxt w h = Inl e"
  shows "fst (set_wait w st host) = Inl (Error (timeout_message host 30)) \<and>
         lookups (snd (set_wait w st host)) = lookups st @ replicate 30 (publicResolver, host)"
proof -
  let ?st1 = "st @ [Log Warn (wait_message 30000 30)]"
  from set_poll_all_throw [OF assms, of ?st1 host 30 30000 "[1..<30 + 1]"]
  have "fst (set_poll w ?st1 host 30 30000 [1..<30 + 1]) = None"
    and "lookups (snd (set_poll w ?st1 host 30 30000 [1..<30 + 1])) =
           lookups st @ replicate 30 (publicResolver, host)"
    by (simp_all add: lookups_append)
  then show ?thesis
    unfolding set_wait_def Let_def by (auto split: prod.splits option.splits)
qed

lemma set_wait_nxdomain:
  "fst (set_wait nxdomain_world [] host) = Inl (Error (timeout_message host 30)) \<and>
   length (lookups (snd (set_wait nxdomain_world [] host))) = 30"
  using set_wait_all_throw [of nxdomain_world "[]" host]
  by (simp add: nxdomain_world_def)

lemma timeout_message_example:
  "timeout_message ''_acme-challenge.sub.example.com'' 30 =
     ''[acme-dns-01-netcup] DNS record '' @ [CHR 0x22] @ ''_acme-challenge.sub.example.com'' @ [CHR 0x22] @
     '' not visible after 30 attempts''"
  by (simp add: timeout_message_def quoted_def)

lemma set_poll_authoritative_never_seen:
  assumes "\<forall>h results. resolveTxt w h = Inr results \<longrightarrow> authorization \<notin> set (concat results)"
  shows "fst (set_poll_authoritative w st srv host authorization maxAttempts retryDelayMs attempts) = None \<and>
         lookups (snd (set_poll_authoritative w st srv host authorization maxAttempts retryDelayMs attempts)) =
           lookups st @ replicate (length attempts) (srv, host)"
proof (induction attempts arbitrary: st)
  case Nil
  show ?case by simp
next
  case (Cons attempt rest)
  show ?case
  proof (cases "resolveTxt w (st @ [Sleep retryDelayMs, ResolveTxt srv host])")
    case (Inl e)
    then show ?thesis
      using Cons.IH by (simp add: Let_def lookups_append replicate_append_same)
  next
    case (Inr results)
    with assms have "authorization \<notin> set (concat results)" by blast
    with Inr show ?thesis
      using Cons.IH by (simp add: Let_def lookups_append replicate_append_same)
  qed
qed

lemma set_poll_authoritative_Some:
  assumes "fst (set_poll_authoritative w st srv host authorization maxAttempts retryDelayMs attempts) = Some v"
  shows "\<exists>h results. resolveTxt w h = Inr results \<and> authorization \<in> set (concat results)"
  using assms set_poll_authoritative_never_seen [of w authorization st srv host maxAttempts retryDelayMs attempts]
  by fastforce

text \<open>
  Claim C1 fails on the code.  The DNS answers the first lookup with the record
  \<open>stale\<close>, which is not the expected value \<open>tok1\<close>, and the loop of \<open>set\<close> reports
  the record confirmed after attempt 1 and returns \<open>null\<close>: the loop never looks at the
  answer (lemma \<open>set_poll_any_answer\<close>).
\<close>

theorem C1_set_poll_stale:
  "resolveTxt stale_world [ResolveTxt publicResolver ''_acme-challenge.sub.example.com''] = Inr [[''stale'']] \<and>
   ''tok1'' \<notin> set (concat [[''stale'']]) \<and>
   set_poll stale_world [] ''_acme-challenge.sub.example.com'' 30 30000 [1..<30 + 1] =
     (Some JNull,
      [ResolveTxt publicResolver ''_acme-challenge.sub.example.com'',
       Log Warn ''[acme-dns-01-netcup] set: DNS record confirmed after attempt 1/30''])"
  by (simp add: stale_world_def upt_conv_Cons confirmed_message_def attempt_of_def Let_def)

text \<open>
  Claim C6 fails on the code, by the same defect.  The DNS would answer every one of
  the 30 attempts with the record \<open>stale\<close>, so that no attempt confirms the value
  \<open>tok1\<close>; \<open>set\<close> makes one lookup and returns \<open>null\<close> instead of making 30 and
  throwing.  When every lookup throws, the loop does make exactly 30 lookups and \<open>set\<close>
  throws the error that names the host and the count (lemma \<open>set_wait_all_throw\<close>).
\<close>

theorem C6_set_stale:
  "(\<forall>h. resolveTxt stale_world h = Inr [[''stale'']]) \<and>
   fst (set_challenge stale_world [] example_options example_challenge) = Inr JNull \<and>
   lookups (snd (set_challenge stale_world [] example_options example_challenge)) =
     [(publicResolver, ''_acme-challenge.sub.example.com'')]"
  by (simp add: stale_world_def set_challenge_def login_def apiCall_def stub_fetch_def ok_def
      login_param_def set_body_def findZone_def zone_param_def zone_accepted_def hostname_of_def
      update_param_def logout_def session_param_def set_wait_def example_options_def
      example_challenge_def upt_conv_Cons Let_def)

section \<open>The session around the protected block\<close>

lemma fetches_apiCall:
  "fetches (snd (apiCall w st action param t)) = fetches st @ [(action, param)]"
  by (simp add: apiCall_snd fetches_append)

lemma login_snd:
  "snd (login w st cn key pw) = st @ [Fetch ''login'' (login_param cn key pw)]"
  using apiCall_pair [of w st "''login''" "login_param cn key pw" True]
  by (auto simp: login_def split: prod.splits sum.splits)

lemma logout_eq: "logout w st cn key sid = st @ [Fetch ''logout'' (session_param cn key sid)]"
  by (simp add: logout_def apiCall_snd)

lemma set_poll_fetches:
  "fetches (snd (set_poll w st host maxAttempts retryDelayMs attempts)) = fetches st"
  by (induction attempts arbitrary: st) (simp_all add: Let_def fetches_append split: sum.splits)

lemma set_wait_snd:
  "snd (set_wait w st host) =
   snd (set_poll w (st @ [Log Warn (wait_message 30000 30)]) host 30 30000 [1..<30 + 1])"
proof -
  obtain r s2 where p: "set_poll w (st @ [Log Warn (wait_message 30000 30)]) host 30 30000 [1..<30 + 1] = (r, s2)"
    by (cases "set_poll w (st @ [Log Warn (wait_message 30000 30)]) host 30 30000 [1..<30 + 1]")
  show ?thesis
    unfolding set_wait_def Let_def p
    by (cases r) simp_all
qed

lemma set_wait_fetches: "fetches (snd (set_wait w st host)) = fetches st"
  by (simp only: set_wait_snd set_poll_fetches) (simp add: fetches_append)

lemma findZone_fetches_mid:
  "\<exists>mid. fetches (snd (findZone w st fullHost cn key sid)) = fetches st @ mid \<and>
         ''logout'' \<notin> fst ` set mid"
  using findZone_char(2) [of w st fullHost cn key sid] by auto

lemma case_apiCall:
  "(case apiCall w st action param t of (r, s) \<Rightarrow> f r s) =
   f (fst (apiCall w st action param t)) (st @ [Fetch action param])"
  using apiCall_pair [of w st action param t] by (simp add: case_prod_unfold apiCall_snd)

lemma fetches_extend:
  assumes "fetches s = fetches st @ mid" and "''logout'' \<notin> fst ` set mid"
    and "s' = s @ es" and "''logout'' \<notin> fst ` set (fetches es)"
  shows "\<exists>mid'. fetches s' = fetches st @ mid' \<and> ''logout'' \<notin> fst ` set mid'"
proof -
  have "fetches s' = fetches st @ (mid @ fetches es)"
    using assms(1,3) by (simp add: fetches_append)
  moreover have "''logout'' \<notin> fst ` set (mid @ fetches es)"
    using assms(2,4) by auto
  ultimately show ?thesis by blast
qed

lemma set_body_snd:
  assumes "findZone w st (dnsHost ch) cn key sid = (r1, st1)"
  shows "\<exists>es. snd (set_body w st cn key sid ch) = st1 @ es \<and> ''logout'' \<notin> fst ` set (fetches es)"
  unfolding set_body_def assms
  by (simp add: case_apiCall Let_def split: sum.splits prod.splits)

lemma set_body_fetches_mid:
  "\<exists>mid. fetches (snd (set_body w st cn key sid ch)) = fetches st @ mid \<and>
         ''logout'' \<notin> fst ` set mid"
proof -
  obtain r1 st1 where f: "findZone w st (dnsHost ch) cn key sid = (r1, st1)"
    by (cases "findZone w st (dnsHost ch) cn key sid")
  from findZone_fetches_mid [of w st "dnsHost ch" cn key sid] f
  obtain mid1 where m1: "fetches st1 = fetches st @ mid1" "''logout'' \<notin> fst ` set mid1"
    by auto
  from set_body_snd [OF f] obtain es
    where es: "snd (set_body w st cn key sid ch) = st1 @ es" "''logout'' \<notin> fst ` set (fetches es)"
    by blast
  show ?thesis
    by (rule fetches_extend [OF m1 es])
qed

lemma remove_body_snd:
  assumes "findZone w st (dnsHost ch) cn key sid = (r1, st1)"
  shows "\<exists>es. snd (remove_body w st cn key sid ch) = st1 @ es \<and> ''logout'' \<notin> fst ` set (fetches es)"
  unfolding remove_body_def assms
  by (simp add: case_apiCall Let_def split: sum.splits prod.splits json.splits)

lemma remove_body_fetches_mid:
  "\<exists>mid. fetches (snd (remove_body w st cn key sid ch)) = fetches st @ mid \<and>
         ''logout'' \<notin> fst ` set mid"
proof -
  obtain r1 st1 where f: "findZone w st (dnsHost ch) cn key sid = (r1, st1)"
    by (cases "findZone w st (dnsHost ch) cn key sid")
  from findZone_fetches_mid [of w st "dnsHost ch" cn key sid] f
  obtain mid1 where m1: "fetches st1 = fetches st @ mid1" "''logout'' \<notin> fst ` set mid1"
    by auto
  from remove_body_snd [OF f] obtain es
    where es: "snd (remove_body w st cn key sid ch) = st1 @ es" "''logout'' \<notin> fst ` set (fetches es)"
    by blast
  show ?thesis
    by (rule fetches_extend [OF m1 es])
qed

lemma case_login:
  "(case login w st cn key pw of (r, s) \<Rightarrow> f r s) =
   f (fst (login w st cn key pw)) (st @ [Fetch ''login'' (login_param cn key pw)])"
  using login_snd [of w st cn key pw] by (simp add: case_prod_unfold)

lemma set_login_fails:
  assumes "fst (login w (st @ [Log Warn (set_called ch)])
                  (customerNumber opts) (apiKey opts) (apiPassword opts)) = Inl e"
  shows "fst (set_challenge w st opts ch) = Inl e \<and>
         fetches (snd (set_challenge w st opts ch)) =
           fetches st @ [(''login'', login_param (customerNumber opts) (apiKey opts) (apiPassword opts))]"
  unfolding set_challenge_def Let_def case_login assms
  by (simp add: fetches_append)

lemma set_login_ok:
  assumes "fst (login w (st @ [Log Warn (set_called ch)])
                  (customerNumber opts) (apiKey opts) (apiPassword opts)) = Inr sid"
  shows "\<exists>mid. fetches (snd (set_challenge w st opts ch)) =
               fetches st @ [(''login'', login_param (customerNumber opts) (apiKey opts) (apiPassword opts))] @
               mid @ [(''logout'', session_param (customerNumber opts) (apiKey opts) sid)] \<and>
             ''logout'' \<notin> fst ` set mid"
proof -
  let ?st1 = "st @ [Log Warn (set_called ch)] @
              [Fetch ''login'' (login_param (customerNumber opts) (apiKey opts) (apiPassword opts))]"
  obtain r2 st2 where b: "set_body w ?st1 (customerNumber opts) (apiKey opts) sid ch = (r2, st2)"
    by (cases "set_body w ?st1 (customerNumber opts) (apiKey opts) sid ch")
  from set_body_fetches_mid [of w ?st1 "customerNumber opts" "apiKey opts" sid ch] b
  obtain mid where mid: "fetches st2 = fetches ?st1 @ mid" "''logout'' \<notin> fst ` set mid"
    by auto
  have "fetches (snd (set_challenge w st opts ch)) =
        fetches (logout w st2 (customerNumber opts) (apiKey opts) sid)"
    unfolding set_challenge_def Let_def case_login assms
    using b by (cases r2) (simp_all add: set_wait_fetches)
  then have "fetches (snd (set_challenge w st opts ch)) =
             fetches st @ [(''login'', login_param (customerNumber opts) (apiKey opts) (apiPassword opts))] @
             mid @ [(''logout'', session_param (customerNumber opts) (apiKey opts) sid)]"
    by (simp add: logout_eq fetches_append mid(1))
  with mid(2) show ?thesis by blast
qed

lemma remove_login_fails:
  assumes "fst (login w (st @ [Log Warn (remove_called ch)])
                  (customerNumber opts) (apiKey opts) (apiPassword opts)) = Inl e"
  shows "fst (remove_challenge w st opts ch) = Inl e \<and>
         fetches (snd (remove_challenge w st opts ch)) =
           fetches st @ [(''login'', login_param (customerNumber opts) (apiKey opts) (apiPassword opts))]"
  unfolding remove_challenge_def Let_def case_login assms
  by (simp add: fetches_append)

lemma remove_login_ok:
  assumes "fst (login w (st @ [Log Warn (remove_called ch)])
                  (customerNumber opts) (apiKey opts) (apiPassword opts)) = Inr sid"
  shows "\<exists>mid. fetches (snd (remove_challenge w st opts ch)) =
               fetches st @ [(''login'', login_param (customerNumber opts) (apiKey opts) (apiPassword opts))] @
               mid @ [(''logout'', session_param (customerNumber opts) (apiKey opts) sid)] \<and>
             ''logout'' \<notin> fst ` set mid"
proof -
  let ?st1 = "st @ [Log Warn (remove_called ch)] @
              [Fetch ''login'' (login_param (customerNumber opts) (apiKey opts) (apiPassword opts))]"
  obtain r2 st2 where b: "remove_body w ?st1 (customerNumber opts) (apiKey opts) sid ch = (r2, st2)"
    by (cases "remove_body w ?st1 (customerNumber opts) (apiKey opts) sid ch")
  from remove_body_fetches_mid [of w ?st1 "customerNumber opts" "apiKey opts" sid ch] b
  obtain mid where mid: "fetches st2 = fetches ?st1 @ mid" "''logout'' \<notin> fst ` set mid"
    by auto
  have "fetches (snd (remove_challenge w st opts ch)) =
        fetches (logout w st2 (customerNumber opts) (apiKey opts) sid)"
    unfolding remove_challenge_def Let_def case_login assms
    using b by simp
  then have "fetches (snd (remove_challenge w st opts ch)) =
             fetches st @ [(''login'', login_param (customerNumber opts) (apiKey opts) (apiPassword opts))] @
             mid @ [(''logout'', session_param (customerNumber opts) (apiKey opts) sid)]"
    by (simp add: logout_eq fetches_append mid(1))
  with mid(2) show ?thesis by blast
qed

lemma get_fetches: "fetches (snd (get_challenge w st ch)) = fetches st"
  by (simp add: get_challenge_def Let_def fetches_append split: sum.splits)

lemma apiCall_same:
  assumes "\<forall>h. \<not> logout_call h \<longrightarrow> fetch w h = fetch w' h" and "action \<noteq> ''logout''"
  shows "apiCall w st action param t = apiCall w' st action param t"
proof -
  have "\<not> logout_call (st @ [Fetch action param])"
    using assms(2) by (simp add: logout_call_def)
  with assms(1) have "fetch w (st @ [Fetch action param]) = fetch w' (st @ [Fetch action param])"
    by blast
  then show ?thesis by (simp add: apiCall_def)
qed

lemma findZone_loop_same:
  assumes "\<forall>h. \<not> logout_call h \<longrightarrow> fetch w h = fetch w' h"
  shows "findZone_loop w st fd parts cn key sid is = findZone_loop w' st fd parts cn key sid is"
proof (induction "is" arbitrary: st)
  case Nil
  show ?case by simp
next
  case (Cons i rest)
  have a: "\<And>p. apiCall w st ''infoDnsZone'' p False = apiCall w' st ''infoDnsZone'' p False"
    by (rule apiCall_same [OF assms]) simp
  show ?case
    by (simp add: a Cons.IH Let_def split: prod.splits sum.splits)
qed

lemma findZone_same:
  assumes "\<forall>h. \<not> logout_call h \<longrightarrow> fetch w h = fetch w' h"
  shows "findZone w st fullHost cn key sid = findZone w' st fullHost cn key sid"
  by (simp add: findZone_def findZone_loop_same [OF assms])

lemma login_same:
  assumes "\<forall>h. \<not> logout_call h \<longrightarrow> fetch w h = fetch w' h"
  shows "login w st cn key pw = login w' st cn key pw"
proof -
  have "apiCall w st ''login'' (login_param cn key pw) True = apiCall w' st ''login'' (login_param cn key pw) True"
    by (rule apiCall_same [OF assms]) simp
  then show ?thesis by (simp add: login_def)
qed

lemma logout_same: "logout w st cn key sid = logout w' st cn key sid"
  by (simp add: logout_eq)

lemma set_body_same:
  assumes "\<forall>h. \<not> logout_call h \<longrightarrow> fetch w h = fetch w' h" and "stringify w = stringify w'"
  shows "set_body w st cn key sid ch = set_body w' st cn key sid ch"
proof -
  have a: "\<And>s p. apiCall w s ''updateDnsRecords'' p True = apiCall w' s ''updateDnsRecords'' p True"
    by (rule apiCall_same [OF assms(1)]) simp
  show ?thesis
    by (simp add: set_body_def findZone_same [OF assms(1)] a assms(2) Let_def
        split: prod.splits sum.splits)
qed

lemma remove_body_same:
  assumes "\<forall>h. \<not> logout_call h \<longrightarrow> fetch w h = fetch w' h"
  shows "remove_body w st cn key sid ch = remove_body w' st cn key sid ch"
proof -
  have a: "\<And>s p t. apiCall w s ''updateDnsRecords'' p t = apiCall w' s ''updateDnsRecords'' p t"
    by (rule apiCall_same [OF assms(1)]) simp
  have b: "\<And>s p t. apiCall w s ''infoDnsRecords'' p t = apiCall w' s ''infoDnsRecords'' p t"
    by (rule apiCall_same [OF assms(1)]) simp
  show ?thesis
    by (simp add: remove_body_def findZone_same [OF assms(1)] a b
        cong: prod.case_cong sum.case_cong json.case_cong if_cong)
qed

lemma set_poll_same:
  assumes "resolveTxt w = resolveTxt w'"
  shows "set_poll w st host m d attempts = set_poll w' st host m d attempts"
  by (induction attempts arbitrary: st) (simp_all add: assms Let_def split: sum.splits)

lemma set_wait_same:
  assumes "resolveTxt w = resolveTxt w'"
  shows "set_wait w st host = set_wait w' st host"
  by (simp add: set_wait_def set_poll_same [OF assms])

lemma set_challenge_same:
  assumes "\<forall>h. \<not> logout_call h \<longrightarrow> fetch w h = fetch w' h"
    and "resolveTxt w = resolveTxt w'" and "stringify w = stringify w'"
  shows "set_challenge w st opts ch = set_challenge w' st opts ch"
  by (simp add: set_challenge_def login_same [OF assms(1)] set_body_same [OF assms(1,3)]
      set_wait_same [OF assms(2)] logout_eq cong: prod.case_cong sum.case_cong)

lemma remove_challenge_same:
  assumes "\<forall>h. \<not> logout_call h \<longrightarrow> fetch w h = fetch w' h"
  shows "remove_challenge w st opts ch = remove_challenge w' st opts ch"
  by (simp add: remove_challenge_def login_same [OF assms(1)] remove_body_same [OF assms(1)] logout_eq
      cong: prod.case_cong sum.case_cong)

lemma get_challenge_same:
  assumes "resolveTxt w = resolveTxt w'"
  shows "get_challenge w st ch = get_challenge w' st ch"
  by (simp add: get_challenge_def assms)

text \<open>
  Claim C8.  For \<open>set\<close> and for \<open>remove\<close>: when login throws, the operation throws the
  same error and login is the only request it has sent; when login returns a session,
  the requests of the operation are login, then requests that are not logout, then
  exactly one logout for this session, whatever the protected block did (returned, or
  threw in the zone search, in the record write or elsewhere).  \<open>get\<close> sends no request
  at all, so that it has no session to close.  \<open>logout\<close> returns no error: it only adds
  its request to the trace, and two worlds that differ only in how they answer logout
  requests give the same result and the same trace for \<open>set\<close>, \<open>remove\<close> and \<open>get\<close>.
\<close>

theorem C8_session_bracket:
  "(\<forall>e. fst (login w (st @ [Log Warn (set_called ch)])
              (customerNumber opts) (apiKey opts) (apiPassword opts)) = Inl e \<longrightarrow>
        fst (set_challenge w st opts ch) = Inl e \<and>
        fetches (snd (set_challenge w st opts ch)) =
          fetches st @ [(''login'', login_param (customerNumber opts) (apiKey opts) (apiPassword opts))]) \<and>
   (\<forall>sid. fst (login w (st @ [Log Warn (set_called ch)])
                (customerNumber opts) (apiKey opts) (apiPassword opts)) = Inr sid \<longrightarrow>
        (\<exists>mid. fetches (snd (set_challenge w st opts ch)) =
                 fetches st @ [(''login'', login_param (customerNumber opts) (apiKey opts) (apiPassword opts))] @
                 mid @ [(''logout'', session_param (customerNumber opts) (apiKey opts) sid)] \<and>
               ''logout'' \<notin> fst ` set mid)) \<and>
   (\<forall>e. fst (login w (st @ [Log Warn (remove_called ch)])
              (customerNumber opts) (apiKey opts) (apiPassword opts)) = Inl e \<longrightarrow>
        fst (remove_challenge w st opts ch) = Inl e \<and>
        fetches (snd (remove_challenge w st opts ch)) =
          fetches st @ [(''login'', login_param (customerNumber opts) (apiKey opts) (apiPassword opts))]) \<and>
   (\<forall>sid. fst (login w (st @ [Log Warn (remove_called ch)])
                (customerNumber opts) (apiKey opts) (apiPassword opts)) = Inr sid \<longrightarrow>
        (\<exists>mid. fetches (snd (remove_challenge w st opts ch)) =
                 fetches st @ [(''login'', login_param (customerNumber opts) (apiKey opts) (apiPassword opts))] @
                 mid @ [(''logout'', session_param (customerNumber opts) (apiKey opts) sid)] \<and>
               ''logout'' \<notin> fst ` set mid)) \<and>
   fetches (snd (get_challenge w st ch)) = fetches st \<and>
   logout w st cn key sid' = st @ [Fetch ''logout'' (session_param cn key sid')] \<and>
   ((\<forall>h. \<not> logout_call h \<longrightarrow> fetch w h = fetch w' h) \<and>
    resolveTxt w = resolveTxt w' \<and> stringify w = stringify w' \<longrightarrow>
      set_challenge w st opts ch = set_challenge w' st opts ch \<and>
      remove_challenge w st opts ch = remove_challenge w' st opts ch \<and>
      get_challenge w st ch = get_challenge w' st ch)"
  using set_login_fails [of w st ch opts] set_login_ok [of w st ch opts]
    remove_login_fails [of w st ch opts] remove_login_ok [of w st ch opts]
    get_fetches [of w st ch] logout_eq [of w st cn key sid']
    set_challenge_same [of w w' st opts ch] remove_challenge_same [of w w' st opts ch]
    get_challenge_same [of w w' st ch]
  by blast

lemma login_down:
  "fst (login down_world [Log Warn m] ''12345'' ''k3y'' ''pw'') =
     Inl (Error ''Netcup HTTP error: 503 Service Unavailable'')"
  by (simp add: login_def apiCall_def down_world_def)

lemma login_stub:
  "fst (login stale_world [Log Warn m] ''12345'' ''k3y'' ''pw'') = Inr (JStr ''s1'')"
  by (simp add: login_def apiCall_def stale_world_def stub_fetch_def ok_def)

lemma expired_agrees:
  "(\<forall>h. \<not> logout_call h \<longrightarrow> fetch stale_world h = fetch expired_world h) \<and>
   resolveTxt stale_world = resolveTxt expired_world \<and> stringify stale_world = stringify expired_world"
  by (simp add: stale_world_def expired_world_def)

text \<open>
  Claim C8 at the example challenge: with the API down, \<open>set\<close> and \<open>remove\<close> throw
  the error of login after the login request alone; with the stub API, login opens
  session \<open>s1\<close> and both operations end their requests with the logout of \<open>s1\<close>; and
  against an API that refuses every logout both operations behave as against the stub.
\<close>

theorem C8_witness:
  "fst (login down_world [Log Warn (set_called example_challenge)] ''12345'' ''k3y'' ''pw'') =
     Inl (Error ''Netcup HTTP error: 503 Service Unavailable'') \<and>
   fst (set_challenge down_world [] example_options example_challenge) =
     Inl (Error ''Netcup HTTP error: 503 Service Unavailable'') \<and>
   fetches (snd (set_challenge down_world [] example_options example_challenge)) =
     [(''login'', login_param ''12345'' ''k3y'' ''pw'')] \<and>
   fst (remove_challenge down_world [] example_options example_challenge) =
     Inl (Error ''Netcup HTTP error: 503 Service Unavailable'') \<and>
   fst (login stale_world [Log Warn (set_called example_challenge)] ''12345'' ''k3y'' ''pw'') =
     Inr (JStr ''s1'') \<and>
   (\<exists>mid. fetches (snd (set_challenge stale_world [] example_options example_challenge)) =
            [(''login'', login_param ''12345'' ''k3y'' ''pw'')] @ mid @
            [(''logout'', session_param ''12345'' ''k3y'' (JStr ''s1''))] \<and>
          ''logout'' \<notin> fst ` set mid) \<and>
   (\<exists>mid. fetches (snd (remove_challenge stale_world [] example_options example_challenge)) =
            [(''login'', login_param ''12345'' ''k3y'' ''pw'')] @ mid @
            [(''logout'', session_param ''12345'' ''k3y'' (JStr ''s1''))] \<and>
          ''logout'' \<notin> fst ` set mid) \<and>
   fetch expired_world [Fetch ''logout'' (session_param ''12345'' ''k3y'' (JStr ''s1''))] =
     HttpNotOk 401 ''Unauthorized'' \<and>
   set_challenge stale_world [] example_options example_challenge =
     set_challenge expired_world [] example_options example_challenge \<and>
   remove_challenge stale_world [] example_options example_challenge =
     remove_challenge expired_world [] example_options example_challenge"
  using
    C8_session_bracket [of down_world "[]" example_challenge example_options
      "''12345''" "''k3y''" "JStr ''s1''" down_world]
    C8_session_bracket [of stale_world "[]" example_challenge example_options
      "''12345''" "''k3y''" "JStr ''s1''" expired_world]
    login_down login_stub expired_agrees
  by (simp add: example_options_def) (elim conjE, simp add: expired_world_def logout_call_def)

section \<open>Secrets and the log\<close>

lemma logs_append: "logs (xs @ ys) = logs xs @ logs ys"
  by (induction xs rule: logs.induct) simp_all

lemma twin_Nil: "twin s s' [] []"
  by (simp add: twin_def)

lemma twin_append:
  "twin s s' st st' \<Longrightarrow> list_all2 (twin_event s s') es es' \<Longrightarrow> twin s s' (st @ es) (st' @ es')"
  by (simp add: twin_def list_all2_appendI)

lemma twin_snoc:
  "twin s s' st st' \<Longrightarrow> twin_event s s' e e' \<Longrightarrow> twin s s' (st @ [e]) (st' @ [e'])"
  by (simp add: twin_append)

lemma logs_twin: "twin s s' st st' \<Longrightarrow> logs st = logs st'"
  unfolding twin_def
proof (induction st st' rule: list_all2_induct)
  case Nil
  show ?case by simp
next
  case (Cons e es e' es')
  then show ?case
    by (cases e; cases e') simp_all
qed

lemma twin_entries_keys: "twin_entries kn pn s s' kvs kvs' \<Longrightarrow> map fst kvs = map fst kvs'"
  unfolding twin_entries_def
  by (induction kvs kvs' rule: list_all2_induct) auto

lemma twin_entries_lookup:
  assumes "twin_entries kn pn s s' kvs kvs'" and "k \<noteq> kn" and "k \<noteq> pn"
  shows "lookup_last kvs k = lookup_last kvs' k"
  using assms(1) unfolding twin_entries_def
proof (induction kvs kvs' rule: list_all2_induct)
  case Nil
  show ?case by simp
next
  case (Cons x xs y ys)
  from Cons.hyps(2) have "map fst xs = map fst ys"
    using twin_entries_keys [of kn pn s s' xs ys] by (simp add: twin_entries_def)
  then have "fst ` set xs = fst ` set ys"
    by (metis set_map)
  with Cons assms(2,3) show ?case
    by (cases x; cases y) (auto split: if_splits)
qed

subsection \<open>Steps that keep two runs together\<close>

lemma keptI:
  assumes "\<And>out out' a a'. same_asks s s' out out' \<Longrightarrow> twin_adapter s s' a a' \<Longrightarrow>
             fst (m out a) = fst (m out' a') \<and> twin_adapter s s' (snd (m out a)) (snd (m out' a'))"
  shows "kept s s' m"
  using assms by (simp add: kept_def)

lemma keptD:
  assumes "kept s s' m" and "same_asks s s' out out'" and "twin_adapter s s' a a'"
  shows "fst (m out a) = fst (m out' a')" and "twin_adapter s s' (snd (m out a)) (snd (m out' a'))"
  using assms by (simp_all add: kept_def)

lemma kept_ret: "kept s s' (ret x)"
  by (simp add: kept_def ret_def)

lemma kept_throw: "kept s s' (throw e)"
  by (simp add: kept_def throw_def)

lemma kept_lift: "kept s s' (lift r)"
  by (simp add: kept_def lift_def)

lemma kept_bnd:
  assumes "kept s s' m" and "\<And>x. kept s s' (f x)"
  shows "kept s s' (bnd m f)"
proof (rule keptI)
  fix out out' a a'
  assume o: "same_asks s s' out out'" and t: "twin_adapter s s' a a'"
  obtain r b where m: "m out a = (r, b)" by (cases "m out a")
  obtain r' b' where m': "m out' a' = (r', b')" by (cases "m out' a'")
  from keptD [OF assms(1) o t] m m' have rr: "r' = r" and bb: "twin_adapter s s' b b'"
    by simp_all
  show "fst (bnd m f out a) = fst (bnd m f out' a') \<and>
        twin_adapter s s' (snd (bnd m f out a)) (snd (bnd m f out' a'))"
  proof (cases r)
    case (Inl e)
    with bb show ?thesis by (simp add: bnd_def m m' rr)
  next
    case (Inr x)
    with keptD [OF assms(2) o bb, of x] show ?thesis by (simp add: bnd_def m m' rr)
  qed
qed

lemma kept_seq:
  assumes "kept s s' m" and "kept s s' n"
  shows "kept s s' (seq m n)"
  unfolding seq_def using assms by (intro kept_bnd)

lemma kept_catch:
  assumes "kept s s' m" and "\<And>e. kept s s' (h e)"
  shows "kept s s' (catch m h)"
proof (rule keptI)
  fix out out' a a'
  assume o: "same_asks s s' out out'" and t: "twin_adapter s s' a a'"
  obtain r b where m: "m out a = (r, b)" by (cases "m out a")
  obtain r' b' where m': "m out' a' = (r', b')" by (cases "m out' a'")
  from keptD [OF assms(1) o t] m m' have rr: "r' = r" and bb: "twin_adapter s s' b b'"
    by simp_all
  show "fst (catch m h out a) = fst (catch m h out' a') \<and>
        twin_adapter s s' (snd (catch m h out a)) (snd (catch m h out' a'))"
  proof (cases r)
    case (Inl e)
    with keptD [OF assms(2) o bb, of e] show ?thesis by (simp add: catch_def m m' rr)
  next
    case (Inr x)
    with bb show ?thesis by (simp add: catch_def m m' rr)
  qed
qed

lemma kept_finally_do:
  assumes "kept s s' m" and "kept s s' n"
  shows "kept s s' (finally_do m n)"
proof (rule keptI)
  fix out out' a a'
  assume o: "same_asks s s' out out'" and t: "twin_adapter s s' a a'"
  obtain r b where m: "m out a = (r, b)" by (cases "m out a")
  obtain r' b' where m': "m out' a' = (r', b')" by (cases "m out' a'")
  from keptD [OF assms(1) o t] m m' have rr: "r' = r" and bb: "twin_adapter s s' b b'"
    by simp_all
  obtain u c where n: "n out b = (u, c)" by (cases "n out b")
  obtain u' c' where n': "n out' b' = (u', c')" by (cases "n out' b'")
  from keptD [OF assms(2) o bb] n n' have uu: "u' = u" and cc: "twin_adapter s s' c c'"
    by simp_all
  show "fst (finally_do m n out a) = fst (finally_do m n out' a') \<and>
        twin_adapter s s' (snd (finally_do m n out a)) (snd (finally_do m n out' a'))"
    using cc by (cases u) (simp_all add: finally_do_def m m' rr n n' uu)
qed

lemma kept_gets:
  assumes "\<And>a a'. twin_adapter s s' a a' \<Longrightarrow> f a = f a'"
  shows "kept s s' (gets f)"
  using assms by (simp add: kept_def gets_def)

lemma kept_modify:
  assumes "\<And>a a'. twin_adapter s s' a a' \<Longrightarrow> twin_adapter s s' (g a) (g a')"
  shows "kept s s' (modify g)"
  using assms by (simp add: kept_def modify_def)

lemma twin_adapter_event:
  assumes "twin_adapter s s' a a'" and "twin_event s s' e e'"
  shows "twin_adapter s s' (a\<lparr>events := events a @ [e]\<rparr>) (a'\<lparr>events := events a' @ [e']\<rparr>)"
  using assms by (simp add: twin_adapter_def twin_snoc)

lemma kept_log_at: "kept s s' (log_at l m)"
  unfolding log_at_def by (rule kept_modify) (simp add: twin_adapter_event)

lemma kept_sleep: "kept s s' (sleep ms)"
  unfolding sleep_def by (rule kept_modify) (simp add: twin_adapter_event)

lemma kept_call:
  assumes "\<not> creates_handler name"
  shows "kept s s' (call name args)"
proof (rule keptI)
  fix out out' a a'
  assume o: "same_asks s s' out out'" and t: "twin_adapter s s' a a'"
  have e: "twin_event s s' (Ask name args) (Ask name args)"
    using assms by simp
  from twin_adapter_event [OF t e]
  have t': "twin_adapter s s' (a\<lparr>events := events a @ [Ask name args]\<rparr>)
              (a'\<lparr>events := events a' @ [Ask name args]\<rparr>)" .
  then have "twin s s' (events a @ [Ask name args]) (events a' @ [Ask name args])"
    by (simp add: twin_adapter_def)
  with o have "ask out (events a @ [Ask name args]) = ask out' (events a' @ [Ask name args])"
    by (simp add: same_asks_def)
  with t' show "fst (call name args out a) = fst (call name args out' a') \<and>
        twin_adapter s s' (snd (call name args out a)) (snd (call name args out' a'))"
    by (simp add: call_def Let_def split: answer.splits)
qed

lemma kept_lookupTxt: "kept s s' (lookupTxt servers name)"
proof (rule keptI)
  fix out out' a a'
  assume o: "same_asks s s' out out'" and t: "twin_adapter s s' a a'"
  have e: "twin_event s s' (ResolveTxt servers name) (ResolveTxt servers name)"
    by simp
  from twin_adapter_event [OF t e]
  have t': "twin_adapter s s' (a\<lparr>events := events a @ [ResolveTxt servers name]\<rparr>)
              (a'\<lparr>events := events a' @ [ResolveTxt servers name]\<rparr>)" .
  then have "twin s s' (events a @ [ResolveTxt servers name]) (events a' @ [ResolveTxt servers name])"
    by (simp add: twin_adapter_def)
  with o have "resolveTxt out (events a @ [ResolveTxt servers name]) =
               resolveTxt out' (events a' @ [ResolveTxt servers name])"
    by (simp add: same_asks_def)
  with t' show "fst (lookupTxt servers name out a) = fst (lookupTxt servers name out' a') \<and>
        twin_adapter s s' (snd (lookupTxt servers name out a)) (snd (lookupTxt servers name out' a'))"
    by (simp add: lookupTxt_def Let_def)
qed

lemma kept_stringified: "kept s s' (stringified v)"
  by (simp add: kept_def stringified_def same_asks_def)

lemma kept_cfg:
  assumes "k \<noteq> ''dns01OapiKey''" and "k \<noteq> ''dns01OapiPassword''"
  shows "kept s s' (cfg k)"
  unfolding cfg_def
proof (rule kept_gets)
  fix a a'
  assume "twin_adapter s s' a a'"
  then have "twin_entries ''dns01OapiKey'' ''dns01OapiPassword'' s s' (this_config a) (this_config a')"
    by (simp add: twin_adapter_def)
  from twin_entries_lookup [OF this assms]
  show "lookup_last (this_config a) k = lookup_last (this_config a') k" .
qed

lemma kept_if:
  assumes "c \<Longrightarrow> kept s s' m" and "\<not> c \<Longrightarrow> kept s s' n"
  shows "kept s s' (if c then m else n)"
  using assms by simp

lemma kept_terminate: "kept s s' (terminate reason)"
  unfolding terminate_def
  by (intro kept_seq kept_call kept_ret) (simp add: creates_handler_def)

lemma kept_for_each:
  assumes "\<And>x. kept s s' (body x)"
  shows "kept s s' (for_each xs body)"
  by (induction xs) (simp_all add: kept_ret kept_seq assms)

lemma kept_filter_with:
  assumes "\<And>x. kept s s' (p x)"
  shows "kept s s' (filter_with p xs)"
  by (induction xs) (simp_all add: kept_ret kept_bnd assms)

lemma kept_map_with:
  assumes "\<And>x. kept s s' (f x)"
  shows "kept s s' (map_with f xs)"
  by (induction xs) (simp_all add: kept_ret kept_bnd assms)

lemma kept_case_option:
  assumes "x = None \<Longrightarrow> kept s s' m" and "\<And>y. x = Some y \<Longrightarrow> kept s s' (f y)"
  shows "kept s s' (case x of None \<Rightarrow> m | Some y \<Rightarrow> f y)"
  using assms by (cases x) simp_all

lemma kept_case_sum:
  assumes "\<And>e. x = Inl e \<Longrightarrow> kept s s' (f e)" and "\<And>y. x = Inr y \<Longrightarrow> kept s s' (g y)"
  shows "kept s s' (case x of Inl e \<Rightarrow> f e | Inr y \<Rightarrow> g y)"
  using assms by (cases x) simp_all

lemma kept_case_prod:
  assumes "\<And>x y. p = (x, y) \<Longrightarrow> kept s s' (f x y)"
  shows "kept s s' (case p of (x, y) \<Rightarrow> f x y)"
  using assms by (cases p) simp

lemma kept_case_json:
  assumes "v = JUndefined \<Longrightarrow> kept s s' m1" and "v = JNull \<Longrightarrow> kept s s' m2"
    and "\<And>b. v = JBool b \<Longrightarrow> kept s s' (m3 b)" and "\<And>n. v = JNum n \<Longrightarrow> kept s s' (m4 n)"
    and "\<And>t. v = JStr t \<Longrightarrow> kept s s' (m5 t)" and "\<And>xs. v = JArr xs \<Longrightarrow> kept s s' (m6 xs)"
    and "\<And>kvs. v = JObj kvs \<Longrightarrow> kept s s' (m7 kvs)"
  shows "kept s s' (case_json m1 m2 m3 m4 m5 m6 m7 v)"
  using assms by (cases v) simp_all

lemma kept_let:
  assumes "kept s s' (f x)"
  shows "kept s s' (let y = x in f y)"
  using assms by simp

lemmas kept_steps =
  kept_case_option kept_case_sum kept_case_prod kept_case_json kept_let
  kept_ret kept_throw kept_lift kept_bnd kept_seq kept_catch kept_finally_do kept_log_at
  kept_sleep kept_lookupTxt kept_stringified kept_if kept_terminate kept_for_each
  kept_filter_with kept_map_with

lemma kept_switch_adapter: "kept s s' (switch_adapter verb enabled adapterId)"
  unfolding switch_adapter_def
  by (intro kept_steps kept_call) (simp_all add: creates_handler_def)

lemma kept_restore: "kept s s' restoreAdaptersOnSamePort"
  unfolding restoreAdaptersOnSamePort_def
  by (intro kept_steps kept_gets kept_modify kept_switch_adapter | simp add: twin_adapter_def)+

lemmas kept_plain = kept_steps kept_call kept_cfg kept_gets kept_modify

lemma kept_same_bind: "kept s s' (same_bind instance_bind bind)"
  unfolding same_bind_def by (intro kept_plain)

lemma kept_conflicting: "kept s s' (conflicting us host bind port instance)"
  unfolding conflicting_def by (intro kept_plain kept_same_bind)

lemma kept_rows_of: "kept s s' (rows_of result)"
  unfolding rows_of_def by (intro kept_plain)

lemma kept_stopAdaptersOnSamePort: "kept s s' stopAdaptersOnSamePort"
  unfolding stopAdaptersOnSamePort_def
  by (intro kept_plain kept_rows_of kept_conflicting kept_switch_adapter
      | simp add: twin_adapter_def creates_handler_def)+

lemma kept_read_collection: "kept s s' (read_collection c)"
  unfolding read_collection_def by (intro kept_plain)

lemma kept_toISOString: "kept s s' (toISOString ms)"
  unfolding toISOString_def by (intro kept_plain | simp add: creates_handler_def)+

lemma kept_check_existing: "kept s s' (check_existing ident coll domains existingCollection)"
  unfolding check_existing_def by (intro kept_plain | simp add: creates_handler_def)+

lemma kept_decide_create: "kept s s' (decide_create c ident coll domains)"
  unfolding decide_create_def
  by (intro kept_plain kept_toISOString kept_check_existing
      | simp add: twin_adapter_def creates_handler_def)+

lemma kept_collection_to_set: "kept s s' (collection_to_set ident domains serverPem pems)"
  unfolding collection_to_set_def
  by (intro kept_plain | simp add: twin_adapter_def creates_handler_def)+

lemma kept_order_certificate: "kept s s' (order_certificate c ident domains)"
  unfolding order_certificate_def
  by (intro kept_plain kept_stopAdaptersOnSamePort kept_collection_to_set kept_toISOString
      | simp add: twin_adapter_def creates_handler_def)+

lemma kept_generateCollection: "kept s s' (generateCollection c)"
  unfolding generateCollection_def
  by (intro kept_plain kept_read_collection kept_decide_create kept_order_certificate)

lemma kept_acmeNotify: "kept s s' (acmeNotify ev msg)"
  unfolding acmeNotify_def by (intro kept_plain)

lemma kept_ns_addresses: "kept s s' (ns_addresses names)"
proof (induction names)
  case Nil
  show ?case by (simp add: kept_ret)
next
  case (Cons ns rest)
  show ?case
    unfolding ns_addresses.simps
    by (intro kept_plain Cons.IH | simp add: creates_handler_def)+
qed

lemma kept_choose_resolver: "kept s s' (choose_resolver zone)"
  unfolding choose_resolver_def
  by (intro kept_plain kept_ns_addresses | simp add: creates_handler_def)+

lemma kept_poll_authoritative:
  "kept s s' (poll_authoritative resolver ch maxAttempts retryDelayMs attempts)"
proof (induction attempts)
  case Nil
  show ?case by (simp add: kept_ret)
next
  case (Cons attempt rest)
  show ?case
    unfolding poll_authoritative.simps by (intro kept_plain Cons.IH)
qed

lemma kept_poll_public: "kept s s' (poll_public ch maxPublicAttempts retryDelayMs attempts)"
proof (induction attempts)
  case Nil
  show ?case by (simp add: kept_ret)
next
  case (Cons attempt rest)
  show ?case
    unfolding poll_public.simps by (intro kept_plain Cons.IH)
qed

lemma kept_pollDns01Challenge: "kept s s' (pollDns01Challenge ch)"
  unfolding pollDns01Challenge_def Let_def
  by (intro kept_plain kept_choose_resolver kept_poll_authoritative kept_poll_public)

lemma kept_load_account: "kept s s' (load_account maintainerEmail useStaging)"
  unfolding load_account_def
  by (intro kept_plain | simp add: twin_adapter_def creates_handler_def)+

lemma kept_register_account: "kept s s' (register_account maintainerEmail useStaging)"
  unfolding register_account_def
  by (intro kept_plain | simp add: twin_adapter_def creates_handler_def)+

lemma kept_initAcme: "kept s s' initAcme"
  unfolding initAcme_def
  by (intro kept_plain kept_load_account kept_register_account
      | simp add: twin_adapter_def creates_handler_def)+

lemma kept_purge_collection: "kept s s' (purge_collection entry)"
  unfolding purge_collection_def
  by (intro kept_plain | simp add: twin_adapter_def creates_handler_def)+

lemma kept_purge_collections: "kept s s' purge_collections"
  unfolding purge_collections_def
  by (intro kept_plain kept_purge_collection | simp add: creates_handler_def)+

subsection \<open>The steps that read the secrets\<close>

lemma sensitive_names:
  "sensitive_key ''apiKey'' \<and> sensitive_key ''apiPassword'' \<and>
   sensitive_key ''dns01OapiKey'' \<and> sensitive_key ''dns01OapiPassword''"
  by (simp add: sensitive_key_def lower_char_def less_eq_char_def)

lemma mask_secret: "sensitive_key n \<Longrightarrow> k \<noteq> [] \<Longrightarrow> mask_value n (JStr k) = JStr ''***''"
  by (simp add: mask_value_def)

lemma twin_entries_safe_copy:
  assumes "twin_entries kn pn s s' kvs kvs'" and "sensitive_key kn" and "sensitive_key pn"
    and "fst s \<noteq> []" and "snd s \<noteq> []" and "fst s' \<noteq> []" and "snd s' \<noteq> []"
  shows "safe_copy kvs = safe_copy kvs'"
  using assms(1) unfolding twin_entries_def
proof (induction kvs kvs' rule: list_all2_induct)
  case Nil
  show ?case by (simp add: safe_copy_def)
next
  case (Cons x xs y ys)
  obtain n v where x: "x = (n, v)" by (cases x)
  obtain n' v' where y: "y = (n', v')" by (cases y)
  from Cons.hyps(1) have nn: "n' = n"
    by (simp add: x y)
  from Cons.hyps(1) have mm: "mask_value n v = mask_value n v'"
    unfolding x y using assms(2-7) by (auto simp: mask_secret split: if_splits)
  from Cons.IH show ?case
    by (simp add: safe_copy_def x y nn mm)
qed

lemma twin_entries_masked:
  assumes "twin_entries kn pn s s' kvs kvs'" and "sensitive_key kn" and "sensitive_key pn"
    and "fst s \<noteq> []" and "snd s \<noteq> []"
  shows "list_all (\<lambda>(k, v). k = kn \<or> k = pn \<longrightarrow> v = JStr ''***'') (safe_copy kvs)"
  using assms(1) unfolding twin_entries_def
proof (induction kvs kvs' rule: list_all2_induct)
  case Nil
  show ?case by (simp add: safe_copy_def)
next
  case (Cons x xs y ys)
  obtain n v where x: "x = (n, v)" by (cases x)
  obtain n' v' where y: "y = (n', v')" by (cases y)
  from Cons.hyps(1) have "n = kn \<or> n = pn \<longrightarrow> mask_value n v = JStr ''***''"
    unfolding x y using assms(2-5) by (auto simp: mask_secret split: if_splits)
  with Cons.IH show ?case
    by (simp add: safe_copy_def x)
qed

lemma startsWith_drop: "startsWith n p \<Longrightarrow> n = p @ drop (length p) n"
  by (induction n p rule: startsWith.induct) simp_all

lemma option_of_key:
  assumes "startsWith n ''dns01O''"
  shows "drop 6 n = ''apiKey'' \<longleftrightarrow> n = ''dns01OapiKey''"
    and "drop 6 n = ''apiPassword'' \<longleftrightarrow> n = ''dns01OapiPassword''"
proof -
  have n: "n = ''dns01O'' @ drop 6 n"
    using startsWith_drop [OF assms] by (simp add: eval_nat_numeral)
  show "drop 6 n = ''apiKey'' \<longleftrightarrow> n = ''dns01OapiKey''"
  proof
    assume "drop 6 n = ''apiKey''"
    with n have "n = ''dns01O'' @ ''apiKey''" by metis
    then show "n = ''dns01OapiKey''" by simp
  next
    assume "n = ''dns01OapiKey''"
    then show "drop 6 n = ''apiKey''" by simp
  qed
  show "drop 6 n = ''apiPassword'' \<longleftrightarrow> n = ''dns01OapiPassword''"
  proof
    assume "drop 6 n = ''apiPassword''"
    with n have "n = ''dns01O'' @ ''apiPassword''" by metis
    then show "n = ''dns01OapiPassword''" by simp
  next
    assume "n = ''dns01OapiPassword''"
    then show "drop 6 n = ''apiPassword''" by simp
  qed
qed

lemma twin_entries_options:
  assumes "twin_entries ''dns01OapiKey'' ''dns01OapiPassword'' s s' c c'"
  shows "twin_entries ''apiKey'' ''apiPassword'' s s'
           [(drop 6 key, v). (key, v) \<leftarrow> c, startsWith key ''dns01O'']
           [(drop 6 key, v). (key, v) \<leftarrow> c', startsWith key ''dns01O'']"
  using assms unfolding twin_entries_def
proof (induction c c' rule: list_all2_induct)
  case Nil
  show ?case by simp
next
  case (Cons x xs y ys)
  obtain n v where x: "x = (n, v)" by (cases x)
  obtain n' v' where y: "y = (n', v')" by (cases y)
  from Cons.hyps(1) have nn: "n' = n" by (simp add: x y)
  show ?case
  proof (cases "startsWith n ''dns01O''")
    case False
    with Cons.IH show ?thesis by (simp add: x y nn)
  next
    case True
    from Cons.hyps(1) True Cons.IH show ?thesis
      unfolding x y nn by (simp add: option_of_key [OF True] split: if_splits)
  qed
qed

lemma twin_entries_assign:
  assumes "twin_entries kn pn s s' kvs kvs'" and "k \<noteq> kn" and "k \<noteq> pn"
  shows "twin_entries kn pn s s' (assign kvs k v) (assign kvs' k v)"
proof -
  have keys: "fst ` set kvs = fst ` set kvs'"
    using twin_entries_keys [OF assms(1)] by (metis set_map)
  have m: "list_all2 (\<lambda>(n, v) (n', v'). n = n' \<and>
             (if n = kn then v = JStr (fst s) \<and> v' = JStr (fst s')
              else if n = pn then v = JStr (snd s) \<and> v' = JStr (snd s')
              else v = v'))
            (map (\<lambda>(k', v'). if k' = k then (k', v) else (k', v')) kvs)
            (map (\<lambda>(k', v'). if k' = k then (k', v) else (k', v')) kvs')"
    using assms(1) unfolding twin_entries_def
  proof (induction kvs kvs' rule: list_all2_induct)
    case Nil
    show ?case by simp
  next
    case (Cons x xs y ys)
    then show ?case
      using assms(2,3) by (cases x; cases y) (auto split: if_splits)
  qed
  show ?thesis
  proof (cases "k \<in> fst ` set kvs")
    case True
    with keys m show ?thesis by (simp add: assign_def twin_entries_def)
  next
    case False
    with keys assms show ?thesis
      by (simp add: assign_def twin_entries_def list_all2_appendI)
  qed
qed

lemma twin_dns01Options:
  assumes "twin_entries ''dns01OapiKey'' ''dns01OapiPassword'' s s' c c'"
  shows "twin_entries ''apiKey'' ''apiPassword'' s s' (dns01Options c) (dns01Options c')"
proof -
  have m: "lookup_last c ''dns01Module'' = lookup_last c' ''dns01Module''"
    using twin_entries_lookup [OF assms] by simp
  show ?thesis
    unfolding dns01Options_def Let_def m
    using twin_entries_options [OF assms]
    by (simp add: twin_entries_assign del: concat_map_singleton)
qed

lemma dns01Props_twin:
  assumes "twin_entries ''dns01OapiKey'' ''dns01OapiPassword'' s s' c c'"
  shows "dns01Props c = dns01Props c'"
  using assms unfolding twin_entries_def dns01Props_def
proof (induction c c' rule: list_all2_induct)
  case Nil
  show ?case by simp
next
  case (Cons x xs y ys)
  then show ?case
    by (cases x; cases y) (auto split: if_splits)
qed

lemma twin_entries_secret:
  assumes "twin_entries kn pn s s' kvs kvs'" and "kn \<noteq> pn"
  shows "(lookup_last kvs kn = JUndefined \<and> lookup_last kvs' kn = JUndefined \<or>
          lookup_last kvs kn = JStr (fst s) \<and> lookup_last kvs' kn = JStr (fst s')) \<and>
         (lookup_last kvs pn = JUndefined \<and> lookup_last kvs' pn = JUndefined \<or>
          lookup_last kvs pn = JStr (snd s) \<and> lookup_last kvs' pn = JStr (snd s'))"
  using assms(1) unfolding twin_entries_def
proof (induction kvs kvs' rule: list_all2_induct)
  case Nil
  show ?case by simp
next
  case (Cons x xs y ys)
  from Cons.hyps(2) have "map fst xs = map fst ys"
    using twin_entries_keys [of kn pn s s' xs ys] by (simp add: twin_entries_def)
  then have "fst ` set xs = fst ` set ys"
    by (metis set_map)
  with Cons assms(2) show ?case
    by (cases x; cases y) (auto split: if_splits)
qed

lemma option_text_secret: "option_text (JStr k) = k"
  by (simp add: option_text_def)

lemma create_twin_options:
  assumes "twin_entries ''apiKey'' ''apiPassword'' s s' options options'"
    and "fst s \<noteq> []" and "snd s \<noteq> []" and "fst s' \<noteq> []" and "snd s' \<noteq> []"
    and "twin s s' st st'"
  shows "fst (create st (NetcupOptions_of options)) = fst (create st' (NetcupOptions_of options')) \<and>
         twin s s' (snd (create st (NetcupOptions_of options)))
                   (snd (create st' (NetcupOptions_of options')))"
proof -
  have cn: "lookup_last options ''customerNumber'' = lookup_last options' ''customerNumber''"
    using twin_entries_lookup [OF assms(1)] by simp
  from twin_entries_secret [OF assms(1)]
  have k: "lookup_last options ''apiKey'' = JUndefined \<and> lookup_last options' ''apiKey'' = JUndefined \<or>
           lookup_last options ''apiKey'' = JStr (fst s) \<and> lookup_last options' ''apiKey'' = JStr (fst s')"
    and p: "lookup_last options ''apiPassword'' = JUndefined \<and>
              lookup_last options' ''apiPassword'' = JUndefined \<or>
            lookup_last options ''apiPassword'' = JStr (snd s) \<and>
              lookup_last options' ''apiPassword'' = JStr (snd s')"
    by simp_all
  have e: "apiKey (NetcupOptions_of options) = [] \<longleftrightarrow> apiKey (NetcupOptions_of options') = []"
    using k assms(2,4) by (auto simp: NetcupOptions_of_def option_text_def)
  have e': "apiPassword (NetcupOptions_of options) = [] \<longleftrightarrow> apiPassword (NetcupOptions_of options') = []"
    using p assms(3,5) by (auto simp: NetcupOptions_of_def option_text_def)
  have c: "customerNumber (NetcupOptions_of options) = customerNumber (NetcupOptions_of options')"
    by (simp add: NetcupOptions_of_def cn)
  show ?thesis
    using assms(6) e e' c by (simp add: create_def create_message_def twin_snoc)
qed

lemma kept_netcup_create:
  assumes "fst s \<noteq> []" and "snd s \<noteq> []" and "fst s' \<noteq> []" and "snd s' \<noteq> []"
  shows "kept s s' netcup_create"
proof (rule keptI)
  fix out out' a a'
  assume o: "same_asks s s' out out'" and t: "twin_adapter s s' a a'"
  let ?o = "NetcupOptions_of (dns01Options (this_config a))"
  let ?o' = "NetcupOptions_of (dns01Options (this_config a'))"
  from t have c: "twin_entries ''apiKey'' ''apiPassword'' s s'
                    (dns01Options (this_config a)) (dns01Options (this_config a'))"
    by (simp add: twin_adapter_def twin_dns01Options)
  from t have e: "twin s s' (events a) (events a')"
    by (simp add: twin_adapter_def)
  obtain r st where cr: "create (events a) ?o = (r, st)" by (cases "create (events a) ?o")
  obtain r' st' where cr': "create (events a') ?o' = (r', st')" by (cases "create (events a') ?o'")
  from create_twin_options [OF c assms e] cr cr' have rr: "r' = r" and ss: "twin s s' st st'"
    by simp_all
  from t ss have "twin_adapter s s' (a\<lparr>events := st\<rparr>) (a'\<lparr>events := st'\<rparr>)"
    by (simp add: twin_adapter_def)
  then show "fst (netcup_create out a) = fst (netcup_create out' a') \<and>
        twin_adapter s s' (snd (netcup_create out a)) (snd (netcup_create out' a'))"
    by (cases r) (simp_all add: netcup_create_def cr cr' rr)
qed

lemma kept_module_create:
  assumes "creates_handler name"
  shows "kept s s' (module_create name)"
proof (rule keptI)
  fix out out' a a'
  assume o: "same_asks s s' out out'" and t: "twin_adapter s s' a a'"
  let ?e = "Ask name [JObj (dns01Options (this_config a))]"
  let ?e' = "Ask name [JObj (dns01Options (this_config a'))]"
  from t have "twin_entries ''apiKey'' ''apiPassword'' s s'
                 (dns01Options (this_config a)) (dns01Options (this_config a'))"
    by (simp add: twin_adapter_def twin_dns01Options)
  with assms have e: "twin_event s s' ?e ?e'"
    by simp
  from twin_adapter_event [OF t e]
  have t': "twin_adapter s s' (a\<lparr>events := events a @ [?e]\<rparr>) (a'\<lparr>events := events a' @ [?e']\<rparr>)" .
  then have "twin s s' (events a @ [?e]) (events a' @ [?e'])"
    by (simp add: twin_adapter_def)
  with o have "ask out (events a @ [?e]) = ask out' (events a' @ [?e'])"
    by (simp add: same_asks_def)
  with t' show "fst (module_create name out a) = fst (module_create name out' a') \<and>
        twin_adapter s s' (snd (module_create name out a)) (snd (module_create name out' a'))"
    by (simp add: module_create_def bnd_def gets_def call_def Let_def split: answer.splits)
qed

lemma kept_load_dns01:
  assumes "fst s \<noteq> []" and "snd s \<noteq> []" and "fst s' \<noteq> []" and "snd s' \<noteq> []"
  shows "kept s s' load_dns01"
  unfolding load_dns01_def
  by (intro kept_plain kept_netcup_create kept_module_create assms
      | simp add: creates_handler_def)+

lemma kept_init_http01: "kept s s' init_http01"
  unfolding init_http01_def
  by (intro kept_plain | simp add: twin_adapter_def creates_handler_def)+

lemma kept_init_dns01:
  assumes "fst s \<noteq> []" and "snd s \<noteq> []" and "fst s' \<noteq> []" and "snd s' \<noteq> []"
  shows "kept s s' init_dns01"
proof -
  have safe: "safe_copy (dns01Options (this_config a)) = safe_copy (dns01Options (this_config a'))"
    if "twin_adapter s s' a a'" for a a'
  proof -
    from that have "twin_entries ''apiKey'' ''apiPassword'' s s'
                      (dns01Options (this_config a)) (dns01Options (this_config a'))"
      by (simp add: twin_adapter_def twin_dns01Options)
    from twin_entries_safe_copy [OF this _ _ assms] sensitive_names show ?thesis
      by simp
  qed
  have props: "dns01Props (this_config a) = dns01Props (this_config a')"
    if "twin_adapter s s' a a'" for a a'
    using that dns01Props_twin [of s s' "this_config a" "this_config a'"]
    by (simp add: twin_adapter_def)
  show ?thesis
    unfolding init_dns01_def
    by (intro kept_plain kept_load_dns01 assms safe props
        | simp add: twin_adapter_def)+
qed

lemma kept_initChallenges:
  assumes "fst s \<noteq> []" and "snd s \<noteq> []" and "fst s' \<noteq> []" and "snd s' \<noteq> []"
  shows "kept s s' initChallenges"
  unfolding initChallenges_def
  by (intro kept_plain kept_init_http01 kept_init_dns01 assms | simp)+

lemma kept_order_collections:
  assumes "fst s \<noteq> []" and "snd s \<noteq> []" and "fst s' \<noteq> []" and "snd s' \<noteq> []"
  shows "kept s s' order_collections"
  unfolding order_collections_def
  by (intro kept_plain kept_initChallenges kept_initAcme kept_generateCollection assms
      | simp add: twin_adapter_def)+

lemma kept_onReady:
  assumes "fst s \<noteq> []" and "snd s \<noteq> []" and "fst s' \<noteq> []" and "snd s' \<noteq> []"
  shows "kept s s' onReady"
proof -
  have safe: "safe_copy (this_config a) = safe_copy (this_config a')"
    if "twin_adapter s s' a a'" for a a'
  proof -
    from that have "twin_entries ''dns01OapiKey'' ''dns01OapiPassword'' s s'
                      (this_config a) (this_config a')"
      by (simp add: twin_adapter_def)
    from twin_entries_safe_copy [OF this _ _ assms] sensitive_names show ?thesis
      by simp
  qed
  show ?thesis
    unfolding onReady_def
    by (intro kept_plain kept_order_collections kept_purge_collections kept_restore assms safe
        | simp add: twin_adapter_def creates_handler_def)+
qed

lemma kept_onUnload: "kept s s' onUnload"
  unfolding onUnload_def
  by (intro kept_plain kept_restore | simp add: twin_adapter_def creates_handler_def)+

subsection \<open>The handler in two runs\<close>

lemma twin_login_param:
  "twin_object ''apikey'' ''apipassword'' K K' (login_param cn (fst K) (snd K))
     (login_param cn (fst K') (snd K'))"
  by (simp add: login_param_def twin_entries_def)

lemma twin_session_param:
  "twin_object ''apikey'' ''apipassword'' K K' (session_param cn (fst K) sid)
     (session_param cn (fst K') sid)"
  by (simp add: session_param_def twin_entries_def)

lemma twin_zone_param:
  "twin_object ''apikey'' ''apipassword'' K K' (zone_param cn (fst K) sid d)
     (zone_param cn (fst K') sid d)"
  by (simp add: zone_param_def twin_entries_def)

lemma twin_update_param:
  "twin_object ''apikey'' ''apipassword'' K K' (update_param cn (fst K) sid d rs)
     (update_param cn (fst K') sid d rs)"
  by (simp add: update_param_def twin_entries_def)

lemma twin_log: "twin K K' st st' \<Longrightarrow> twin K K' (st @ [Log l m]) (st' @ [Log l m])"
  by (simp add: twin_snoc)

lemma apiCall_twin:
  assumes "same_answers K K' w w'" and "twin K K' st st'"
    and "twin_object ''apikey'' ''apipassword'' K K' p p'"
  shows "fst (apiCall w st action p t) = fst (apiCall w' st' action p' t) \<and>
         twin K K' (st @ [Fetch action p]) (st' @ [Fetch action p'])"
proof -
  have a: "twin K K' (st @ [Fetch action p]) (st' @ [Fetch action p'])"
    using assms(2,3) by (simp add: twin_snoc)
  with assms(1) have "fetch w (st @ [Fetch action p]) = fetch w' (st' @ [Fetch action p'])"
    by (simp add: same_answers_def)
  then have "fst (apiCall w st action p t) = fst (apiCall w' st' action p' t)"
    by (simp add: apiCall_def Let_def split: api_response.splits)
  with a show ?thesis by simp
qed

lemma login_twin:
  assumes "same_answers K K' w w'" and "twin K K' st st'"
  shows "fst (login w st cn (fst K) (snd K)) = fst (login w' st' cn (fst K') (snd K')) \<and>
         twin K K' (snd (login w st cn (fst K) (snd K))) (snd (login w' st' cn (fst K') (snd K')))"
proof -
  have a: "fst (apiCall w st ''login'' (login_param cn (fst K) (snd K)) True) =
             fst (apiCall w' st' ''login'' (login_param cn (fst K') (snd K')) True) \<and>
           twin K K' (st @ [Fetch ''login'' (login_param cn (fst K) (snd K))])
                 (st' @ [Fetch ''login'' (login_param cn (fst K') (snd K'))])"
    by (rule apiCall_twin [OF assms twin_login_param])
  have "fst (login w st cn (fst K) (snd K)) = fst (login w' st' cn (fst K') (snd K'))"
    using a by (simp add: login_def case_apiCall split: sum.splits)
  moreover have "twin K K' (snd (login w st cn (fst K) (snd K)))
                   (snd (login w' st' cn (fst K') (snd K')))"
    using a by (simp add: login_snd)
  ultimately show ?thesis by simp
qed

lemma logout_twin:
  assumes "twin K K' st st'"
  shows "twin K K' (logout w st cn (fst K) sid) (logout w' st' cn (fst K') sid)"
  using assms twin_session_param [of K K' cn sid] by (simp add: logout_eq twin_snoc)

lemma findZone_loop_twin:
  assumes "same_answers K K' w w'"
  shows "twin K K' st st' \<Longrightarrow>
         fst (findZone_loop w st fd parts cn (fst K) sid is) =
           fst (findZone_loop w' st' fd parts cn (fst K') sid is) \<and>
         twin K K' (snd (findZone_loop w st fd parts cn (fst K) sid is))
                   (snd (findZone_loop w' st' fd parts cn (fst K') sid is))"
proof (induction "is" arbitrary: st st')
  case Nil
  then show ?case by simp
next
  case (Cons i rest)
  let ?c = "join ''.'' (drop i parts)"
  let ?p = "zone_param cn (fst K) sid ?c"
  let ?p' = "zone_param cn (fst K') sid ?c"
  have a: "fst (apiCall w st ''infoDnsZone'' ?p False) = fst (apiCall w' st' ''infoDnsZone'' ?p' False) \<and>
           twin K K' (st @ [Fetch ''infoDnsZone'' ?p]) (st' @ [Fetch ''infoDnsZone'' ?p'])"
    by (rule apiCall_twin [OF assms Cons.prems twin_zone_param])
  let ?r = "fst (apiCall w st ''infoDnsZone'' ?p False)"
  have r': "fst (apiCall w' st' ''infoDnsZone'' ?p' False) = ?r"
    using a by simp
  have al: "twin K K' (st @ [Fetch ''infoDnsZone'' ?p]) (st' @ [Fetch ''infoDnsZone'' ?p'])"
    using a by simp
  show ?case
  proof (cases ?r)
    case (Inl e)
    then show ?thesis
      using al by (simp add: case_apiCall r' Let_def)
  next
    case (Inr v)
    show ?thesis
    proof (cases "zone_accepted v")
      case True
      with Inr show ?thesis
        using twin_log [OF al, of Warn "found_message fd ?c (hostname_of (take i parts))"]
        by (simp add: case_apiCall r' Let_def)
    next
      case False
      with Inr show ?thesis
        using Cons.IH [OF al] by (simp add: case_apiCall r' Let_def)
    qed
  qed
qed

lemma findZone_twin:
  assumes "same_answers K K' w w'" and "twin K K' st st'"
  shows "fst (findZone w st fullHost cn (fst K) sid) = fst (findZone w' st' fullHost cn (fst K') sid) \<and>
         twin K K' (snd (findZone w st fullHost cn (fst K) sid))
                   (snd (findZone w' st' fullHost cn (fst K') sid))"
proof -
  let ?parts = "split_on CHR ''.'' fullHost"
  let ?n = "[1..<length ?parts - 1]"
  obtain r s where l: "findZone_loop w st fullHost ?parts cn (fst K) sid ?n = (r, s)"
    by (cases "findZone_loop w st fullHost ?parts cn (fst K) sid ?n")
  obtain r' s' where l': "findZone_loop w' st' fullHost ?parts cn (fst K') sid ?n = (r', s')"
    by (cases "findZone_loop w' st' fullHost ?parts cn (fst K') sid ?n")
  from findZone_loop_twin [OF assms, of fullHost ?parts cn sid ?n] l l'
  have rr: "r' = r" and ss: "twin K K' s s'" by simp_all
  show ?thesis
    unfolding findZone_def Let_def l l' rr
    using ss by (auto simp: twin_log split: sum.splits option.splits)
qed

lemma set_body_twin:
  assumes "same_answers K K' w w'" and "twin K K' st st'"
  shows "fst (set_body w st cn (fst K) sid ch) = fst (set_body w' st' cn (fst K') sid ch) \<and>
         twin K K' (snd (set_body w st cn (fst K) sid ch)) (snd (set_body w' st' cn (fst K') sid ch))"
proof -
  obtain r s where f: "findZone w st (dnsHost ch) cn (fst K) sid = (r, s)"
    by (cases "findZone w st (dnsHost ch) cn (fst K) sid")
  obtain r' s' where f': "findZone w' st' (dnsHost ch) cn (fst K') sid = (r', s')"
    by (cases "findZone w' st' (dnsHost ch) cn (fst K') sid")
  from findZone_twin [OF assms, of "dnsHost ch" cn sid] f f'
  have rr: "r' = r" and ss: "twin K K' s s'" by simp_all
  have str: "stringify w' = stringify w"
    using assms(1) by (simp add: same_answers_def)
  show ?thesis
  proof (cases r)
    case (Inl e)
    then show ?thesis
      using ss by (simp add: set_body_def f f' rr)
  next
    case (Inr z)
    obtain rootDomain hostname where z: "z = (rootDomain, hostname)" by (cases z)
    let ?m = "Log Warn (creating_message hostname rootDomain)"
    let ?rs = "[txt_record hostname (dnsAuthorization ch)]"
    let ?p = "update_param cn (fst K) sid rootDomain ?rs"
    let ?p' = "update_param cn (fst K') sid rootDomain ?rs"
    have s2: "twin K K' (s @ [?m]) (s' @ [?m])"
      using ss by (rule twin_log)
    have a: "fst (apiCall w (s @ [?m]) ''updateDnsRecords'' ?p True) =
             fst (apiCall w' (s' @ [?m]) ''updateDnsRecords'' ?p' True) \<and>
             twin K K' ((s @ [?m]) @ [Fetch ''updateDnsRecords'' ?p])
                       ((s' @ [?m]) @ [Fetch ''updateDnsRecords'' ?p'])"
      by (rule apiCall_twin [OF assms(1) s2 twin_update_param])
    let ?u = "fst (apiCall w (s @ [?m]) ''updateDnsRecords'' ?p True)"
    have u': "fst (apiCall w' (s' @ [?m]) ''updateDnsRecords'' ?p' True) = ?u"
      using a by simp
    have s3: "twin K K' (s @ [?m, Fetch ''updateDnsRecords'' ?p])
                        (s' @ [?m, Fetch ''updateDnsRecords'' ?p'])"
      using a by simp
    show ?thesis
    proof (cases ?u)
      case (Inl e)
      then show ?thesis
        using s3 by (simp add: set_body_def f f' rr Inr z case_apiCall u' Let_def)
    next
      case (Inr setResult)
      then show ?thesis
        using twin_log [OF s3, of Warn "response_message (stringify w setResult)"]
        by (simp add: set_body_def f f' rr \<open>r = Inr z\<close> z case_apiCall u' Let_def str)
    qed
  qed
qed

lemma set_poll_twin:
  assumes "same_answers K K' w w'"
  shows "twin K K' st st' \<Longrightarrow>
         fst (set_poll w st host m d attempts) = fst (set_poll w' st' host m d attempts) \<and>
         twin K K' (snd (set_poll w st host m d attempts)) (snd (set_poll w' st' host m d attempts))"
proof (induction attempts arbitrary: st st')
  case Nil
  then show ?case by simp
next
  case (Cons attempt rest)
  have s1: "twin K K' (st @ [ResolveTxt publicResolver host]) (st' @ [ResolveTxt publicResolver host])"
    using Cons.prems by (simp add: twin_snoc)
  with assms have r: "resolveTxt w' (st' @ [ResolveTxt publicResolver host]) =
                      resolveTxt w (st @ [ResolveTxt publicResolver host])"
    by (simp add: same_answers_def)
  show ?case
  proof (cases "resolveTxt w (st @ [ResolveTxt publicResolver host])")
    case (Inr results)
    then show ?thesis
      using twin_log [OF s1] by (simp add: r Let_def)
  next
    case (Inl err)
    let ?es = "[Log Warn (lookup_failed_message attempt m err), Sleep d]"
    have "twin K K' ((st @ [ResolveTxt publicResolver host]) @ ?es)
                    ((st' @ [ResolveTxt publicResolver host]) @ ?es)"
      using s1 by (rule twin_append) simp
    from Cons.IH [OF this] Inl show ?thesis
      by (simp add: r Let_def)
  qed
qed

lemma set_wait_twin:
  assumes "same_answers K K' w w'" and "twin K K' st st'"
  shows "fst (set_wait w st host) = fst (set_wait w' st' host) \<and>
         twin K K' (snd (set_wait w st host)) (snd (set_wait w' st' host))"
proof -
  let ?m = "[Log Warn (wait_message 30000 30)]"
  have s1: "twin K K' (st @ ?m) (st' @ ?m)"
    using assms(2) by (rule twin_log)
  obtain r s where p: "set_poll w (st @ ?m) host 30 30000 [1..<30 + 1] = (r, s)"
    by (cases "set_poll w (st @ ?m) host 30 30000 [1..<30 + 1]")
  obtain r' s' where p': "set_poll w' (st' @ ?m) host 30 30000 [1..<30 + 1] = (r', s')"
    by (cases "set_poll w' (st' @ ?m) host 30 30000 [1..<30 + 1]")
  from set_poll_twin [OF assms(1) s1, of host 30 30000 "[1..<30 + 1]"] p p'
  have "r' = r" "twin K K' s s'" by simp_all
  then show ?thesis
    unfolding set_wait_def Let_def p p' by (cases r) simp_all
qed

lemma set_challenge_twin:
  assumes "same_answers K K' w w'" and "twin K K' st st'" and "twin_options K K' opts opts'"
  shows "fst (set_challenge w st opts ch) = fst (set_challenge w' st' opts' ch) \<and>
         twin K K' (snd (set_challenge w st opts ch)) (snd (set_challenge w' st' opts' ch))"
proof -
  let ?cn = "customerNumber opts"
  from assms(3) have o: "apiKey opts = fst K" "apiPassword opts = snd K"
    "apiKey opts' = fst K'" "apiPassword opts' = snd K'" "customerNumber opts' = ?cn"
    by (auto simp: twin_options_def)
  let ?m = "[Log Warn (set_called ch)]"
  have s0: "twin K K' (st @ ?m) (st' @ ?m)"
    using assms(2) by (rule twin_log)
  obtain l s1 where lg: "login w (st @ ?m) ?cn (fst K) (snd K) = (l, s1)"
    by (cases "login w (st @ ?m) ?cn (fst K) (snd K)")
  obtain l' s1' where lg': "login w' (st' @ ?m) ?cn (fst K') (snd K') = (l', s1')"
    by (cases "login w' (st' @ ?m) ?cn (fst K') (snd K')")
  from login_twin [OF assms(1) s0, of ?cn] lg lg'
  have ll: "l' = l" and a1: "twin K K' s1 s1'" by simp_all
  show ?thesis
  proof (cases l)
    case (Inl err)
    then show ?thesis
      using twin_log [OF a1]
      by (simp add: set_challenge_def Let_def lg lg' ll o)
  next
    case (Inr sid)
    obtain b s2 where bd: "set_body w s1 ?cn (fst K) sid ch = (b, s2)"
      by (cases "set_body w s1 ?cn (fst K) sid ch")
    obtain b' s2' where bd': "set_body w' s1' ?cn (fst K') sid ch = (b', s2')"
      by (cases "set_body w' s1' ?cn (fst K') sid ch")
    from set_body_twin [OF assms(1) a1, of ?cn sid ch] bd bd'
    have bb: "b' = b" and a2: "twin K K' s2 s2'" by simp_all
    have a3: "twin K K' (logout w s2 ?cn (fst K) sid) (logout w' s2' ?cn (fst K') sid)"
      using a2 by (rule logout_twin)
    show ?thesis
      using a3 set_wait_twin [OF assms(1) a3, of "dnsHost ch"]
      by (cases b) (simp_all add: set_challenge_def Let_def lg lg' ll Inr bd bd' bb o)
  qed
qed

lemma remove_body_twin:
  assumes "same_answers K K' w w'" and "twin K K' st st'"
  shows "fst (remove_body w st cn (fst K) sid ch) = fst (remove_body w' st' cn (fst K') sid ch) \<and>
         twin K K' (snd (remove_body w st cn (fst K) sid ch))
                   (snd (remove_body w' st' cn (fst K') sid ch))"
proof -
  obtain r s where f: "findZone w st (dnsHost ch) cn (fst K) sid = (r, s)"
    by (cases "findZone w st (dnsHost ch) cn (fst K) sid")
  obtain r' s' where f': "findZone w' st' (dnsHost ch) cn (fst K') sid = (r', s')"
    by (cases "findZone w' st' (dnsHost ch) cn (fst K') sid")
  from findZone_twin [OF assms, of "dnsHost ch" cn sid] f f'
  have rr: "r' = r" and ss: "twin K K' s s'" by simp_all
  show ?thesis
  proof (cases r)
    case (Inl e)
    then show ?thesis
      using ss by (simp add: remove_body_def f f' rr)
  next
    case (Inr z)
    obtain rootDomain hostname where z: "z = (rootDomain, hostname)" by (cases z)
    let ?q = "zone_param cn (fst K) sid rootDomain"
    let ?q' = "zone_param cn (fst K') sid rootDomain"
    have a: "fst (apiCall w s ''infoDnsRecords'' ?q False) = fst (apiCall w' s' ''infoDnsRecords'' ?q' False) \<and>
             twin K K' (s @ [Fetch ''infoDnsRecords'' ?q]) (s' @ [Fetch ''infoDnsRecords'' ?q'])"
      by (rule apiCall_twin [OF assms(1) ss twin_zone_param])
    let ?d = "fst (apiCall w s ''infoDnsRecords'' ?q False)"
    have d': "fst (apiCall w' s' ''infoDnsRecords'' ?q' False) = ?d"
      using a by simp
    have s2: "twin K K' (s @ [Fetch ''infoDnsRecords'' ?q]) (s' @ [Fetch ''infoDnsRecords'' ?q'])"
      using a by simp
    have upd: "\<And>rs. fst (apiCall w (s @ [Fetch ''infoDnsRecords'' ?q]) ''updateDnsRecords''
                          (update_param cn (fst K) sid rootDomain rs) True) =
                    fst (apiCall w' (s' @ [Fetch ''infoDnsRecords'' ?q']) ''updateDnsRecords''
                          (update_param cn (fst K') sid rootDomain rs) True) \<and>
                    twin K K' ((s @ [Fetch ''infoDnsRecords'' ?q]) @
                             [Fetch ''updateDnsRecords'' (update_param cn (fst K) sid rootDomain rs)])
                          ((s' @ [Fetch ''infoDnsRecords'' ?q']) @
                             [Fetch ''updateDnsRecords'' (update_param cn (fst K') sid rootDomain rs)])"
      by (rule apiCall_twin [OF assms(1) s2 twin_update_param])
    show ?thesis
      unfolding remove_body_def f f' rr Inr z
      using s2 upd
      by (simp add: case_apiCall d' Let_def split: sum.splits json.splits)
  qed
qed

lemma remove_challenge_twin:
  assumes "same_answers K K' w w'" and "twin K K' st st'" and "twin_options K K' opts opts'"
  shows "fst (remove_challenge w st opts ch) = fst (remove_challenge w' st' opts' ch) \<and>
         twin K K' (snd (remove_challenge w st opts ch)) (snd (remove_challenge w' st' opts' ch))"
proof -
  let ?cn = "customerNumber opts"
  from assms(3) have o: "apiKey opts = fst K" "apiPassword opts = snd K"
    "apiKey opts' = fst K'" "apiPassword opts' = snd K'" "customerNumber opts' = ?cn"
    by (auto simp: twin_options_def)
  let ?m = "[Log Warn (remove_called ch)]"
  have s0: "twin K K' (st @ ?m) (st' @ ?m)"
    using assms(2) by (rule twin_log)
  obtain l s1 where lg: "login w (st @ ?m) ?cn (fst K) (snd K) = (l, s1)"
    by (cases "login w (st @ ?m) ?cn (fst K) (snd K)")
  obtain l' s1' where lg': "login w' (st' @ ?m) ?cn (fst K') (snd K') = (l', s1')"
    by (cases "login w' (st' @ ?m) ?cn (fst K') (snd K')")
  from login_twin [OF assms(1) s0, of ?cn] lg lg'
  have ll: "l' = l" and a1: "twin K K' s1 s1'" by simp_all
  show ?thesis
  proof (cases l)
    case (Inl err)
    then show ?thesis
      using a1 by (simp add: remove_challenge_def Let_def lg lg' ll o)
  next
    case (Inr sid)
    obtain b s2 where bd: "remove_body w s1 ?cn (fst K) sid ch = (b, s2)"
      by (cases "remove_body w s1 ?cn (fst K) sid ch")
    obtain b' s2' where bd': "remove_body w' s1' ?cn (fst K') sid ch = (b', s2')"
      by (cases "remove_body w' s1' ?cn (fst K') sid ch")
    from remove_body_twin [OF assms(1) a1, of ?cn sid ch] bd bd'
    have bb: "b' = b" and a2: "twin K K' s2 s2'" by simp_all
    have a3: "twin K K' (logout w s2 ?cn (fst K) sid) (logout w' s2' ?cn (fst K') sid)"
      using a2 by (rule logout_twin)
    show ?thesis
      using a3 by (simp add: remove_challenge_def Let_def lg lg' ll Inr bd bd' bb o)
  qed
qed

lemma get_challenge_twin:
  assumes "same_answers K K' w w'" and "twin K K' st st'"
  shows "fst (get_challenge w st ch) = fst (get_challenge w' st' ch) \<and>
         twin K K' (snd (get_challenge w st ch)) (snd (get_challenge w' st' ch))"
proof -
  let ?es = "[Log Warn (get_called ch), ResolveTxt publicResolver (dnsHost ch)]"
  have s1: "twin K K' (st @ ?es) (st' @ ?es)"
    using assms(2) by (rule twin_append) simp
  with assms(1) have r: "resolveTxt w' (st' @ ?es) = resolveTxt w (st @ ?es)"
    by (simp add: same_answers_def)
  show ?thesis
    using twin_log [OF s1]
    by (cases "resolveTxt w (st @ ?es)") (simp_all add: get_challenge_def Let_def r)
qed

lemma create_twin:
  assumes "twin K K' st st'" and "twin_options K K' opts opts'"
    and "fst K \<noteq> []" and "snd K \<noteq> []" and "fst K' \<noteq> []" and "snd K' \<noteq> []"
  shows "fst (create st opts) = fst (create st' opts') \<and>
         twin K K' (snd (create st opts)) (snd (create st' opts'))"
proof -
  from assms(2) have o: "apiKey opts = fst K" "apiPassword opts = snd K"
    "apiKey opts' = fst K'" "apiPassword opts' = snd K'" "customerNumber opts' = customerNumber opts"
    by (auto simp: twin_options_def)
  show ?thesis
    using assms(1,3-6) by (simp add: create_def create_message_def o twin_log)
qed

subsection \<open>The renewal decision inside \<open>generateCollection\<close>\<close>

text \<open>
  On the example of the renewal decision, the first part of \<open>generateCollection\<close> reads
  the configured collection as \<open>example_collection\<close>, comes to the value that
  \<open>generateCollection_create\<close> gives for it, and logs the reason: the alternative names
  differ, because the configuration repeats a name.
\<close>

lemma decide_create_example:
  "fst (read_collection example_collection_json renewal_outside example_adapter) =
     Inr example_collection \<and>
   fst (decide_create example_collection_json ''c1'' example_collection
          (domains_of example_collection) renewal_outside
          (example_adapter\<lparr>this_certManager := True\<rparr>)) =
     Inr (generateCollection_create example_x509 example_now False example_collection
            (domains_of example_collection) (Some example_existing)) \<and>
   logs (events (snd (decide_create example_collection_json ''c1'' example_collection
          (domains_of example_collection) renewal_outside
          (example_adapter\<lparr>this_certManager := True\<rparr>)))) =
     [(Debug, ''Existing collection '' @ quoted ''c1'' @
              '': domains=undefined, staging=false, expires=unknown''),
      (Debug, ''Existing cert: '' @
              show_json (JObj [(''notAfter'', JStr ''Jan  1 00:00:00 2030 GMT''),
                               (''subject'', JObj [(''commonName'', JStr ''a.com'')]),
                               (''altNames'', JArr [JStr ''a.com'', JStr ''b.com''])])),
      (Info, ''Collection c1 alt names changed ('' @
             show_json (JArr [JStr ''a.com'', JStr ''b.com'']) @ '' '' @ arrow @ '' '' @
             show_json (JArr [JStr ''a.com'', JStr ''b.com'', JStr ''a.com'']) @
             '') - will renew'')]"
  by code_simp

subsection \<open>The log of every operation\<close>

lemma kept_logs:
  assumes "kept s s' m" and "same_asks s s' out out'" and "twin_adapter s s' a a'"
  shows "logs (events (snd (m out a))) = logs (events (snd (m out' a')))"
proof -
  from keptD(2) [OF assms] have "twin s s' (events (snd (m out a))) (events (snd (m out' a')))"
    by (simp add: twin_adapter_def)
  then show ?thesis by (rule logs_twin)
qed

lemma twin_last:
  assumes "twin s s' h h'" and "h \<noteq> []"
  shows "h' \<noteq> [] \<and> twin_event s s' (last h) (last h')"
proof -
  from assms(1) have l: "length h = length h'"
    by (simp add: twin_def list_all2_lengthD)
  with assms(2) have ne: "h' \<noteq> []" by auto
  from assms(1) have "\<forall>i < length h. twin_event s s' (h ! i) (h' ! i)"
    by (simp add: twin_def list_all2_conv_all_nth)
  with assms(2) have "twin_event s s' (h ! (length h - 1)) (h' ! (length h - 1))"
    by simp
  with assms(2) ne l show ?thesis
    by (simp add: last_conv_nth)
qed

lemma twin_empty: "twin s s' h h' \<Longrightarrow> h = [] \<longleftrightarrow> h' = []"
  by (auto simp: twin_def)

lemma twin_object_domainname:
  assumes "twin_object ''apikey'' ''apipassword'' K K' p p'"
  shows "getprop p ''domainname'' = getprop p' ''domainname''"
proof (cases p)
  case (JObj kvs)
  show ?thesis
  proof (cases p')
    case (JObj kvs')
    with assms \<open>p = JObj kvs\<close> have "twin_entries ''apikey'' ''apipassword'' K K' kvs kvs'"
      by simp
    from twin_entries_lookup [OF this, of "''domainname''"] JObj \<open>p = JObj kvs\<close> show ?thesis
      by simp
  qed (use assms JObj in simp_all)
qed (use assms in simp_all)

lemma twin_object_plain:
  assumes "twin_object kn pn K K' p p'" and "\<And>kvs. p \<noteq> JObj kvs"
  shows "p' = p \<and> opt p k = JUndefined"
  using assms by (cases p; cases p') (simp_all add: opt_def)

lemma twin_object_checked:
  assumes "twin_object ''apikey'' ''apipassword'' K K' p p'"
  shows "(opt p ''apikey'' = JStr (fst K) \<longleftrightarrow> opt p' ''apikey'' = JStr (fst K')) \<and>
         (opt p ''apipassword'' = JStr (snd K) \<longleftrightarrow> opt p' ''apipassword'' = JStr (snd K'))"
proof (cases "\<exists>kvs. p = JObj kvs")
  case True
  then obtain kvs where p: "p = JObj kvs" by blast
  with assms obtain kvs' where p': "p' = JObj kvs'"
    by (cases p') simp_all
  with assms p have "twin_entries ''apikey'' ''apipassword'' K K' kvs kvs'"
    by simp
  from twin_entries_secret [OF this] p p' show ?thesis
    by (auto simp: opt_def)
next
  case False
  then have n: "\<And>kvs. p \<noteq> JObj kvs" by blast
  from twin_object_plain [OF assms n, of "''apikey''"]
    twin_object_plain [OF assms n, of "''apipassword''"]
  show ?thesis by simp
qed

lemma stub_fetch_twin:
  assumes "twin K K' h h'" and "h \<noteq> []"
  shows "stub_fetch h = stub_fetch h'"
proof -
  from twin_last [OF assms] have e: "twin_event K K' (last h) (last h')" by simp
  show ?thesis
  proof (cases "last h")
    case (Fetch action p)
    with e obtain p' where l': "last h' = Fetch action p'"
      and p: "twin_object ''apikey'' ''apipassword'' K K' p p'"
      by (cases "last h'") simp_all
    from twin_object_domainname [OF p] show ?thesis
      by (simp add: stub_fetch_def Fetch l')
  next
    case (Ask name args)
    with e obtain args' where "last h' = Ask name args'"
      by (cases "last h'") simp_all
    with Ask show ?thesis by (simp add: stub_fetch_def)
  next
    case (ResolveTxt servers name)
    with e show ?thesis by (simp add: stub_fetch_def)
  next
    case (Sleep ms)
    with e show ?thesis by (simp add: stub_fetch_def)
  next
    case (Log l m)
    with e show ?thesis by (simp add: stub_fetch_def)
  qed
qed

lemma auth_fetch_twin:
  assumes "twin K K' h h'"
  shows "auth_fetch K h = auth_fetch K' h'"
proof (cases "h = []")
  case True
  with twin_empty [OF assms] show ?thesis by (simp add: auth_fetch_def)
next
  case False
  with twin_empty [OF assms] have ne: "h' \<noteq> []" by simp
  from twin_last [OF assms False] have e: "twin_event K K' (last h) (last h')" by simp
  note st = stub_fetch_twin [OF assms False]
  show ?thesis
  proof (cases "last h")
    case (Fetch action p)
    with e obtain p' where l': "last h' = Fetch action p'"
      and p: "twin_object ''apikey'' ''apipassword'' K K' p p'"
      by (cases "last h'") simp_all
    from twin_object_checked [OF p] st show ?thesis
      by (auto simp: auth_fetch_def False ne Fetch l')
  next
    case (Ask name args)
    with e obtain args' where "last h' = Ask name args'"
      by (cases "last h'") simp_all
    with Ask show ?thesis by (simp add: auth_fetch_def False ne)
  next
    case (ResolveTxt servers name)
    with e have l': "last h' = ResolveTxt servers name" by simp
    show ?thesis by (simp add: auth_fetch_def False ne ResolveTxt l')
  next
    case (Sleep ms)
    with e have l': "last h' = Sleep ms" by simp
    show ?thesis by (simp add: auth_fetch_def False ne Sleep l')
  next
    case (Log l m)
    with e have l': "last h' = Log l m" by simp
    show ?thesis by (simp add: auth_fetch_def False ne Log l')
  qed
qed

lemma same_answers_auth: "same_answers K K' (auth_world K) (auth_world K')"
  by (simp add: same_answers_def auth_world_def auth_fetch_twin)

lemma same_asks_example: "same_asks K K' example_outside example_outside"
  by (simp add: same_asks_def example_outside_def)

lemma twin_example_adapters: "twin_adapter example_secrets other_secrets example_adapter other_adapter"
  by (simp add: twin_adapter_def example_adapter_def other_adapter_def constructed_def
      example_config_def other_config_def twin_entries_def example_secrets_def other_secrets_def
      twin_Nil)

lemma twin_example_options: "twin_options example_secrets other_secrets example_options other_options"
  by (simp add: twin_options_def example_options_def other_options_def example_secrets_def
      other_secrets_def)

text \<open>
  Claim C9, amended.  The API key and the API password, strings that are not empty, do
  not reach the log through the program.  Take two runs of an operation that differ only
  in the key and the password: the adapters are twins, the options of the handler are
  twins, the histories are twins, and the outside gives both runs the same answers.  Then
  every operation writes the same log in both runs: \<open>onReady\<close>, \<open>onUnload\<close>,
  \<open>initChallenges\<close>, \<open>acmeNotify\<close>, \<open>pollDns01Challenge\<close>, \<open>initAcme\<close>,
  \<open>stopAdaptersOnSamePort\<close>, \<open>restoreAdaptersOnSamePort\<close> and \<open>generateCollection\<close> of the
  adapter, and \<open>create\<close>, \<open>set\<close>, \<open>get\<close> and \<open>remove\<close> of the handler.  A log message
  can therefore hold the key or the password only where it repeats an answer from
  outside that holds it.  The configuration and the options are logged as masked copies,
  which are the same in both runs and hold \<open>'***'\<close> under the keys of the key and the
  password.  The customer number is not among the secrets: it is the same in both runs.
\<close>

theorem C9_secrets_not_logged:
  assumes "fst s \<noteq> []" and "snd s \<noteq> []" and "fst s' \<noteq> []" and "snd s' \<noteq> []"
    and "same_asks s s' out out'" and "twin_adapter s s' a a'"
    and "same_answers s s' w w'" and "twin s s' st st'" and "twin_options s s' opts opts'"
  shows "logs (events (snd (onReady out a))) = logs (events (snd (onReady out' a'))) \<and>
         logs (events (snd (onUnload out a))) = logs (events (snd (onUnload out' a'))) \<and>
         logs (events (snd (initChallenges out a))) = logs (events (snd (initChallenges out' a'))) \<and>
         logs (events (snd (acmeNotify ev msg out a))) = logs (events (snd (acmeNotify ev msg out' a'))) \<and>
         logs (events (snd (pollDns01Challenge ch out a))) =
           logs (events (snd (pollDns01Challenge ch out' a'))) \<and>
         logs (events (snd (initAcme out a))) = logs (events (snd (initAcme out' a'))) \<and>
         logs (events (snd (stopAdaptersOnSamePort out a))) =
           logs (events (snd (stopAdaptersOnSamePort out' a'))) \<and>
         logs (events (snd (restoreAdaptersOnSamePort out a))) =
           logs (events (snd (restoreAdaptersOnSamePort out' a'))) \<and>
         logs (events (snd (generateCollection c out a))) =
           logs (events (snd (generateCollection c out' a'))) \<and>
         logs (snd (create st opts)) = logs (snd (create st' opts')) \<and>
         logs (snd (set_challenge w st opts ch)) = logs (snd (set_challenge w' st' opts' ch)) \<and>
         logs (snd (get_challenge w st ch)) = logs (snd (get_challenge w' st' ch)) \<and>
         logs (snd (remove_challenge w st opts ch)) = logs (snd (remove_challenge w' st' opts' ch)) \<and>
         safe_copy (this_config a) = safe_copy (this_config a') \<and>
         safe_copy (dns01Options (this_config a)) = safe_copy (dns01Options (this_config a')) \<and>
         list_all (\<lambda>(k, v). k = ''dns01OapiKey'' \<or> k = ''dns01OapiPassword'' \<longrightarrow> v = JStr ''***'')
           (safe_copy (this_config a)) \<and>
         list_all (\<lambda>(k, v). k = ''apiKey'' \<or> k = ''apiPassword'' \<longrightarrow> v = JStr ''***'')
           (safe_copy (dns01Options (this_config a)))"
proof -
  note ne = assms(1-4)
  note run = assms(5,6)
  have 1: "logs (events (snd (onReady out a))) = logs (events (snd (onReady out' a')))"
    by (rule kept_logs [OF kept_onReady [OF ne] run])
  have 2: "logs (events (snd (onUnload out a))) = logs (events (snd (onUnload out' a')))"
    by (rule kept_logs [OF kept_onUnload run])
  have 3: "logs (events (snd (initChallenges out a))) = logs (events (snd (initChallenges out' a')))"
    by (rule kept_logs [OF kept_initChallenges [OF ne] run])
  have 4: "logs (events (snd (acmeNotify ev msg out a))) = logs (events (snd (acmeNotify ev msg out' a')))"
    by (rule kept_logs [OF kept_acmeNotify run])
  have 5: "logs (events (snd (pollDns01Challenge ch out a))) =
           logs (events (snd (pollDns01Challenge ch out' a')))"
    by (rule kept_logs [OF kept_pollDns01Challenge run])
  have 6: "logs (events (snd (initAcme out a))) = logs (events (snd (initAcme out' a')))"
    by (rule kept_logs [OF kept_initAcme run])
  have 7: "logs (events (snd (stopAdaptersOnSamePort out a))) =
           logs (events (snd (stopAdaptersOnSamePort out' a')))"
    by (rule kept_logs [OF kept_stopAdaptersOnSamePort run])
  have 8: "logs (events (snd (restoreAdaptersOnSamePort out a))) =
           logs (events (snd (restoreAdaptersOnSamePort out' a')))"
    by (rule kept_logs [OF kept_restore run])
  have 9: "logs (events (snd (generateCollection c out a))) =
           logs (events (snd (generateCollection c out' a')))"
    by (rule kept_logs [OF kept_generateCollection run])
  have 10: "logs (snd (create st opts)) = logs (snd (create st' opts'))"
    by (rule logs_twin [OF conjunct2 [OF create_twin [OF assms(8,9) ne]]])
  have 11: "logs (snd (set_challenge w st opts ch)) = logs (snd (set_challenge w' st' opts' ch))"
    by (rule logs_twin [OF conjunct2 [OF set_challenge_twin [OF assms(7,8,9)]]])
  have 12: "logs (snd (get_challenge w st ch)) = logs (snd (get_challenge w' st' ch))"
    by (rule logs_twin [OF conjunct2 [OF get_challenge_twin [OF assms(7,8)]]])
  have 13: "logs (snd (remove_challenge w st opts ch)) = logs (snd (remove_challenge w' st' opts' ch))"
    by (rule logs_twin [OF conjunct2 [OF remove_challenge_twin [OF assms(7,8,9)]]])
  from assms(6) have c: "twin_entries ''dns01OapiKey'' ''dns01OapiPassword'' s s'
                           (this_config a) (this_config a')"
    by (simp add: twin_adapter_def)
  have 14: "safe_copy (this_config a) = safe_copy (this_config a')"
    using twin_entries_safe_copy [OF c _ _ ne] sensitive_names by simp
  have 15: "safe_copy (dns01Options (this_config a)) = safe_copy (dns01Options (this_config a'))"
    using twin_entries_safe_copy [OF twin_dns01Options [OF c] _ _ ne] sensitive_names by simp
  have 16: "list_all (\<lambda>(k, v). k = ''dns01OapiKey'' \<or> k = ''dns01OapiPassword'' \<longrightarrow> v = JStr ''***'')
              (safe_copy (this_config a))"
    using twin_entries_masked [OF c _ _ assms(1,2)] sensitive_names by simp
  have 17: "list_all (\<lambda>(k, v). k = ''apiKey'' \<or> k = ''apiPassword'' \<longrightarrow> v = JStr ''***'')
              (safe_copy (dns01Options (this_config a)))"
    using twin_entries_masked [OF twin_dns01Options [OF c] _ _ assms(1,2)] sensitive_names by simp
  from 1 2 3 4 5 6 7 8 9 10 11 12 13 14 15 16 17 show ?thesis
    by blast
qed

lemma example_secrets_differ:
  "fst example_secrets \<noteq> [] \<and> snd example_secrets \<noteq> [] \<and>
   fst other_secrets \<noteq> [] \<and> snd other_secrets \<noteq> [] \<and>
   fst example_secrets \<noteq> fst other_secrets \<and> snd example_secrets \<noteq> snd other_secrets"
  by (simp add: example_secrets_def other_secrets_def)

lemma auth_world_checks:
  "fst (login (auth_world example_secrets) [] ''12345'' ''k3y'' ''pw'') = Inr (JStr ''s1'') \<and>
   fst (login (auth_world example_secrets) [] ''12345'' ''0ther'' ''s3cret'') =
     Inl (Error ''Netcup API error [4013]: Validation Error.'')"
  by (simp add: login_def apiCall_def auth_world_def auth_fetch_def example_secrets_def
      login_param_def opt_def stub_fetch_def ok_def refused_def api_message_def show_int_def Let_def)

lemma example_initChallenges_log:
  "logs (events (snd (initChallenges example_outside example_adapter))) =
     [(Debug, ''Init dns-01 challenge''),
      (Debug, ''dns-01 options: '' @
              show_json (JObj [(''customerNumber'', JStr ''12345''), (''apiKey'', JStr ''***''),
                               (''apiPassword'', JStr ''***'')])),
      (Warn, ''[acme-dns-01-netcup] create() called, customerNumber='' @ quoted ''12345''),
      (Debug, ''dns-01: propagationDelay set to 0 for Netcup (set() handles propagation internally)'')]"
  by code_simp

text \<open>
  The amended claim C9 on the example: the adapter constructed with the configuration
  of the example account and the one constructed with the other API key and password,
  an outside that answers both alike, and for the handler an API that checks the key and
  the password of the account of each run.  Every operation logs the same in both runs;
  the log of \<open>initChallenges\<close> shows the masked options, and the API of the first account
  refuses the secrets of the other.
\<close>

theorem C9_witness:
  "fst example_secrets \<noteq> [] \<and> snd example_secrets \<noteq> [] \<and>
   fst other_secrets \<noteq> [] \<and> snd other_secrets \<noteq> [] \<and>
   fst example_secrets \<noteq> fst other_secrets \<and> snd example_secrets \<noteq> snd other_secrets \<and>
   same_asks example_secrets other_secrets example_outside example_outside \<and>
   twin_adapter example_secrets other_secrets example_adapter other_adapter \<and>
   same_answers example_secrets other_secrets (auth_world example_secrets) (auth_world other_secrets) \<and>
   twin example_secrets other_secrets [] [] \<and>
   twin_options example_secrets other_secrets example_options other_options \<and>
   fst (login (auth_world example_secrets) [] ''12345'' ''k3y'' ''pw'') = Inr (JStr ''s1'') \<and>
   fst (login (auth_world example_secrets) [] ''12345'' ''0ther'' ''s3cret'') =
     Inl (Error ''Netcup API error [4013]: Validation Error.'') \<and>
   logs (events (snd (onReady example_outside example_adapter))) =
     logs (events (snd (onReady example_outside other_adapter))) \<and>
   logs (events (snd (onUnload example_outside example_adapter))) =
     logs (events (snd (onUnload example_outside other_adapter))) \<and>
   logs (events (snd (initChallenges example_outside example_adapter))) =
     logs (events (snd (initChallenges example_outside other_adapter))) \<and>
   logs (events (snd (acmeNotify ''error'' (JStr ''order failed'') example_outside example_adapter))) =
     logs (events (snd (acmeNotify ''error'' (JStr ''order failed'') example_outside other_adapter))) \<and>
   logs (events (snd (pollDns01Challenge example_challenge example_outside example_adapter))) =
     logs (events (snd (pollDns01Challenge example_challenge example_outside other_adapter))) \<and>
   logs (events (snd (initAcme example_outside example_adapter))) =
     logs (events (snd (initAcme example_outside other_adapter))) \<and>
   logs (events (snd (stopAdaptersOnSamePort example_outside example_adapter))) =
     logs (events (snd (stopAdaptersOnSamePort example_outside other_adapter))) \<and>
   logs (events (snd (restoreAdaptersOnSamePort example_outside example_adapter))) =
     logs (events (snd (restoreAdaptersOnSamePort example_outside other_adapter))) \<and>
   logs (events (snd (generateCollection example_collection_json example_outside example_adapter))) =
     logs (events (snd (generateCollection example_collection_json example_outside other_adapter))) \<and>
   logs (snd (create [] example_options)) = logs (snd (create [] other_options)) \<and>
   logs (snd (set_challenge (auth_world example_secrets) [] example_options example_challenge)) =
     logs (snd (set_challenge (auth_world other_secrets) [] other_options example_challenge)) \<and>
   logs (snd (get_challenge (auth_world example_secrets) [] example_challenge)) =
     logs (snd (get_challenge (auth_world other_secrets) [] example_challenge)) \<and>
   logs (snd (remove_challenge (auth_world example_secrets) [] example_options example_challenge)) =
     logs (snd (remove_challenge (auth_world other_secrets) [] other_options example_challenge)) \<and>
   safe_copy (this_config example_adapter) = safe_copy (this_config other_adapter) \<and>
   safe_copy (dns01Options (this_config example_adapter)) =
     safe_copy (dns01Options (this_config other_adapter)) \<and>
   logs (events (snd (initChallenges example_outside example_adapter))) =
     [(Debug, ''Init dns-01 challenge''),
      (Debug, ''dns-01 options: '' @
              show_json (JObj [(''customerNumber'', JStr ''12345''), (''apiKey'', JStr ''***''),
                               (''apiPassword'', JStr ''***'')])),
      (Warn, ''[acme-dns-01-netcup] create() called, customerNumber='' @ quoted ''12345''),
      (Debug, ''dns-01: propagationDelay set to 0 for Netcup (set() handles propagation internally)'')]"
  using C9_secrets_not_logged
          [where s = example_secrets and s' = other_secrets
             and out = example_outside and out' = example_outside
             and a = example_adapter and a' = other_adapter
             and w = "auth_world example_secrets" and w' = "auth_world other_secrets"
             and st = "[]" and st' = "[]"
             and opts = example_options and opts' = other_options
             and ev = "''error''" and msg = "JStr ''order failed''"
             and ch = example_challenge and c = example_collection_json]
    example_secrets_differ same_asks_example [of example_secrets other_secrets]
    twin_example_adapters same_answers_auth [of example_secrets other_secrets]
    twin_Nil [of example_secrets other_secrets] twin_example_options
    auth_world_checks example_initChallenges_log
  by simp

lemma example_create_log:
  "logs (snd (create [] example_options)) =
     [(Warn, ''[acme-dns-01-netcup] create() called, customerNumber='' @ quoted ''12345'')] \<and>
   includes_str (create_message example_options) (customerNumber example_options)"
  by (simp add: example_options_def create_def create_message_def quoted_def)

lemma example_masked:
  "safe_copy example_config =
     [(''maintainerEmail'', JStr ''admin@example.com''), (''useStaging'', JBool False),
      (''collections'',
       JArr [JObj [(''id'', JStr ''c1''), (''commonName'', JStr ''a.com''),
                   (''altNames'', JStr ''b.com, a.com'')]]),
      (''dns01Active'', JBool True), (''dns01Module'', JStr ''acme-dns-01-netcup''),
      (''dns01OcustomerNumber'', JStr ''12345''), (''dns01OapiKey'', JStr ''***''),
      (''dns01OapiPassword'', JStr ''***''), (''port'', JNum 80)] \<and>
   safe_copy (dns01Options example_config) =
     [(''customerNumber'', JStr ''12345''), (''apiKey'', JStr ''***''), (''apiPassword'', JStr ''***'')]"
  by (simp add: safe_copy_def mask_value_def example_config_def dns01Options_def sensitive_key_def
      lower_char_def less_eq_char_def)

lemma example_echo_log:
  "logs (snd (set_challenge echo_world [] example_options example_challenge)) =
     [(Warn, set_called example_challenge),
      (Err, ''[acme-dns-01-netcup] set: login failed: Error: Netcup API error [4013]: The API key k3y is not valid.'')]"
  by (simp add: set_challenge_def login_def apiCall_def echo_world_def echo_fetch_def
      example_options_def login_param_def opt_def api_message_def show_int_def Let_def
      login_failed_message_def)

lemma example_echo_holds:
  "includes_str
     ''[acme-dns-01-netcup] set: login failed: Error: Netcup API error [4013]: The API key k3y is not valid.''
     ''k3y''"
  by simp

text \<open>
  Claim C9 as stated fails for the customer number: \<open>create\<close> writes it to the log, and
  the masked copies of the configuration and of the options keep it, because its key
  holds none of the five words; \<open>initChallenges\<close> of the example logs it twice.  And
  what the API answers is logged as it comes: when the API repeats the key in its error
  message, \<open>set\<close> logs the key with it.
\<close>

theorem C9_counterexample:
  "customerNumber example_options = ''12345'' \<and>
   logs (snd (create [] example_options)) =
     [(Warn, ''[acme-dns-01-netcup] create() called, customerNumber='' @ quoted ''12345'')] \<and>
   includes_str (create_message example_options) (customerNumber example_options) \<and>
   safe_copy example_config =
     [(''maintainerEmail'', JStr ''admin@example.com''), (''useStaging'', JBool False),
      (''collections'',
       JArr [JObj [(''id'', JStr ''c1''), (''commonName'', JStr ''a.com''),
                   (''altNames'', JStr ''b.com, a.com'')]]),
      (''dns01Active'', JBool True), (''dns01Module'', JStr ''acme-dns-01-netcup''),
      (''dns01OcustomerNumber'', JStr ''12345''), (''dns01OapiKey'', JStr ''***''),
      (''dns01OapiPassword'', JStr ''***''), (''port'', JNum 80)] \<and>
   safe_copy (dns01Options example_config) =
     [(''customerNumber'', JStr ''12345''), (''apiKey'', JStr ''***''), (''apiPassword'', JStr ''***'')] \<and>
   logs (events (snd (initChallenges example_outside example_adapter))) =
     [(Debug, ''Init dns-01 challenge''),
      (Debug, ''dns-01 options: '' @
              show_json (JObj [(''customerNumber'', JStr ''12345''), (''apiKey'', JStr ''***''),
                               (''apiPassword'', JStr ''***'')])),
      (Warn, ''[acme-dns-01-netcup] create() called, customerNumber='' @ quoted ''12345''),
      (Debug, ''dns-01: propagationDelay set to 0 for Netcup (set() handles propagation internally)'')] \<and>
   apiKey example_options = ''k3y'' \<and>
   logs (snd (set_challenge echo_world [] example_options example_challenge)) =
     [(Warn, set_called example_challenge),
      (Err, ''[acme-dns-01-netcup] set: login failed: Error: Netcup API error [4013]: The API key k3y is not valid.'')] \<and>
   includes_str
     ''[acme-dns-01-netcup] set: login failed: Error: Netcup API error [4013]: The API key k3y is not valid.''
     (apiKey example_options)"
  using example_create_log example_masked example_initChallenges_log example_echo_log
    example_echo_holds
  by (simp add: example_options_def)

end
